theory Spec2Isabelle
  imports Complex_Main "HOL-Library.AList" "HOL-Library.Option_ord"
    "HOL-Library.Char_ord" "HOL-Library.List_Lexorder"
begin

section \<open>Data model\<close>

text \<open>
  The Go sources keep money amounts, prices and share counts in \<^verbatim>\<open>float64\<close>. Here they are
  exact real numbers: rounding of the binary floating-point operations is not modelled, so
  every statement below is about the arithmetic the code writes down, not about its last bit.
  A \<^verbatim>\<open>time.Time\<close> is the number of seconds since the Unix epoch, a nullable column or
  pointer field is an \<open>option\<close>.
\<close>

text \<open>\<^verbatim>\<open>storage.Trade\<close>. The display-only columns (market title, slug, created_at) are left out.\<close>

record Trade =
  UserID :: int
  Address :: string
  TradeID :: "string option"
  ConditionID :: "string option"
  Outcome :: "string option"
  Side :: "string option"
  Price :: "real option"
  Size :: "real option"
  Value :: "real option"
  Timestamp :: "int option"

text \<open>\<^verbatim>\<open>backfill.lot\<close> (fields \<^verbatim>\<open>price\<close>, \<^verbatim>\<open>size\<close>) and \<^verbatim>\<open>backfill.positionKey\<close>.\<close>

record lot =
  lot_price :: real
  lot_size :: real

datatype positionKey = PositionKey (conditionID: string) (outcome: string)

text \<open>\<^verbatim>\<open>storage.fifoLot\<close> (fields \<^verbatim>\<open>Shares\<close>, \<^verbatim>\<open>Price\<close>: price per share).\<close>

record fifoLot =
  Shares :: real
  PricePerShare :: real

text \<open>\<^verbatim>\<open>storage.User\<close> (without created_at).\<close>

record User =
  ID :: int
  Username :: string
  LastSynced :: "int option"
  ProfileImage :: "string option"
  OfficialPnl :: "real option"
  OfficialVolume :: "real option"

text \<open>\<^verbatim>\<open>storage.Position\<close>, the numeric and key columns (fields prefixed \<open>pos_\<close>).\<close>

record Position =
  pos_UserID :: int
  pos_Address :: string
  pos_ConditionID :: string
  pos_Asset :: string
  pos_Outcome :: "string option"
  pos_Size :: "real option"
  pos_AvgPrice :: "real option"
  pos_CurrentPrice :: "real option"
  pos_InitialValue :: "real option"
  pos_CurrentValue :: "real option"
  pos_UnrealizedPnl :: "real option"
  pos_UnrealizedPnlPercent :: "real option"
  pos_RealizedPnl :: "real option"

text \<open>\<^verbatim>\<open>storage.PnlSnapshot\<close> (fields prefixed \<open>snap_\<close>; the row id is left out).\<close>

record PnlSnapshot =
  snap_UserID :: int
  snap_Timestamp :: int
  snap_TotalPnl :: "real option"
  snap_RealizedPnl :: "real option"
  snap_UnrealizedPnl :: "real option"

text \<open>\<^verbatim>\<open>storage.UserStats\<close> (fields prefixed \<open>stats_\<close>).\<close>

record UserStats =
  stats_Username :: string
  stats_Addresses :: "string list"
  stats_ProfileImage :: "string option"
  stats_TotalPnl :: real
  stats_RealizedPnl :: real
  stats_UnrealizedPnl :: real
  stats_OpenPositions :: nat
  stats_TotalTrades :: nat
  stats_WinRate :: real
  stats_LastSynced :: "int option"

text \<open>\<^verbatim>\<open>backfill.Result\<close>.\<close>

record Result =
  res_Username :: string
  TradesProcessed :: nat
  SnapshotsCreated :: nat
  TotalRealizedPnl :: real
  OldestTradeDate :: "int option"
  NewestTradeDate :: "int option"

text \<open>
  The database: one list of rows per table (fields prefixed \<open>tbl_\<close>), in insertion order. The schema's constraints
  (\<^verbatim>\<open>UNIQUE\<close>, \<^verbatim>\<open>NOT NULL\<close>, and the foreign keys \<^verbatim>\<open>user_id REFERENCES users(id)\<close>, which
  \<^verbatim>\<open>Start\<close> switches on with \<^verbatim>\<open>PRAGMA foreign_keys = ON\<close>) are written into the operations
  that insert.
\<close>

record store =
  tbl_users :: "User list"
  tbl_addresses :: "(int \<times> string) list"
  tbl_positions :: "Position list"
  tbl_trades :: "Trade list"
  tbl_pnl_snapshots :: "PnlSnapshot list"

text \<open>
  Every statement sent to the database can fail. A run is given a fault oracle: the set of
  statements that fail when attempted in that run. A failed statement changes nothing.
\<close>

datatype db_op =
    OpGetUser string
  | OpGetUsers
  | OpGetUserAddresses int
  | OpPositionStats int
  | OpCountTrades int
  | OpGetUserTradesChronological int
  | OpInsertPnlSnapshot int
  | OpDeleteUserPnlSnapshots int
  | OpBeginTx
  | OpPrepare
  | OpExecInsert nat
  | OpCommit
  | OpDeleteUserPositions int
  | OpUpsertPosition int string string string
  | OpInsertTrade int string
  | OpUpdateUserLastSynced int
  | OpUpdateUserProfileImage int
  | OpUpdateUserOfficialPnl int

datatype error =
    ErrUserNotFound string
  | ErrUserIdNotFound int
  | ErrDb db_op
  | ErrConstraint
  | ErrUpstream string
  | ErrWrap string error

type_synonym faults = "db_op \<Rightarrow> bool"



section \<open>The backfill ledger pass\<close>

text \<open>
  The loop of \<^verbatim>\<open>calculateRealizedPnlFIFO\<close>:
  \<^verbatim>\<open>for remainingToSell > 0 && len(lots) > 0 { ... }\<close>.
  The arguments are the sell price, the queue, the remaining size and the PnL realized so far;
  the result is the queue, the remaining size and the PnL when the loop exits. After the
  partial-lot branch \<^verbatim>\<open>remainingToSell\<close> is 0, so the loop condition fails at once.
\<close>

fun fifo_loop :: "real \<Rightarrow> lot list \<Rightarrow> real \<Rightarrow> real \<Rightarrow> lot list \<times> real \<times> real" where
  "fifo_loop sellPrice [] remainingToSell realizedPnl = ([], remainingToSell, realizedPnl)"
| "fifo_loop sellPrice (currentLot # lots) remainingToSell realizedPnl =
     (if remainingToSell > 0 then
        (if lot_size currentLot \<le> remainingToSell then
           fifo_loop sellPrice lots (remainingToSell - lot_size currentLot)
             (realizedPnl + (sellPrice - lot_price currentLot) * lot_size currentLot)
         else
           (currentLot\<lparr>lot_size := lot_size currentLot - remainingToSell\<rparr> # lots, 0,
            realizedPnl + (sellPrice - lot_price currentLot) * remainingToSell))
      else (currentLot # lots, remainingToSell, realizedPnl))"

text \<open>
  \<^verbatim>\<open>calculateRealizedPnlFIFO(costBasis, key, sellPrice, sellSize)\<close>: the realized PnL of one
  sell and the updated cost-basis map. With no queue for the key, or an empty one, it returns
  \<^verbatim>\<open>sellPrice * sellSize\<close> before the loop and leaves the map as it is.
\<close>

definition calculateRealizedPnlFIFO ::
  "(positionKey \<rightharpoonup> lot list) \<Rightarrow> positionKey \<Rightarrow> real \<Rightarrow> real \<Rightarrow> real \<times> (positionKey \<rightharpoonup> lot list)" where
  "calculateRealizedPnlFIFO costBasis key sellPrice sellSize =
     (case costBasis key of
        None \<Rightarrow> (sellPrice * sellSize, costBasis)
      | Some lots \<Rightarrow>
          if lots = [] then (sellPrice * sellSize, costBasis)
          else
            (case fifo_loop sellPrice lots sellSize 0 of
               (lots', remainingToSell, realizedPnl) \<Rightarrow>
                 (if remainingToSell > 0 then realizedPnl + sellPrice * remainingToSell
                  else realizedPnl,
                  costBasis(key \<mapsto> lots'))))"

text \<open>
  The state of the first loop of \<^verbatim>\<open>BackfillUser\<close>: the cost-basis map, the cumulative
  realized PnL, the \<^verbatim>\<open>dailyPnl\<close> map (day \<open>\<rightarrow>\<close> cumulative PnL, an association list with
  distinct keys) and the oldest and newest timestamps seen.
\<close>

record backfill_state =
  costBasis :: "positionKey \<rightharpoonup> lot list"
  cumulativeRealizedPnl :: real
  dailyPnl :: "(int \<times> real) list"
  oldestDate :: "int option"
  newestDate :: "int option"

definition backfill_init :: backfill_state where
  "backfill_init = \<lparr>costBasis = Map.empty, cumulativeRealizedPnl = 0, dailyPnl = [],
     oldestDate = None, newestDate = None\<rparr>"

text \<open>
  \<^verbatim>\<open>timestamp.Truncate(24 * time.Hour)\<close>: the start of the UTC day, for every time from
  year 1 on (Go truncates relative to its zero time, which is a whole number of days before
  the Unix epoch). The day is the key of \<^verbatim>\<open>dailyPnl\<close>; two keys are taken to be equal when
  they are the same instant, as they are when all timestamps are read with one location.
\<close>

definition truncate_day :: "int \<Rightarrow> int" where
  "truncate_day ts = ts - ts mod 86400"

text \<open>The guard at the head of the loop body: all six pointer fields must be set.\<close>

definition backfill_complete :: "Trade \<Rightarrow> bool" where
  "backfill_complete trade \<longleftrightarrow>
     Timestamp trade \<noteq> None \<and> ConditionID trade \<noteq> None \<and> Outcome trade \<noteq> None \<and>
     Side trade \<noteq> None \<and> Price trade \<noteq> None \<and> Size trade \<noteq> None"

text \<open>One iteration of the first loop of \<^verbatim>\<open>BackfillUser\<close>.\<close>

definition backfill_step :: "backfill_state \<Rightarrow> Trade \<Rightarrow> backfill_state" where
  "backfill_step s trade =
     (if \<not> backfill_complete trade then s
      else
        let key = PositionKey (the (ConditionID trade)) (the (Outcome trade));
            price = the (Price trade);
            sz = the (Size trade);
            timestamp = the (Timestamp trade);
            day = truncate_day timestamp;
            s1 = s\<lparr>oldestDate :=
                      (case oldestDate s of None \<Rightarrow> Some timestamp
                       | Some d \<Rightarrow> if timestamp < d then Some timestamp else Some d)\<rparr>;
            s2 = s1\<lparr>newestDate :=
                      (case newestDate s1 of None \<Rightarrow> Some timestamp
                       | Some d \<Rightarrow> if timestamp > d then Some timestamp else Some d)\<rparr>
        in
          if the (Side trade) = ''BUY'' then
            s2\<lparr>costBasis := (costBasis s2)(key \<mapsto>
                  (case costBasis s2 key of None \<Rightarrow> [] | Some lots \<Rightarrow> lots) @
                  [\<lparr>lot_price = price, lot_size = sz\<rparr>])\<rparr>
          else if the (Side trade) = ''SELL'' then
            (case calculateRealizedPnlFIFO (costBasis s2) key price sz of
               (realizedPnl, cb) \<Rightarrow>
                 s2\<lparr>costBasis := cb,
                    cumulativeRealizedPnl := cumulativeRealizedPnl s2 + realizedPnl,
                    dailyPnl := AList.update day (cumulativeRealizedPnl s2 + realizedPnl)
                                  (dailyPnl s2)\<rparr>)
          else s2)"

definition backfill_pass :: "Trade list \<Rightarrow> backfill_state" where
  "backfill_pass trades = foldl backfill_step backfill_init trades"


section \<open>The live-stats ledger pass\<close>

text \<open>
  The inner loop of \<^verbatim>\<open>CalculateRealizedPnlFromTrades\<close>. The arguments are the sell price,
  the queue, the remaining size and the running \<^verbatim>\<open>(realizedPnl, wins, losses)\<close>.
\<close>

definition count_leg :: "real \<Rightarrow> real \<times> nat \<times> nat \<Rightarrow> real \<times> nat \<times> nat" where
  "count_leg pnl acc =
     (case acc of (realizedPnl, wins, losses) \<Rightarrow>
        (realizedPnl + pnl,
         if pnl > 0 then wins + 1 else wins,
         if pnl > 0 then losses else if pnl < 0 then losses + 1 else losses))"

fun live_loop ::
  "real \<Rightarrow> fifoLot list \<Rightarrow> real \<Rightarrow> real \<times> nat \<times> nat \<Rightarrow> fifoLot list \<times> real \<times> (real \<times> nat \<times> nat)" where
  "live_loop price [] remainingToSell acc = ([], remainingToSell, acc)"
| "live_loop price (l # lots) remainingToSell acc =
     (if remainingToSell > 0 then
        (if Shares l \<le> remainingToSell then
           live_loop price lots (remainingToSell - Shares l)
             (count_leg (Shares l * price - Shares l * PricePerShare l) acc)
         else
           (l\<lparr>Shares := Shares l - remainingToSell\<rparr> # lots, 0,
            count_leg (remainingToSell * price - remainingToSell * PricePerShare l) acc))
      else (l # lots, remainingToSell, acc))"

record live_state =
  inventory :: "positionKey \<rightharpoonup> fifoLot list"
  realizedPnl :: real
  wins :: nat
  losses :: nat

definition live_init :: live_state where
  "live_init = \<lparr>inventory = Map.empty, realizedPnl = 0, wins = 0, losses = 0\<rparr>"

text \<open>The two guards of the loop body: five pointer fields; the timestamp is not read.\<close>

definition live_complete :: "Trade \<Rightarrow> bool" where
  "live_complete trade \<longleftrightarrow>
     ConditionID trade \<noteq> None \<and> Outcome trade \<noteq> None \<and> Side trade \<noteq> None \<and>
     Price trade \<noteq> None \<and> Size trade \<noteq> None"

text \<open>
  One iteration of the loop over the trades. Reading a missing key of a Go map gives the nil
  slice, and the SELL branch stores the queue back under the key in every case.
\<close>

definition live_step :: "live_state \<Rightarrow> Trade \<Rightarrow> live_state" where
  "live_step s trade =
     (if \<not> live_complete trade then s
      else
        let key = PositionKey (the (ConditionID trade)) (the (Outcome trade));
            price = the (Price trade);
            sz = the (Size trade);
            lots = (case inventory s key of None \<Rightarrow> [] | Some ls \<Rightarrow> ls)
        in
          if the (Side trade) = ''BUY'' then
            s\<lparr>inventory := (inventory s)(key \<mapsto> lots @ [\<lparr>Shares = sz, PricePerShare = price\<rparr>])\<rparr>
          else if the (Side trade) = ''SELL'' then
            (case live_loop price lots sz (realizedPnl s, wins s, losses s) of
               (lots', remainingToSell, (r, w, l)) \<Rightarrow>
                 s\<lparr>inventory := (inventory s)(key \<mapsto> lots'),
                   realizedPnl := r, wins := w, losses := l\<rparr>)
          else s)"

definition live_pass :: "Trade list \<Rightarrow> live_state" where
  "live_pass trades = foldl live_step live_init trades"

text \<open>What \<^verbatim>\<open>CalculateRealizedPnlFromTrades\<close> returns for the trades it has read:
  \<^verbatim>\<open>realizedPnl, wins, wins + losses\<close>.\<close>

definition ledger_result :: "Trade list \<Rightarrow> real \<times> nat \<times> nat" where
  "ledger_result trades =
     (let s = live_pass trades in (realizedPnl s, wins s, wins s + losses s))"


section \<open>Storage operations\<close>

text \<open>The foreign-key check of an insert: a row of the users table carries the id.\<close>

definition user_exists :: "store \<Rightarrow> int \<Rightarrow> bool" where
  "user_exists st userID = list_ex (\<lambda>u. ID u = userID) (tbl_users st)"

text \<open>\<^verbatim>\<open>GetUser\<close>: the row with the given username, \<^verbatim>\<open>sql.ErrNoRows\<close> reported as "user not found".\<close>

definition GetUser :: "faults \<Rightarrow> store \<Rightarrow> string \<Rightarrow> error + User" where
  "GetUser f st username =
     (if f (OpGetUser username) then Inl (ErrWrap ''failed to query user'' (ErrDb (OpGetUser username)))
      else case find (\<lambda>u. Username u = username) (tbl_users st) of
             None \<Rightarrow> Inl (ErrUserNotFound username)
           | Some user \<Rightarrow> Inr user)"

text \<open>\<^verbatim>\<open>GetUsers\<close>: all users, \<^verbatim>\<open>ORDER BY username\<close>.\<close>

definition GetUsers :: "faults \<Rightarrow> store \<Rightarrow> error + User list" where
  "GetUsers f st =
     (if f OpGetUsers then Inl (ErrWrap ''failed to query users'' (ErrDb OpGetUsers))
      else Inr (sort_key Username (tbl_users st)))"

definition GetUserAddresses :: "faults \<Rightarrow> store \<Rightarrow> int \<Rightarrow> error + string list" where
  "GetUserAddresses f st userID =
     (if f (OpGetUserAddresses userID)
      then Inl (ErrWrap ''failed to query addresses'' (ErrDb (OpGetUserAddresses userID)))
      else Inr (map snd (filter (\<lambda>a. fst a = userID) (tbl_addresses st))))"

text \<open>
  \<^verbatim>\<open>GetUserTradesChronological\<close>: the account's trades, \<^verbatim>\<open>ORDER BY timestamp ASC\<close>.
  SQLite sorts NULL first, as the order on \<open>option\<close> does; rows with equal timestamps are
  kept in insertion order (SQL leaves their order open).
\<close>

definition GetUserTradesChronological :: "faults \<Rightarrow> store \<Rightarrow> int \<Rightarrow> error + Trade list" where
  "GetUserTradesChronological f st userID =
     (if f (OpGetUserTradesChronological userID)
      then Inl (ErrWrap ''failed to query trades'' (ErrDb (OpGetUserTradesChronological userID)))
      else Inr (sort_key Timestamp (filter (\<lambda>t. UserID t = userID) (tbl_trades st))))"

text \<open>\<^verbatim>\<open>CalculateRealizedPnlFromTrades\<close>: \<^verbatim>\<open>(realizedPnl, wins, totalClosed)\<close> or the error.\<close>

definition CalculateRealizedPnlFromTrades :: "faults \<Rightarrow> store \<Rightarrow> int \<Rightarrow> error + real \<times> nat \<times> nat" where
  "CalculateRealizedPnlFromTrades f st userID =
     (case GetUserTradesChronological f st userID of
        Inl e \<Rightarrow> Inl (ErrWrap ''failed to get trades'' e)
      | Inr trs \<Rightarrow> Inr (ledger_result trs))"

text \<open>
  The position query of \<^verbatim>\<open>GetUserStats\<close>:
  \<^verbatim>\<open>SELECT COUNT(*), COALESCE(SUM(unrealized_pnl), 0) FROM positions WHERE user_id = ?\<close>.
  \<^verbatim>\<open>SUM\<close> skips NULL values and is NULL when there is none, which \<^verbatim>\<open>COALESCE\<close> turns
  into 0.
\<close>

definition position_stats :: "store \<Rightarrow> int \<Rightarrow> nat \<times> real" where
  "position_stats st userID =
     (let ps = filter (\<lambda>p. pos_UserID p = userID) (tbl_positions st)
      in (length ps, sum_list (map (\<lambda>p. case pos_UnrealizedPnl p of None \<Rightarrow> 0 | Some v \<Rightarrow> v) ps)))"

text \<open>\<^verbatim>\<open>GetUserStats\<close>, the aggregate-stats query.\<close>

definition GetUserStats :: "faults \<Rightarrow> store \<Rightarrow> string \<Rightarrow> error + UserStats" where
  "GetUserStats f st username =
     (case GetUser f st username of
        Inl e \<Rightarrow> Inl e
      | Inr user \<Rightarrow>
     (case GetUserAddresses f st (ID user) of
        Inl e \<Rightarrow> Inl (ErrWrap ''failed to get user addresses'' e)
      | Inr addressList \<Rightarrow>
     (if f (OpPositionStats (ID user))
      then Inl (ErrWrap ''failed to get position stats'' (ErrDb (OpPositionStats (ID user))))
      else
        let (openPositions, unrealizedPnl) = position_stats st (ID user);
            pnl = (case OfficialPnl user of
                     Some official \<Rightarrow> Inr (official, official - unrealizedPnl)
                   | None \<Rightarrow>
                       (case CalculateRealizedPnlFromTrades f st (ID user) of
                          Inl e \<Rightarrow> Inl (ErrWrap ''failed to calculate realized pnl'' e)
                        | Inr (realized, _, _) \<Rightarrow> Inr (realized + unrealizedPnl, realized)))
        in
     (case pnl of
        Inl e \<Rightarrow> Inl e
      | Inr (totalPnl, realized) \<Rightarrow>
     (if f (OpCountTrades (ID user))
      then Inl (ErrWrap ''failed to count trades'' (ErrDb (OpCountTrades (ID user))))
      else
     (case CalculateRealizedPnlFromTrades f st (ID user) of
        Inl e \<Rightarrow> Inl (ErrWrap ''failed to calculate win rate'' e)
      | Inr (_, ws, totalClosed) \<Rightarrow>
          Inr \<lparr>stats_Username = username, stats_Addresses = addressList,
               stats_ProfileImage = ProfileImage user,
               stats_TotalPnl = totalPnl, stats_RealizedPnl = realized,
               stats_UnrealizedPnl = unrealizedPnl, stats_OpenPositions = openPositions,
               stats_TotalTrades = length (filter (\<lambda>t. UserID t = ID user) (tbl_trades st)),
               stats_WinRate = (if totalClosed > 0 then real ws / real totalClosed else 0),
               stats_LastSynced = LastSynced user\<rparr>))))))"

text \<open>\<^verbatim>\<open>InsertPnlSnapshot\<close>: one row appended; the foreign key rejects an unknown user id.\<close>

definition InsertPnlSnapshot :: "faults \<Rightarrow> store \<Rightarrow> PnlSnapshot \<Rightarrow> error option \<times> store" where
  "InsertPnlSnapshot f st snapshot =
     (if f (OpInsertPnlSnapshot (snap_UserID snapshot))
      then (Some (ErrWrap ''failed to insert pnl snapshot'' (ErrDb (OpInsertPnlSnapshot (snap_UserID snapshot)))), st)
      else if \<not> user_exists st (snap_UserID snapshot)
      then (Some (ErrWrap ''failed to insert pnl snapshot'' ErrConstraint), st)
      else (None, st\<lparr>tbl_pnl_snapshots := tbl_pnl_snapshots st @ [snapshot]\<rparr>))"

text \<open>\<^verbatim>\<open>DeleteUserPnlSnapshots\<close>: one \<^verbatim>\<open>DELETE\<close> statement, sent outside any transaction.\<close>

definition DeleteUserPnlSnapshots :: "faults \<Rightarrow> store \<Rightarrow> int \<Rightarrow> error option \<times> store" where
  "DeleteUserPnlSnapshots f st userID =
     (if f (OpDeleteUserPnlSnapshots userID)
      then (Some (ErrWrap ''failed to delete pnl snapshots'' (ErrDb (OpDeleteUserPnlSnapshots userID))), st)
      else (None, st\<lparr>tbl_pnl_snapshots := filter (\<lambda>s. snap_UserID s \<noteq> userID) (tbl_pnl_snapshots st)\<rparr>))"

text \<open>
  The loop of \<^verbatim>\<open>BulkInsertPnlSnapshots\<close> inside its transaction: statement \<open>i\<close> inserts the
  \<open>i\<close>-th snapshot into the transaction's view \<open>tx\<close> of the database; the foreign key rejects
  an unknown user id.
\<close>

fun bulk_exec :: "faults \<Rightarrow> nat \<Rightarrow> PnlSnapshot list \<Rightarrow> store \<Rightarrow> error + store" where
  "bulk_exec f i [] tx = Inr tx"
| "bulk_exec f i (snapshot # rest) tx =
     (if f (OpExecInsert i)
      then Inl (ErrWrap ''failed to insert pnl snapshot'' (ErrDb (OpExecInsert i)))
      else if \<not> user_exists tx (snap_UserID snapshot)
      then Inl (ErrWrap ''failed to insert pnl snapshot'' ErrConstraint)
      else bulk_exec f (Suc i) rest (tx\<lparr>tbl_pnl_snapshots := tbl_pnl_snapshots tx @ [snapshot]\<rparr>))"

text \<open>
  \<^verbatim>\<open>BulkInsertPnlSnapshots\<close>: nothing to do for an empty list; otherwise begin, prepare,
  insert each row, commit. Every error return runs the deferred \<^verbatim>\<open>tx.Rollback()\<close>, which
  leaves the database as it was when the transaction began.
\<close>

definition BulkInsertPnlSnapshots :: "faults \<Rightarrow> store \<Rightarrow> PnlSnapshot list \<Rightarrow> error option \<times> store" where
  "BulkInsertPnlSnapshots f st snapshots =
     (if snapshots = [] then (None, st)
      else if f OpBeginTx then (Some (ErrWrap ''failed to begin transaction'' (ErrDb OpBeginTx)), st)
      else if f OpPrepare then (Some (ErrWrap ''failed to prepare statement'' (ErrDb OpPrepare)), st)
      else case bulk_exec f 0 snapshots st of
             Inl e \<Rightarrow> (Some e, st)
           | Inr tx \<Rightarrow>
               if f OpCommit then (Some (ErrWrap ''failed to commit transaction'' (ErrDb OpCommit)), st)
               else (None, tx))"


section \<open>The snapshot rebuilder\<close>

text \<open>
  \<^verbatim>\<open>createSnapshots\<close>: one snapshot per entry of \<^verbatim>\<open>dailyPnl\<close>, total and realized PnL both
  the entry's value, unrealized PnL 0.
\<close>

definition createSnapshots :: "int \<Rightarrow> (int \<times> real) list \<Rightarrow> PnlSnapshot list" where
  "createSnapshots userID daily =
     map (\<lambda>(day, pnl). \<lparr>snap_UserID = userID, snap_Timestamp = day, snap_TotalPnl = Some pnl,
                          snap_RealizedPnl = Some pnl, snap_UnrealizedPnl = Some 0\<rparr>) daily"

text \<open>
  The snapshots \<^verbatim>\<open>BackfillUser\<close> computes from the trades it has read: the ledger pass,
  \<^verbatim>\<open>createSnapshots\<close>, then \<^verbatim>\<open>sort.Slice\<close> by timestamp. (Go ranges over \<^verbatim>\<open>dailyPnl\<close> in
  an arbitrary order; the keys are distinct, so the sorted list does not depend on it.)
\<close>

definition backfill_snapshots :: "int \<Rightarrow> Trade list \<Rightarrow> PnlSnapshot list" where
  "backfill_snapshots userID trs =
     sort_key snap_Timestamp (createSnapshots userID (dailyPnl (backfill_pass trs)))"

text \<open>
  \<^verbatim>\<open>BackfillUser\<close>: the result or the error, and the database afterwards. The second loop
  over the trades in the source has an empty body and is left out; so are the log lines.
\<close>

definition BackfillUser :: "faults \<Rightarrow> store \<Rightarrow> string \<Rightarrow> (error + Result) \<times> store" where
  "BackfillUser f st username =
     (case GetUser f st username of
        Inl e \<Rightarrow> (Inl (ErrWrap ''failed to get user'' e), st)
      | Inr user \<Rightarrow>
     (case GetUserTradesChronological f st (ID user) of
        Inl e \<Rightarrow> (Inl (ErrWrap ''failed to get trades'' e), st)
      | Inr trs \<Rightarrow>
     (if trs = [] then
        (Inr \<lparr>res_Username = username, TradesProcessed = 0, SnapshotsCreated = 0,
              TotalRealizedPnl = 0, OldestTradeDate = None, NewestTradeDate = None\<rparr>, st)
      else
     (case DeleteUserPnlSnapshots f st (ID user) of
        (Some e, st1) \<Rightarrow> (Inl (ErrWrap ''failed to delete existing snapshots'' e), st1)
      | (None, st1) \<Rightarrow>
          let s = backfill_pass trs;
              snapshots = backfill_snapshots (ID user) trs
          in
     (case BulkInsertPnlSnapshots f st1 snapshots of
        (Some e, st2) \<Rightarrow> (Inl (ErrWrap ''failed to insert snapshots'' e), st2)
      | (None, st2) \<Rightarrow>
          (Inr \<lparr>res_Username = username, TradesProcessed = length trs,
                SnapshotsCreated = length snapshots,
                TotalRealizedPnl = cumulativeRealizedPnl s,
                OldestTradeDate = oldestDate s, NewestTradeDate = newestDate s\<rparr>, st2))))))"


section \<open>The position cache and the trade store\<close>

definition DeleteUserPositions :: "faults \<Rightarrow> store \<Rightarrow> int \<Rightarrow> error option \<times> store" where
  "DeleteUserPositions f st userID =
     (if f (OpDeleteUserPositions userID)
      then (Some (ErrWrap ''failed to delete positions'' (ErrDb (OpDeleteUserPositions userID))), st)
      else (None, st\<lparr>tbl_positions := filter (\<lambda>p. pos_UserID p \<noteq> userID) (tbl_positions st)\<rparr>))"

text \<open>
  The conflict target of \<^verbatim>\<open>UpsertPosition\<close>: \<^verbatim>\<open>(user_id, address, condition_id, asset)\<close>.
  The statement fails on an unknown user id (foreign key).
\<close>

definition same_position :: "Position \<Rightarrow> Position \<Rightarrow> bool" where
  "same_position p q \<longleftrightarrow>
     pos_UserID p = pos_UserID q \<and> pos_Address p = pos_Address q \<and>
     pos_ConditionID p = pos_ConditionID q \<and> pos_Asset p = pos_Asset q"

definition UpsertPosition :: "faults \<Rightarrow> store \<Rightarrow> Position \<Rightarrow> error option \<times> store" where
  "UpsertPosition f st pos =
     (let op = OpUpsertPosition (pos_UserID pos) (pos_Address pos) (pos_ConditionID pos) (pos_Asset pos)
      in if f op then (Some (ErrWrap ''failed to upsert position'' (ErrDb op)), st)
         else if \<not> user_exists st (pos_UserID pos)
         then (Some (ErrWrap ''failed to upsert position'' ErrConstraint), st)
         else if \<exists>q \<in> set (tbl_positions st). same_position q pos
         then (None, st\<lparr>tbl_positions :=
                 map (\<lambda>q. if same_position q pos then pos else q) (tbl_positions st)\<rparr>)
         else (None, st\<lparr>tbl_positions := tbl_positions st @ [pos]\<rparr>))"

text \<open>
  \<^verbatim>\<open>InsertTrade\<close>: the \<^verbatim>\<open>NOT NULL\<close> columns of the trades table reject a row with a missing
  value and the foreign key rejects an unknown user id; a row whose natural key \<^verbatim>\<open>(user_id, condition_id, timestamp, side, size, price)\<close>
  is already stored is dropped without an error.
\<close>

definition same_trade :: "Trade \<Rightarrow> Trade \<Rightarrow> bool" where
  "same_trade t u \<longleftrightarrow>
     UserID t = UserID u \<and> ConditionID t = ConditionID u \<and> Timestamp t = Timestamp u \<and>
     Side t = Side u \<and> Size t = Size u \<and> Price t = Price u"

definition InsertTrade :: "faults \<Rightarrow> store \<Rightarrow> Trade \<Rightarrow> error option \<times> store" where
  "InsertTrade f st trade =
     (let op = OpInsertTrade (UserID trade) (Address trade)
      in if f op then (Some (ErrWrap ''failed to insert trade'' (ErrDb op)), st)
         else if ConditionID trade = None \<or> Side trade = None \<or> Price trade = None \<or>
                 Size trade = None \<or> Timestamp trade = None \<or> \<not> user_exists st (UserID trade)
         then (Some (ErrWrap ''failed to insert trade'' ErrConstraint), st)
         else if \<exists>u \<in> set (tbl_trades st). same_trade u trade then (None, st)
         else (None, st\<lparr>tbl_trades := tbl_trades st @ [trade]\<rparr>))"

definition UpdateUserLastSynced :: "faults \<Rightarrow> store \<Rightarrow> int \<Rightarrow> int \<Rightarrow> error option \<times> store" where
  "UpdateUserLastSynced f st userID lastSynced =
     (if f (OpUpdateUserLastSynced userID)
      then (Some (ErrWrap ''failed to update user last synced'' (ErrDb (OpUpdateUserLastSynced userID))), st)
      else (None, st\<lparr>tbl_users :=
              map (\<lambda>u. if ID u = userID then u\<lparr>LastSynced := Some lastSynced\<rparr> else u) (tbl_users st)\<rparr>))"

definition UpdateUserProfileImage :: "faults \<Rightarrow> store \<Rightarrow> int \<Rightarrow> string \<Rightarrow> error option \<times> store" where
  "UpdateUserProfileImage f st userID profileImage =
     (if f (OpUpdateUserProfileImage userID)
      then (Some (ErrWrap ''failed to update user profile image'' (ErrDb (OpUpdateUserProfileImage userID))), st)
      else (None, st\<lparr>tbl_users :=
              map (\<lambda>u. if ID u = userID then u\<lparr>ProfileImage := Some profileImage\<rparr> else u) (tbl_users st)\<rparr>))"

definition UpdateUserOfficialPnl :: "faults \<Rightarrow> store \<Rightarrow> int \<Rightarrow> real \<Rightarrow> real \<Rightarrow> error option \<times> store" where
  "UpdateUserOfficialPnl f st userID pnl volume =
     (if f (OpUpdateUserOfficialPnl userID)
      then (Some (ErrWrap ''failed to update user official pnl'' (ErrDb (OpUpdateUserOfficialPnl userID))), st)
      else (None, st\<lparr>tbl_users :=
              map (\<lambda>u. if ID u = userID then u\<lparr>OfficialPnl := Some pnl, OfficialVolume := Some volume\<rparr> else u)
                (tbl_users st)\<rparr>))"


section \<open>The sync orchestrator\<close>

text \<open>
  The upstream market client is an external service: each call either fails or returns a
  response, chosen by the environment. The responses carry the fields the sync routine stores
  (fields prefixed \<open>pr_\<close>, \<open>tr_\<close>, \<open>prof_\<close>, \<open>ps_\<close>); market titles, slugs and end dates are
  display data and left out.
\<close>

record PositionResponse =
  pr_Asset :: string
  pr_ConditionID :: string
  pr_Outcome :: string
  pr_Size :: "real option"
  pr_AvgPrice :: "real option"
  pr_CurrentPrice :: "real option"
  pr_InitialValue :: "real option"
  pr_CurrentValue :: "real option"
  pr_UnrealizedPnl :: "real option"
  pr_UnrealizedPnlPercent :: "real option"
  pr_RealizedPnl :: "real option"

record TradeResponse =
  tr_ID :: string
  tr_ConditionID :: string
  tr_Outcome :: string
  tr_Side :: string
  tr_Price :: "real option"
  tr_Size :: "real option"
  tr_Timestamp :: int

record ProfileResponse =
  prof_Name :: string
  prof_ProfileImage :: string

record PortfolioStats =
  ps_TotalPnl :: real
  ps_TotalVolume :: real

record env =
  GetUserProfile :: "string \<Rightarrow> error + ProfileResponse option"
  GetPortfolioStats :: "string \<Rightarrow> string \<Rightarrow> error + PortfolioStats option"
  GetPositions :: "string \<Rightarrow> error + PositionResponse list"
  GetTrades :: "string \<Rightarrow> nat \<Rightarrow> error + TradeResponse list"
  db_faults :: faults
  now :: "nat \<Rightarrow> int"

text \<open>
  The log lines of level Info, Warn and Error (Debug lines are left out): level, message, the
  string fields and the error attached with \<^verbatim>\<open>WithError\<close>.
\<close>

datatype level = Info | Warn | Error

datatype log_entry = Log level string "string list" "error option"

text \<open>
  The state a sync cycle works on: the database, the log written so far and the number of
  times the clock has been read (\<^verbatim>\<open>time.Now()\<close> returns \<open>now env n\<close> at the \<open>n\<close>-th read).
\<close>

record service_state =
  db :: store
  logs :: "log_entry list"
  clock_reads :: nat

definition emit :: "log_entry \<Rightarrow> service_state \<Rightarrow> service_state" where
  "emit e s = s\<lparr>logs := logs s @ [e]\<rparr>"

definition time_Now :: "env \<Rightarrow> service_state \<Rightarrow> int \<times> service_state" where
  "time_Now ev s = (now ev (clock_reads s), s\<lparr>clock_reads := Suc (clock_reads s)\<rparr>)"

text \<open>The body of the position loop of \<^verbatim>\<open>syncAddress\<close>: a failed upsert is logged and skipped.\<close>

definition store_position :: "env \<Rightarrow> int \<Rightarrow> string \<Rightarrow> service_state \<Rightarrow> PositionResponse \<Rightarrow> service_state" where
  "store_position ev userID address s pos =
     (let dbPos = \<lparr>pos_UserID = userID, pos_Address = address,
                    pos_ConditionID = pr_ConditionID pos, pos_Asset = pr_Asset pos,
                    pos_Outcome = (if pr_Outcome pos \<noteq> [] then Some (pr_Outcome pos) else None),
                    pos_Size = pr_Size pos, pos_AvgPrice = pr_AvgPrice pos,
                    pos_CurrentPrice = pr_CurrentPrice pos,
                    pos_InitialValue = pr_InitialValue pos,
                    pos_CurrentValue = pr_CurrentValue pos,
                    pos_UnrealizedPnl = pr_UnrealizedPnl pos,
                    pos_UnrealizedPnlPercent = pr_UnrealizedPnlPercent pos,
                    pos_RealizedPnl = pr_RealizedPnl pos\<rparr>
      in case UpsertPosition (db_faults ev) (db s) dbPos of
           (Some e, st) \<Rightarrow>
             emit (Log Error ''failed to upsert position'' [pr_ConditionID pos] (Some e)) (s\<lparr>db := st\<rparr>)
         | (None, st) \<Rightarrow> s\<lparr>db := st\<rparr>)"

text \<open>The body of the trade loop of \<^verbatim>\<open>syncAddress\<close>: an insert error is ignored (logged at Debug).\<close>

definition store_trade :: "env \<Rightarrow> int \<Rightarrow> string \<Rightarrow> service_state \<Rightarrow> TradeResponse \<Rightarrow> service_state" where
  "store_trade ev userID address s trade =
     (let dbTrade = \<lparr>UserID = userID, Address = address,
                      TradeID = (if tr_ID trade \<noteq> [] then Some (tr_ID trade) else None),
                      ConditionID = (if tr_ConditionID trade \<noteq> [] then Some (tr_ConditionID trade) else None),
                      Outcome = (if tr_Outcome trade \<noteq> [] then Some (tr_Outcome trade) else None),
                      Side = (if tr_Side trade \<noteq> [] then Some (tr_Side trade) else None),
                      Price = tr_Price trade, Size = tr_Size trade,
                      Value = (case (tr_Price trade, tr_Size trade) of
                                 (Some p, Some z) \<Rightarrow> Some (p * z) | _ \<Rightarrow> None),
                      Timestamp = (if tr_Timestamp trade > 0 then Some (tr_Timestamp trade) else None)\<rparr>
      in s\<lparr>db := snd (InsertTrade (db_faults ev) (db s) dbTrade)\<rparr>)"

text \<open>\<^verbatim>\<open>syncAddress\<close>: \<^verbatim>\<open>(positions, trades, err)\<close> and the state afterwards.\<close>

definition syncAddress :: "env \<Rightarrow> service_state \<Rightarrow> int \<Rightarrow> string \<Rightarrow> (nat \<times> nat \<times> error option) \<times> service_state" where
  "syncAddress ev s userID address =
     (case GetPositions ev address of
        Inl e \<Rightarrow> ((0, 0, Some (ErrWrap ''failed to fetch positions'' e)), s)
      | Inr poss \<Rightarrow>
          let s1 = foldl (store_position ev userID address) s poss
          in (case GetTrades ev address 100 of
                Inl e \<Rightarrow> ((length poss, 0, Some (ErrWrap ''failed to fetch trades'' e)), s1)
              | Inr trs \<Rightarrow>
                  ((length poss, length trs, None), foldl (store_trade ev userID address) s1 trs)))"

text \<open>
  \<^verbatim>\<open>takePnlSnapshot\<close>: look the username up by id among all users, compute the aggregate
  stats and append one snapshot stamped with the current time.
\<close>

definition takePnlSnapshot :: "env \<Rightarrow> service_state \<Rightarrow> int \<Rightarrow> error option \<times> service_state" where
  "takePnlSnapshot ev s userID =
     (case GetUsers (db_faults ev) (db s) of
        Inl e \<Rightarrow> (Some (ErrWrap ''failed to get users'' e), s)
      | Inr us \<Rightarrow>
          let username = (case find (\<lambda>u. ID u = userID) us of None \<Rightarrow> [] | Some u \<Rightarrow> Username u)
          in if username = [] then (Some (ErrUserIdNotFound userID), s)
             else
               (case GetUserStats (db_faults ev) (db s) username of
                  Inl e \<Rightarrow> (Some (ErrWrap ''failed to get user stats'' e), s)
                | Inr stats \<Rightarrow>
                    (case time_Now ev s of
                       (t, s1) \<Rightarrow>
                         let snapshot = \<lparr>snap_UserID = userID, snap_Timestamp = t,
                                           snap_TotalPnl = Some (stats_TotalPnl stats),
                                           snap_RealizedPnl = Some (stats_RealizedPnl stats),
                                           snap_UnrealizedPnl = Some (stats_UnrealizedPnl stats)\<rparr>
                         in (case InsertPnlSnapshot (db_faults ev) (db s1) snapshot of
                               (Some e, st) \<Rightarrow> (Some (ErrWrap ''failed to insert pnl snapshot'' e), s1\<lparr>db := st\<rparr>)
                             | (None, st) \<Rightarrow> (None, s1\<lparr>db := st\<rparr>)))))"

text \<open>The profile step of \<^verbatim>\<open>syncUser\<close>: the Polymarket username (empty when unknown).\<close>

definition sync_profile :: "env \<Rightarrow> service_state \<Rightarrow> User \<Rightarrow> string \<Rightarrow> string list \<Rightarrow> string \<times> service_state" where
  "sync_profile ev s user username addrs =
     (case addrs of
        [] \<Rightarrow> ([], s)
      | a0 # _ \<Rightarrow>
          (case GetUserProfile ev a0 of
             Inl e \<Rightarrow> ([], emit (Log Warn ''failed to fetch user profile'' [username] (Some e)) s)
           | Inr None \<Rightarrow> ([], s)
           | Inr (Some profile) \<Rightarrow>
               (prof_Name profile,
                if prof_ProfileImage profile \<noteq> [] then
                  (case UpdateUserProfileImage (db_faults ev) (db s) (ID user) (prof_ProfileImage profile) of
                     (Some e, st) \<Rightarrow>
                       emit (Log Warn ''failed to update user profile image'' [username] (Some e)) (s\<lparr>db := st\<rparr>)
                   | (None, st) \<Rightarrow> s\<lparr>db := st\<rparr>)
                else s)))"

text \<open>The official-PnL step of \<^verbatim>\<open>syncUser\<close>.\<close>

definition sync_official_pnl :: "env \<Rightarrow> service_state \<Rightarrow> User \<Rightarrow> string \<Rightarrow> string \<Rightarrow> string list \<Rightarrow> service_state" where
  "sync_official_pnl ev s user username polymarketUsername addrs =
     (case addrs of
        [] \<Rightarrow> s
      | a0 # _ \<Rightarrow>
          if polymarketUsername = [] then s
          else
            (case GetPortfolioStats ev polymarketUsername a0 of
               Inl e \<Rightarrow> emit (Log Warn ''failed to fetch portfolio stats'' [username, polymarketUsername] (Some e)) s
             | Inr None \<Rightarrow> s
             | Inr (Some portfolioStats) \<Rightarrow>
                 (case UpdateUserOfficialPnl (db_faults ev) (db s) (ID user)
                         (ps_TotalPnl portfolioStats) (ps_TotalVolume portfolioStats) of
                    (Some e, st) \<Rightarrow> emit (Log Warn ''failed to update official pnl'' [username] (Some e)) (s\<lparr>db := st\<rparr>)
                  | (None, st) \<Rightarrow>
                      emit (Log Info ''updated official PnL from Polymarket'' [username, polymarketUsername] None)
                        (s\<lparr>db := st\<rparr>))))"

text \<open>The address loop of \<^verbatim>\<open>syncUser\<close>: a failed address is logged and skipped.\<close>

definition sync_address_step ::
  "env \<Rightarrow> int \<Rightarrow> string \<Rightarrow> (nat \<times> nat) \<times> service_state \<Rightarrow> string \<Rightarrow> (nat \<times> nat) \<times> service_state" where
  "sync_address_step ev userID username acc address =
     (case acc of ((totalPositions, totalTrades), s) \<Rightarrow>
        (case syncAddress ev s userID address of
           ((_, _, Some e), s') \<Rightarrow>
             ((totalPositions, totalTrades),
              emit (Log Error ''failed to sync address'' [username, address] (Some e)) s')
         | ((np, nt, None), s') \<Rightarrow> ((totalPositions + np, totalTrades + nt), s')))"

text \<open>\<^verbatim>\<open>syncUser\<close>: the error it returns, if any, and the state afterwards.\<close>

definition syncUser :: "env \<Rightarrow> service_state \<Rightarrow> string \<Rightarrow> string list \<Rightarrow> error option \<times> service_state" where
  "syncUser ev s username addrs =
     (let s0 = emit (Log Info ''syncing user'' [username] None) s
      in case GetUser (db_faults ev) (db s0) username of
           Inl e \<Rightarrow> (Some (ErrWrap ''failed to get user'' e), s0)
         | Inr user \<Rightarrow>
     (case sync_profile ev s0 user username addrs of
        (polymarketUsername, s1) \<Rightarrow>
     (let s2 = sync_official_pnl ev s1 user username polymarketUsername addrs
      in case DeleteUserPositions (db_faults ev) (db s2) (ID user) of
           (Some e, st) \<Rightarrow> (Some (ErrWrap ''failed to delete existing positions'' e), s2\<lparr>db := st\<rparr>)
         | (None, st) \<Rightarrow>
     (case foldl (sync_address_step ev (ID user) username) ((0, 0), s2\<lparr>db := st\<rparr>) addrs of
        (_, s4) \<Rightarrow>
     (let s5 = (case takePnlSnapshot ev s4 (ID user) of
                  (Some e, s') \<Rightarrow> emit (Log Error ''failed to take pnl snapshot'' [username] (Some e)) s'
                | (None, s') \<Rightarrow> s')
      in case time_Now ev s5 of
           (t, s6) \<Rightarrow>
     (case UpdateUserLastSynced (db_faults ev) (db s6) (ID user) t of
        (Some e, st') \<Rightarrow> (Some (ErrWrap ''failed to update last synced'' e), s6\<lparr>db := st'\<rparr>)
      | (None, st') \<Rightarrow>
          (None, emit (Log Info ''user sync completed'' [username] None) (s6\<lparr>db := st'\<rparr>))))))))"

text \<open>
  The body of the loop of \<^verbatim>\<open>syncAll\<close>: an account whose sync returns an error is logged
  and the loop continues.
\<close>

definition sync_user_step :: "env \<Rightarrow> service_state \<Rightarrow> string \<times> string list \<Rightarrow> service_state" where
  "sync_user_step ev s ua =
     (case syncUser ev s (fst ua) (snd ua) of
        (Some e, s') \<Rightarrow> emit (Log Error ''failed to sync user'' [fst ua] (Some e)) s'
      | (None, s') \<Rightarrow> s')"

text \<open>
  \<^verbatim>\<open>syncAll\<close> over the configured accounts (username and addresses), in the order in which
  the Go map happens to be ranged over.
\<close>

definition syncAll :: "env \<Rightarrow> service_state \<Rightarrow> (string \<times> string list) list \<Rightarrow> error option \<times> service_state" where
  "syncAll ev s accounts =
     (let s0 = emit (Log Info ''syncing all users'' [] None) s;
          s1 = foldl (sync_user_step ev) s0 accounts
      in (None, emit (Log Info ''sync completed for all users'' [] None) s1))"

definition TriggerSync :: "env \<Rightarrow> service_state \<Rightarrow> (string \<times> string list) list \<Rightarrow> error option \<times> service_state" where
  "TriggerSync ev s accounts = syncAll ev (emit (Log Info ''manual sync triggered'' [] None) s) accounts"


section \<open>Example data\<close>

text \<open>A stored trade of account 1 on the market \<open>c\<close>, outcome \<open>Yes\<close>.\<close>

definition mk_trade :: "string \<Rightarrow> real \<Rightarrow> real \<Rightarrow> int \<Rightarrow> Trade" where
  "mk_trade side price sz ts =
     \<lparr>UserID = 1, Address = ''0xa'', TradeID = None, ConditionID = Some ''c'',
      Outcome = Some ''Yes'', Side = Some side, Price = Some price, Size = Some sz,
      Value = Some (price * sz), Timestamp = Some ts\<rparr>"

definition example_trades :: "Trade list" where
  "example_trades =
     [mk_trade ''BUY'' (4/10) 10 1000, mk_trade ''BUY'' (6/10) 5 2000,
      mk_trade ''SELL'' (7/10) 12 3000]"

text \<open>Two accounts: alice carries an official lifetime PnL and has no trades, bob has the
  three example trades and no official figure.\<close>

definition alice :: User where
  "alice = \<lparr>ID = 1, Username = ''alice'', LastSynced = None, ProfileImage = None,
            OfficialPnl = Some 100, OfficialVolume = Some 5000\<rparr>"

definition bob :: User where
  "bob = \<lparr>ID = 2, Username = ''bob'', LastSynced = None, ProfileImage = None,
          OfficialPnl = None, OfficialVolume = None\<rparr>"

definition mk_position :: "int \<Rightarrow> string \<Rightarrow> real option \<Rightarrow> Position" where
  "mk_position uid cond u =
     \<lparr>pos_UserID = uid, pos_Address = ''0xa'', pos_ConditionID = cond, pos_Asset = ''asset'',
      pos_Outcome = Some ''Yes'', pos_Size = Some 10, pos_AvgPrice = Some (1/2),
      pos_CurrentPrice = Some (6/10), pos_InitialValue = Some 5, pos_CurrentValue = Some 6,
      pos_UnrealizedPnl = u, pos_UnrealizedPnlPercent = None, pos_RealizedPnl = None\<rparr>"

definition old_snapshot :: "int \<Rightarrow> PnlSnapshot" where
  "old_snapshot uid =
     \<lparr>snap_UserID = uid, snap_Timestamp = 500, snap_TotalPnl = Some 1,
      snap_RealizedPnl = Some 1, snap_UnrealizedPnl = Some 0\<rparr>"

definition no_faults :: faults where
  "no_faults = (\<lambda>_. False)"

definition example_store :: store where
  "example_store =
     \<lparr>tbl_users = [alice, bob], tbl_addresses = [(1, ''0xa''), (2, ''0xb'')],
      tbl_positions = [mk_position 1 ''c1'' (Some 7), mk_position 1 ''c2'' None,
                       mk_position 2 ''c1'' (Some 3)],
      tbl_trades = map (\<lambda>t. t\<lparr>UserID := 2\<rparr>) example_trades,
      tbl_pnl_snapshots = [old_snapshot 1, old_snapshot 2]\<rparr>"


section \<open>Quantities the statements refer to\<close>

text \<open>The sum of the unrealized PnL of the account's stored positions (a NULL counts as 0).\<close>

definition unrealized_total :: "store \<Rightarrow> int \<Rightarrow> real" where
  "unrealized_total st userID =
     (\<Sum>p\<leftarrow>filter (\<lambda>p. pos_UserID p = userID) (tbl_positions st).
        case pos_UnrealizedPnl p of None \<Rightarrow> 0 | Some v \<Rightarrow> v)"

text \<open>The realized PnL the live-stats ledger pass derives from the account's stored trades.\<close>

definition fifo_realized :: "store \<Rightarrow> int \<Rightarrow> real" where
  "fifo_realized st userID =
     fst (ledger_result (sort_key Timestamp (filter (\<lambda>t. UserID t = userID) (tbl_trades st))))"


text \<open>
  The \<^verbatim>\<open>NOT NULL\<close> columns of the trades table among the fields the ledger reads:
  condition id, side, price, size and timestamp (the outcome column is nullable). A
  database satisfies the constraint when every stored trade has them.
\<close>

definition trade_not_null :: "Trade \<Rightarrow> bool" where
  "trade_not_null t \<longleftrightarrow>
     ConditionID t \<noteq> None \<and> Side t \<noteq> None \<and> Price t \<noteq> None \<and> Size t \<noteq> None \<and>
     Timestamp t \<noteq> None"

definition trades_not_null :: "store \<Rightarrow> bool" where
  "trades_not_null st = list_all trade_not_null (tbl_trades st)"

text \<open>
  An incomplete record, a SELL without its outcome, and the database of the examples with
  this record stored between the trades of bob.
\<close>

definition no_outcome_sell :: Trade where
  "no_outcome_sell = (mk_trade ''SELL'' (9/10) 4 2500)\<lparr>Outcome := None\<rparr>"

definition mixed_trades :: "Trade list" where
  "mixed_trades =
     map (\<lambda>t. t\<lparr>UserID := 2\<rparr>)
       (take 2 example_trades @ no_outcome_sell # drop 2 example_trades)"

definition mixed_store :: store where
  "mixed_store = example_store\<lparr>tbl_trades := mixed_trades\<rparr>"


text \<open>
  The snapshot series in the words of the specification, for the SELLs the ledger processes:
  \<open>is_sell\<close> holds of a trade record that has all six required fields and whose side is
  \<^verbatim>\<open>SELL\<close> (the ledger skips every other record); its day is the UTC day of its timestamp.
\<close>

definition is_sell :: "Trade \<Rightarrow> bool" where
  "is_sell t \<longleftrightarrow> backfill_complete t \<and> Side t = Some ''SELL''"

definition trade_day :: "Trade \<Rightarrow> int" where
  "trade_day t = truncate_day (the (Timestamp t))"

definition sell_on :: "int \<Rightarrow> Trade \<Rightarrow> bool" where
  "sell_on d t \<longleftrightarrow> is_sell t \<and> trade_day t = d"

definition sell_days :: "Trade list \<Rightarrow> int list" where
  "sell_days trs = map trade_day (filter is_sell trs)"

text \<open>The trades up to and including the last SELL of day \<open>d\<close> (none when the day has no SELL).\<close>

fun upto_last_sell :: "int \<Rightarrow> Trade list \<Rightarrow> Trade list" where
  "upto_last_sell d [] = []"
| "upto_last_sell d (t # ts) =
     (if list_ex (sell_on d) (t # ts) then t # upto_last_sell d ts else [])"

text \<open>The cumulative realized PnL of the backfill ledger as of the last SELL of day \<open>d\<close>.\<close>

definition realized_as_of_last_sell :: "int \<Rightarrow> Trade list \<Rightarrow> real" where
  "realized_as_of_last_sell d trs = cumulativeRealizedPnl (backfill_pass (upto_last_sell d trs))"

text \<open>
  One snapshot per day with at least one SELL, in order of time: total and realized PnL are
  the cumulative realized PnL as of the day's last SELL, unrealized PnL is 0.
\<close>

definition spec_snapshots :: "int \<Rightarrow> Trade list \<Rightarrow> PnlSnapshot list" where
  "spec_snapshots userID trs =
     map (\<lambda>d. \<lparr>snap_UserID = userID, snap_Timestamp = d,
                snap_TotalPnl = Some (realized_as_of_last_sell d trs),
                snap_RealizedPnl = Some (realized_as_of_last_sell d trs),
                snap_UnrealizedPnl = Some 0\<rparr>)
       (sort (remdups (sell_days trs)))"

text \<open>A third account with a history over four days: a BUY on day 0, two SELLs on day 1,
  a BUY alone on day 2 and a SELL on day 3.\<close>

definition carol :: User where
  "carol = \<lparr>ID = 3, Username = ''carol'', LastSynced = None, ProfileImage = None,
            OfficialPnl = None, OfficialVolume = None\<rparr>"

definition history_trades :: "Trade list" where
  "history_trades = map (\<lambda>t. t\<lparr>UserID := 3\<rparr>)
     [mk_trade ''BUY'' (4/10) 10 1000, mk_trade ''SELL'' (5/10) 4 90000,
      mk_trade ''SELL'' (3/10) 2 95000, mk_trade ''BUY'' (6/10) 5 180000,
      mk_trade ''SELL'' (7/10) 4 260000]"

definition history_store :: store where
  "history_store =
     \<lparr>tbl_users = [alice, carol], tbl_addresses = [(1, ''0xa''), (3, ''0xc'')],
      tbl_positions = [mk_position 3 ''c'' (Some 2)],
      tbl_trades = history_trades,
      tbl_pnl_snapshots = [old_snapshot 3, old_snapshot 1]\<rparr>"

definition day_snapshot :: "int \<Rightarrow> int \<Rightarrow> real \<Rightarrow> PnlSnapshot" where
  "day_snapshot uid day pnl =
     \<lparr>snap_UserID = uid, snap_Timestamp = day, snap_TotalPnl = Some pnl,
      snap_RealizedPnl = Some pnl, snap_UnrealizedPnl = Some 0\<rparr>"

text \<open>
  A SELL read off the record alone: the side is \<^verbatim>\<open>SELL\<close> and the timestamp is set, whether
  or not the other fields are; and the days of these records.
\<close>

definition sell_record :: "Trade \<Rightarrow> bool" where
  "sell_record t \<longleftrightarrow> Side t = Some ''SELL'' \<and> Timestamp t \<noteq> None"

definition sell_record_days :: "Trade list \<Rightarrow> int list" where
  "sell_record_days trs = map trade_day (filter sell_record trs)"

text \<open>
  A fourth account whose only trade is a SELL that upstream reported with an empty outcome:
  \<^verbatim>\<open>syncAddress\<close> stores it with a NULL outcome, the one required field whose column is
  nullable.
\<close>

definition dave :: User where
  "dave = \<lparr>ID = 4, Username = ''dave'', LastSynced = None, ProfileImage = None,
           OfficialPnl = None, OfficialVolume = None\<rparr>"

definition null_outcome_sell :: Trade where
  "null_outcome_sell =
     \<lparr>UserID = 4, Address = ''0xd'', TradeID = Some ''t1'', ConditionID = Some ''c'',
      Outcome = None, Side = Some ''SELL'', Price = Some (5/10), Size = Some 5,
      Value = Some (25/10), Timestamp = Some 90000\<rparr>"

definition dave_store :: store where
  "dave_store =
     \<lparr>tbl_users = [dave], tbl_addresses = [(4, ''0xd'')], tbl_positions = [],
      tbl_trades = [null_outcome_sell], tbl_pnl_snapshots = []\<rparr>"

text \<open>
  The error of \<^verbatim>\<open>BackfillUser\<close> that reports a failure of the bulk insert:
  \<^verbatim>\<open>fmt.Errorf("failed to insert snapshots: %w", err)\<close>.
\<close>

definition failed_in_insert :: "error \<Rightarrow> bool" where
  "failed_in_insert e = (case e of ErrWrap m _ \<Rightarrow> m = ''failed to insert snapshots'' | _ \<Rightarrow> False)"

text \<open>A run in which only the commit of the bulk insert fails.\<close>

definition commit_fails :: faults where
  "commit_fails = (\<lambda>op. op = OpCommit)"

text \<open>A run in which only the deletion of the snapshots of account 3 fails.\<close>

definition delete_fails :: faults where
  "delete_fails = (\<lambda>op. op = OpDeleteUserPnlSnapshots 3)"


text \<open>
  The log lines that mark the course of a sync cycle: \<^verbatim>\<open>syncUser\<close> writes "syncing user"
  when it is entered and "user sync completed" before it returns without an error;
  \<^verbatim>\<open>syncAll\<close> writes "failed to sync user" when \<^verbatim>\<open>syncUser\<close> has returned an error.
  Each carries the username as its first field.
\<close>

definition cycle_events :: "log_entry list \<Rightarrow> (string \<times> string) list" where
  "cycle_events lg =
     concat (map (\<lambda>e. case e of Log lv m fs er \<Rightarrow>
                          if m = ''syncing user'' \<or> m = ''failed to sync user'' \<or>
                             m = ''user sync completed''
                          then map (Pair m) (take 1 fs) else []) lg)"

text \<open>The accounts for which \<^verbatim>\<open>syncUser\<close> has been entered.\<close>

definition sync_attempts :: "log_entry list \<Rightarrow> string list" where
  "sync_attempts lg = map snd (filter (\<lambda>e. fst e = ''syncing user'') (cycle_events lg))"

text \<open>The accounts whose sync has ended, completed or failed.\<close>

definition sync_outcomes :: "log_entry list \<Rightarrow> string list" where
  "sync_outcomes lg = map snd (filter (\<lambda>e. fst e \<noteq> ''syncing user'') (cycle_events lg))"

text \<open>The accounts whose sync has ended with an error.\<close>

definition sync_failures :: "log_entry list \<Rightarrow> string list" where
  "sync_failures lg = map snd (filter (\<lambda>e. fst e = ''failed to sync user'') (cycle_events lg))"

text \<open>An environment in which the upstream market is unreachable and the database works.\<close>

definition offline_env :: env where
  "offline_env =
     \<lparr>GetUserProfile = (\<lambda>a. Inl (ErrUpstream ''profile'')),
      GetPortfolioStats = (\<lambda>u a. Inl (ErrUpstream ''portfolio'')),
      GetPositions = (\<lambda>a. Inl (ErrUpstream ''positions'')),
      GetTrades = (\<lambda>a n. Inl (ErrUpstream ''trades'')),
      db_faults = no_faults,
      now = (\<lambda>n. 5000 + int n)\<rparr>"

definition example_state :: service_state where
  "example_state = \<lparr>db = example_store, logs = [], clock_reads = 0\<rparr>"

definition example_accounts :: "(string \<times> string list) list" where
  "example_accounts = [(''ghost'', [''0xg'']), (''bob'', [''0xb''])]"

text \<open>Two databases that differ at most in the mutable columns of the user rows.\<close>

definition users_touched :: "store \<Rightarrow> store \<Rightarrow> bool" where
  "users_touched st st' \<longleftrightarrow>
     tbl_positions st' = tbl_positions st \<and> tbl_pnl_snapshots st' = tbl_pnl_snapshots st \<and>
     tbl_trades st' = tbl_trades st \<and> tbl_addresses st' = tbl_addresses st \<and>
     map (\<lambda>u. (ID u, Username u)) (tbl_users st') = map (\<lambda>u. (ID u, Username u)) (tbl_users st)"


text \<open>
  The row the position loop of \<^verbatim>\<open>syncAddress\<close> builds from a fetched position and hands
  to \<^verbatim>\<open>UpsertPosition\<close>.
\<close>

definition fetched_position :: "int \<Rightarrow> string \<Rightarrow> PositionResponse \<Rightarrow> Position" where
  "fetched_position userID address pos =
     \<lparr>pos_UserID = userID, pos_Address = address,
      pos_ConditionID = pr_ConditionID pos, pos_Asset = pr_Asset pos,
      pos_Outcome = (if pr_Outcome pos \<noteq> [] then Some (pr_Outcome pos) else None),
      pos_Size = pr_Size pos, pos_AvgPrice = pr_AvgPrice pos,
      pos_CurrentPrice = pr_CurrentPrice pos,
      pos_InitialValue = pr_InitialValue pos,
      pos_CurrentValue = pr_CurrentValue pos,
      pos_UnrealizedPnl = pr_UnrealizedPnl pos,
      pos_UnrealizedPnlPercent = pr_UnrealizedPnlPercent pos,
      pos_RealizedPnl = pr_RealizedPnl pos\<rparr>"

text \<open>
  An upstream that answers the position fetch with one position (and nothing else), and
  the same upstream with a database whose deletion of the positions of account 2 fails.
\<close>

definition fresh_position :: PositionResponse where
  "fresh_position =
     \<lparr>pr_Asset = ''a9'', pr_ConditionID = ''c9'', pr_Outcome = ''Yes'',
      pr_Size = Some 1, pr_AvgPrice = None, pr_CurrentPrice = None, pr_InitialValue = None,
      pr_CurrentValue = None, pr_UnrealizedPnl = Some 1, pr_UnrealizedPnlPercent = None,
      pr_RealizedPnl = None\<rparr>"

definition online_env :: env where
  "online_env = offline_env\<lparr>GetPositions := (\<lambda>a. Inr [fresh_position])\<rparr>"

definition delete_fails_env :: env where
  "delete_fails_env = online_env\<lparr>db_faults := (\<lambda>op. op = OpDeleteUserPositions 2)\<rparr>"


text \<open>The queue stored under a key, the nil slice for a missing key.\<close>

definition lots_at :: "(positionKey \<rightharpoonup> 'a list) \<Rightarrow> positionKey \<Rightarrow> 'a list" where
  "lots_at m k = (case m k of None \<Rightarrow> [] | Some ls \<Rightarrow> ls)"

text \<open>A lot of the backfill pass written as a lot of the live-stats pass.\<close>

definition as_fifoLot :: "lot \<Rightarrow> fifoLot" where
  "as_fifoLot l = \<lparr>Shares = lot_size l, PricePerShare = lot_price l\<rparr>"

text \<open>
  What one SELL of size \<open>S\<close> at price \<open>P\<close> accrues in \<^verbatim>\<open>calculateRealizedPnlFIFO\<close> at zero
  cost basis, given the queue it meets: the early return for an empty queue, or the
  remainder left when the loop has emptied the queue.
\<close>

definition zero_cost_accrual :: "lot list \<Rightarrow> real \<Rightarrow> real \<Rightarrow> real" where
  "zero_cost_accrual lots P S =
     (if lots = [] then P * S
      else case fifo_loop P lots S 0 of
             (_, remainingToSell, _) \<Rightarrow> if remainingToSell > 0 then P * remainingToSell else 0)"

text \<open>The backfill pass, with the zero-cost-basis accruals of its SELLs added up on the side.\<close>

definition untracked_step :: "backfill_state \<times> real \<Rightarrow> Trade \<Rightarrow> backfill_state \<times> real" where
  "untracked_step su t =
     (backfill_step (fst su) t,
      if is_sell t
      then snd su + zero_cost_accrual
                      (lots_at (costBasis (fst su)) (PositionKey (the (ConditionID t)) (the (Outcome t))))
                      (the (Price t)) (the (Size t))
      else snd su)"

definition untracked_total :: "Trade list \<Rightarrow> real" where
  "untracked_total trs = snd (foldl untracked_step (backfill_init, 0) trs)"

text \<open>The states of the two passes hold the same queues.\<close>

definition same_queues :: "backfill_state \<Rightarrow> live_state \<Rightarrow> bool" where
  "same_queues s s' \<longleftrightarrow> (\<forall>k. lots_at (inventory s') k = map as_fifoLot (lots_at (costBasis s) k))"

text \<open>A SELL with no BUY before it, and a SELL of 10 against a single lot of 4.\<close>

definition untracked_sell :: "Trade list" where
  "untracked_sell = [mk_trade ''SELL'' (5/10) 10 1000]"

definition oversold_trades :: "Trade list" where
  "oversold_trades = [mk_trade ''BUY'' (4/10) 4 1000, mk_trade ''SELL'' (5/10) 10 2000]"


section \<open>The worked example of the ledger\<close>

text \<open>
  Claim C3. On one position key, BUY 10 at 0.40, BUY 5 at 0.60, SELL 12 at 0.70: the live-stats
  pass realizes exactly 3.20, leaves one open lot of 3 shares at 0.60 (the partly consumed lot
  stays in the queue with its price), and counts 2 wins and 0 losses, one per consumed lot;
  \<^verbatim>\<open>CalculateRealizedPnlFromTrades\<close> returns \<^verbatim>\<open>(3.20, 2, 2)\<close>.
\<close>

theorem worked_example_ledger:
  "realizedPnl (live_pass example_trades) = 32/10 \<and>
   inventory (live_pass example_trades) (PositionKey ''c'' ''Yes'') =
     Some [\<lparr>Shares = 3, PricePerShare = 6/10\<rparr>] \<and>
   wins (live_pass example_trades) = 2 \<and> losses (live_pass example_trades) = 0 \<and>
   ledger_result example_trades = (32/10, 2, 2)"
  by (simp add: ledger_result_def live_pass_def example_trades_def mk_trade_def live_step_def
      live_complete_def live_init_def count_leg_def Let_def)


section \<open>Backfill of an account without trades\<close>

text \<open>
  Claim C9. When the account exists and has no stored trade (and the two queries succeed),
  \<^verbatim>\<open>BackfillUser\<close> returns the zero result without an error and the database is exactly as
  before: the snapshots are not deleted, so earlier snapshots of the account survive.
\<close>

theorem backfill_no_trades_frame:
  assumes "find (\<lambda>u. Username u = username) (tbl_users st) = Some user"
    and "filter (\<lambda>t. UserID t = ID user) (tbl_trades st) = []"
    and "\<not> f (OpGetUser username)"
    and "\<not> f (OpGetUserTradesChronological (ID user))"
  shows "BackfillUser f st username =
           (Inr \<lparr>res_Username = username, TradesProcessed = 0, SnapshotsCreated = 0,
                  TotalRealizedPnl = 0, OldestTradeDate = None, NewestTradeDate = None\<rparr>, st)"
  using assms
  by (simp add: BackfillUser_def GetUser_def GetUserTradesChronological_def)

theorem backfill_no_trades_frame_witness:
  "BackfillUser no_faults example_store ''alice'' =
     (Inr \<lparr>res_Username = ''alice'', TradesProcessed = 0, SnapshotsCreated = 0,
            TotalRealizedPnl = 0, OldestTradeDate = None, NewestTradeDate = None\<rparr>, example_store) \<and>
   tbl_pnl_snapshots (snd (BackfillUser no_faults example_store ''alice'')) =
     [old_snapshot 1, old_snapshot 2]"
  using backfill_no_trades_frame [of "''alice''" example_store alice no_faults]
  by (simp add: example_store_def alice_def bob_def no_faults_def example_trades_def mk_trade_def)

section \<open>Official PnL takes precedence in the aggregate stats\<close>

text \<open>
  Claim C4. For an account found in the users table, whenever \<^verbatim>\<open>GetUserStats\<close> returns
  stats, the unrealized PnL is the sum over the account's stored positions; with a non-null
  official lifetime PnL, \<open>totalPnl\<close> is that value and \<open>realizedPnl\<close> is \<open>totalPnl\<close> minus
  the unrealized sum, whatever the trades are; with a null official value, \<open>realizedPnl\<close> is
  the FIFO-derived value and \<open>totalPnl = realizedPnl + unrealizedPnl\<close>. When no statement
  fails, the query does return stats.
\<close>

theorem official_pnl_precedence:
  assumes "find (\<lambda>u. Username u = username) (tbl_users st) = Some user"
  shows "(\<forall>stats. GetUserStats f st username = Inr stats \<longrightarrow>
            stats_UnrealizedPnl stats = unrealized_total st (ID user) \<and>
            (case OfficialPnl user of
               Some official \<Rightarrow>
                 stats_TotalPnl stats = official \<and>
                 stats_RealizedPnl stats = stats_TotalPnl stats - unrealized_total st (ID user)
             | None \<Rightarrow>
                 stats_RealizedPnl stats = fifo_realized st (ID user) \<and>
                 stats_TotalPnl stats = stats_RealizedPnl stats + stats_UnrealizedPnl stats)) \<and>
         ((\<forall>op. \<not> f op) \<longrightarrow> (\<exists>stats. GetUserStats f st username = Inr stats))"
  using assms
  by (auto simp: GetUserStats_def GetUser_def GetUserAddresses_def position_stats_def
      CalculateRealizedPnlFromTrades_def GetUserTradesChronological_def unrealized_total_def
      fifo_realized_def Let_def
      split: sum.splits option.splits prod.splits if_splits)

theorem official_pnl_precedence_witness:
  "(\<exists>stats. GetUserStats no_faults example_store ''alice'' = Inr stats \<and>
      stats_TotalPnl stats = 100 \<and> stats_RealizedPnl stats = 93 \<and> stats_UnrealizedPnl stats = 7) \<and>
   (\<exists>stats. GetUserStats no_faults example_store ''bob'' = Inr stats \<and>
      stats_TotalPnl stats = 62/10 \<and> stats_RealizedPnl stats = 32/10 \<and> stats_UnrealizedPnl stats = 3)"
proof -
  have ua: "unrealized_total example_store (ID alice) = 7"
    by (simp add: unrealized_total_def example_store_def alice_def mk_position_def)
  have ub: "unrealized_total example_store (ID bob) = 3"
    by (simp add: unrealized_total_def example_store_def bob_def mk_position_def)
  have rb: "fifo_realized example_store (ID bob) = 32/10"
    by (simp add: fifo_realized_def example_store_def bob_def example_trades_def mk_trade_def
        ledger_result_def live_pass_def live_step_def live_complete_def live_init_def
        count_leg_def Let_def)
  have fa: "find (\<lambda>u. Username u = ''alice'') (tbl_users example_store) = Some alice"
    by (simp add: example_store_def alice_def)
  have fb: "find (\<lambda>u. Username u = ''bob'') (tbl_users example_store) = Some bob"
    by (simp add: example_store_def alice_def bob_def)
  note A = official_pnl_precedence [OF fa, of no_faults]
  note B = official_pnl_precedence [OF fb, of no_faults]
  from A obtain sa where sa: "GetUserStats no_faults example_store ''alice'' = Inr sa"
    by (auto simp: no_faults_def)
  from B obtain sb where sb: "GetUserStats no_faults example_store ''bob'' = Inr sb"
    by (auto simp: no_faults_def)
  from A sa ua have "stats_TotalPnl sa = 100 \<and> stats_RealizedPnl sa = 93 \<and> stats_UnrealizedPnl sa = 7"
    by (simp add: alice_def)
  moreover from B sb ub rb
  have "stats_TotalPnl sb = 62/10 \<and> stats_RealizedPnl sb = 32/10 \<and> stats_UnrealizedPnl sb = 3"
    by (simp add: bob_def)
  ultimately show ?thesis using sa sb by simp
qed

section \<open>The snapshot series of a backfill\<close>

lemma dailyPnl_step:
  "dailyPnl (backfill_step s t) =
     (if is_sell t
      then AList.update (trade_day t) (cumulativeRealizedPnl (backfill_step s t)) (dailyPnl s)
      else dailyPnl s)"
  by (auto simp: backfill_step_def is_sell_def trade_day_def Let_def backfill_complete_def
      split: prod.splits)

lemma upto_last_sell_none: "\<not> list_ex (sell_on d) ts \<Longrightarrow> upto_last_sell d ts = []"
  by (cases ts) simp_all

lemma dailyPnl_lookup:
  "map_of (dailyPnl (foldl backfill_step s trs)) d =
     (if list_ex (sell_on d) trs
      then Some (cumulativeRealizedPnl (foldl backfill_step s (upto_last_sell d trs)))
      else map_of (dailyPnl s) d)"
proof (induction trs arbitrary: s)
  case Nil
  show ?case by simp
next
  case (Cons t ts)
  show ?case
  proof (cases "list_ex (sell_on d) ts")
    case True
    then show ?thesis using Cons.IH [of "backfill_step s t"] by simp
  next
    case False
    note nots = this
    show ?thesis
    proof (cases "sell_on d t")
      case True
      then have "is_sell t" "trade_day t = d" by (simp_all add: sell_on_def)
      with True show ?thesis
        using Cons.IH [of "backfill_step s t"] nots
        by (simp add: upto_last_sell_none dailyPnl_step update_conv')
    next
      case False
      then have "\<not> is_sell t \<or> trade_day t \<noteq> d" by (simp add: sell_on_def)
      with False show ?thesis
        using Cons.IH [of "backfill_step s t"] nots
        by (auto simp: dailyPnl_step update_conv')
    qed
  qed
qed

lemma dailyPnl_distinct:
  "distinct (map fst (dailyPnl s)) \<Longrightarrow> distinct (map fst (dailyPnl (foldl backfill_step s trs)))"
  by (induction trs arbitrary: s) (simp_all add: dailyPnl_step distinct_update)

lemma dailyPnl_pass_distinct: "distinct (map fst (dailyPnl (backfill_pass trs)))"
  unfolding backfill_pass_def by (rule dailyPnl_distinct) (simp add: backfill_init_def)

lemma dailyPnl_pass_lookup:
  "map_of (dailyPnl (backfill_pass trs)) d =
     (if list_ex (sell_on d) trs then Some (realized_as_of_last_sell d trs) else None)"
  using dailyPnl_lookup [of backfill_init trs d]
  by (simp add: backfill_pass_def realized_as_of_last_sell_def backfill_init_def)

lemma list_ex_sell_on: "list_ex (sell_on d) trs \<longleftrightarrow> d \<in> set (sell_days trs)"
  by (auto simp: list_ex_iff sell_on_def sell_days_def)

lemma dailyPnl_pass_set:
  "(d, v) \<in> set (dailyPnl (backfill_pass trs)) \<longleftrightarrow>
     d \<in> set (sell_days trs) \<and> v = realized_as_of_last_sell d trs"
proof -
  have "(d, v) \<in> set (dailyPnl (backfill_pass trs)) \<longleftrightarrow>
          map_of (dailyPnl (backfill_pass trs)) d = Some v"
    using dailyPnl_pass_distinct [of trs] by simp
  then show ?thesis by (auto simp: dailyPnl_pass_lookup list_ex_sell_on)
qed

lemma backfill_snapshots_spec: "backfill_snapshots userID trs = spec_snapshots userID trs"
proof (rule map_sorted_distinct_set_unique [where f = snap_Timestamp])
  let ?al = "dailyPnl (backfill_pass trs)"
  have keys: "map snap_Timestamp (createSnapshots userID ?al) = map fst ?al"
    by (simp add: createSnapshots_def case_prod_beta comp_def)
  have spec_keys: "map snap_Timestamp (spec_snapshots userID trs) = sort (remdups (sell_days trs))"
    by (simp add: spec_snapshots_def comp_def)
  show d1: "distinct (map snap_Timestamp (backfill_snapshots userID trs))"
  proof -
    have "distinct (map snap_Timestamp (createSnapshots userID ?al))"
      using dailyPnl_pass_distinct [of trs] by (simp add: keys)
    then show ?thesis
      by (simp add: backfill_snapshots_def distinct_map)
  qed
  show "sorted (map snap_Timestamp (backfill_snapshots userID trs))"
    by (simp add: backfill_snapshots_def)
  show "sorted (map snap_Timestamp (spec_snapshots userID trs))"
    by (simp add: spec_keys)
  show d2: "distinct (map snap_Timestamp (spec_snapshots userID trs))"
    by (simp add: spec_keys)
  show sets: "set (backfill_snapshots userID trs) = set (spec_snapshots userID trs)"
    by (auto simp: backfill_snapshots_def createSnapshots_def spec_snapshots_def
        dailyPnl_pass_set image_iff)
  show "inj_on snap_Timestamp (set (backfill_snapshots userID trs) \<union> set (spec_snapshots userID trs))"
    using d2 by (simp add: sets distinct_map)
qed


lemma user_exists_iff: "user_exists st uid \<longleftrightarrow> uid \<in> set (map ID (tbl_users st))"
  by (auto simp: user_exists_def list_ex_iff)

lemma user_exists_snapshots [simp]:
  "user_exists (st\<lparr>tbl_pnl_snapshots := x\<rparr>) uid = user_exists st uid"
  by (simp add: user_exists_def)

lemma find_SomeD: "find P xs = Some x \<Longrightarrow> x \<in> set xs \<and> P x"
  by (induction xs) (auto split: if_splits)

lemma find_exists: "x \<in> set xs \<Longrightarrow> P x \<Longrightarrow> \<exists>y. find P xs = Some y"
  by (induction xs) auto

lemma find_user_exists:
  "find (\<lambda>u. Username u = n) (tbl_users st) = Some user \<Longrightarrow> user_exists st (ID user)"
  using find_SomeD [of "\<lambda>u. Username u = n" "tbl_users st" user]
  by (auto simp: user_exists_def list_ex_iff)

lemma bulk_exec_Inr:
  "bulk_exec f i snaps tx = Inr tx' \<Longrightarrow>
     tx' = tx\<lparr>tbl_pnl_snapshots := tbl_pnl_snapshots tx @ snaps\<rparr>"
proof (induction snaps arbitrary: i tx)
  case Nil
  then show ?case by simp
next
  case (Cons a snaps)
  from Cons.prems have "\<not> f (OpExecInsert i)" "user_exists tx (snap_UserID a)"
    by (auto split: if_splits)
  with Cons.prems
  have "bulk_exec f (Suc i) snaps (tx\<lparr>tbl_pnl_snapshots := tbl_pnl_snapshots tx @ [a]\<rparr>) = Inr tx'"
    by simp
  from Cons.IH [OF this] show ?case by simp
qed

lemma bulk_exec_no_faults:
  "\<forall>op. \<not> f op \<Longrightarrow> list_all (\<lambda>sn. user_exists tx (snap_UserID sn)) snaps \<Longrightarrow>
     bulk_exec f i snaps tx = Inr (tx\<lparr>tbl_pnl_snapshots := tbl_pnl_snapshots tx @ snaps\<rparr>)"
  by (induction snaps arbitrary: i tx) auto

lemma BulkInsert_ok:
  "BulkInsertPnlSnapshots f st snaps = (None, st') \<Longrightarrow>
     st' = st\<lparr>tbl_pnl_snapshots := tbl_pnl_snapshots st @ snaps\<rparr>"
  by (auto simp: BulkInsertPnlSnapshots_def dest: bulk_exec_Inr split: if_splits sum.splits)

lemma BulkInsert_failed:
  "BulkInsertPnlSnapshots f st snaps = (Some e, st') \<Longrightarrow> st' = st"
  by (auto simp: BulkInsertPnlSnapshots_def split: if_splits sum.splits)

lemma BulkInsert_no_faults:
  "\<forall>op. \<not> f op \<Longrightarrow> list_all (\<lambda>sn. user_exists st (snap_UserID sn)) snaps \<Longrightarrow>
     BulkInsertPnlSnapshots f st snaps = (None, st\<lparr>tbl_pnl_snapshots := tbl_pnl_snapshots st @ snaps\<rparr>)"
  by (simp add: BulkInsertPnlSnapshots_def bulk_exec_no_faults)

lemma backfill_snapshots_user:
  "list_all (\<lambda>sn. snap_UserID sn = userID) (backfill_snapshots userID trs)"
  by (auto simp: backfill_snapshots_def createSnapshots_def list_all_iff)

lemma spec_snapshot_days:
  "map snap_Timestamp (spec_snapshots userID trs) = sort (remdups (sell_days trs))"
  by (simp add: spec_snapshots_def comp_def)

text \<open>
  Claim C5, as the code has it. For an account with a non-empty trade history \<open>trs\<close> (as
  read in chronological order), every successful \<^verbatim>\<open>BackfillUser\<close> leaves as the account's
  snapshots exactly the series \<open>spec_snapshots\<close>: one snapshot for each UTC day on which a
  SELL that the ledger processes occurred (a record with all six required fields and side
  SELL) and none for any other day, so none for a day with only BUY trades and none for a
  day whose SELL records all miss a field; each snapshot has total and realized PnL equal
  to the cumulative realized PnL as of the last such SELL of its day and unrealized PnL 0;
  the result counts these snapshots. When no statement fails, the backfill does succeed.
\<close>

theorem backfill_one_snapshot_per_sell_day:
  assumes user: "find (\<lambda>u. Username u = username) (tbl_users st) = Some user"
    and trs: "trs = sort_key Timestamp (filter (\<lambda>t. UserID t = ID user) (tbl_trades st))"
    and ne: "trs \<noteq> []"
  shows "(\<forall>res st'. BackfillUser f st username = (Inr res, st') \<longrightarrow>
            tbl_pnl_snapshots st' =
              filter (\<lambda>s. snap_UserID s \<noteq> ID user) (tbl_pnl_snapshots st) @
              spec_snapshots (ID user) trs \<and>
            SnapshotsCreated res = length (spec_snapshots (ID user) trs) \<and>
            TotalRealizedPnl res = cumulativeRealizedPnl (backfill_pass trs)) \<and>
         ((\<forall>op. \<not> f op) \<longrightarrow> (\<exists>res st'. BackfillUser f st username = (Inr res, st'))) \<and>
         distinct (map snap_Timestamp (spec_snapshots (ID user) trs)) \<and>
         set (map snap_Timestamp (spec_snapshots (ID user) trs)) = set (sell_days trs)"
proof (intro conjI allI impI)
  fix res st'
  assume run: "BackfillUser f st username = (Inr res, st')"
  from run user trs ne
  show "tbl_pnl_snapshots st' =
          filter (\<lambda>s. snap_UserID s \<noteq> ID user) (tbl_pnl_snapshots st) @
          spec_snapshots (ID user) trs"
    by (auto simp: BackfillUser_def GetUser_def GetUserTradesChronological_def
        DeleteUserPnlSnapshots_def backfill_snapshots_spec Let_def
        dest!: BulkInsert_ok split: if_splits option.splits prod.splits)
  from run user trs ne
  show "SnapshotsCreated res = length (spec_snapshots (ID user) trs)"
    by (auto simp: BackfillUser_def GetUser_def GetUserTradesChronological_def
        DeleteUserPnlSnapshots_def backfill_snapshots_spec Let_def
        split: if_splits option.splits prod.splits)
  from run user trs ne
  show "TotalRealizedPnl res = cumulativeRealizedPnl (backfill_pass trs)"
    by (auto simp: BackfillUser_def GetUser_def GetUserTradesChronological_def
        DeleteUserPnlSnapshots_def Let_def
        split: if_splits option.splits prod.splits)
next
  assume nf: "\<forall>op. \<not> f op"
  let ?st1 = "st\<lparr>tbl_pnl_snapshots := filter (\<lambda>s. snap_UserID s \<noteq> ID user) (tbl_pnl_snapshots st)\<rparr>"
  have "list_all (\<lambda>sn. user_exists ?st1 (snap_UserID sn)) (backfill_snapshots (ID user) trs)"
    using backfill_snapshots_user [of "ID user" trs] find_user_exists [OF user]
    by (auto simp: list_all_iff)
  note b = BulkInsert_no_faults [OF nf this]
  have g: "GetUser f st username = Inr user"
    using user nf by (simp add: GetUser_def)
  have t: "GetUserTradesChronological f st (ID user) = Inr trs"
    using trs nf by (simp add: GetUserTradesChronological_def)
  have d: "DeleteUserPnlSnapshots f st (ID user) = (None, ?st1)"
    using nf by (simp add: DeleteUserPnlSnapshots_def)
  show "\<exists>res st'. BackfillUser f st username = (Inr res, st')"
    by (simp add: BackfillUser_def g t ne d b Let_def)
next
  show "distinct (map snap_Timestamp (spec_snapshots (ID user) trs))"
    by (simp add: spec_snapshot_days)
  show "set (map snap_Timestamp (spec_snapshots (ID user) trs)) = set (sell_days trs)"
    by (simp add: spec_snapshot_days)
qed

lemma history_spec_snapshots:
  "spec_snapshots 3 history_trades = [day_snapshot 3 86400 (2/10), day_snapshot 3 259200 (14/10)]"
  by (simp add: spec_snapshots_def sell_days_def is_sell_def trade_day_def truncate_day_def
      history_trades_def mk_trade_def backfill_complete_def day_snapshot_def
      realized_as_of_last_sell_def sell_on_def backfill_pass_def backfill_step_def
      backfill_init_def calculateRealizedPnlFIFO_def Let_def)

theorem backfill_one_snapshot_per_sell_day_witness:
  "\<exists>res st'. BackfillUser no_faults history_store ''carol'' = (Inr res, st') \<and>
      tbl_pnl_snapshots st' =
        [old_snapshot 1, day_snapshot 3 86400 (2/10), day_snapshot 3 259200 (14/10)] \<and>
      SnapshotsCreated res = 2 \<and> TotalRealizedPnl res = 14/10"
proof -
  have u: "find (\<lambda>u. Username u = ''carol'') (tbl_users history_store) = Some carol"
    by (simp add: history_store_def alice_def carol_def)
  have t: "history_trades =
             sort_key Timestamp (filter (\<lambda>t. UserID t = ID carol) (tbl_trades history_store))"
    by (simp add: history_store_def history_trades_def carol_def mk_trade_def)
  have n: "history_trades \<noteq> []" by (simp add: history_trades_def)
  have c: "cumulativeRealizedPnl (backfill_pass history_trades) = 14/10"
    by (simp add: history_trades_def mk_trade_def backfill_complete_def
      backfill_pass_def backfill_step_def truncate_day_def
      backfill_init_def calculateRealizedPnlFIFO_def Let_def)
  note T = backfill_one_snapshot_per_sell_day [OF u t n, of no_faults]
  from T obtain res st' where r: "BackfillUser no_faults history_store ''carol'' = (Inr res, st')"
    by (auto simp: no_faults_def)
  with T have "tbl_pnl_snapshots st' =
        [old_snapshot 1, day_snapshot 3 86400 (2/10), day_snapshot 3 259200 (14/10)] \<and>
      SnapshotsCreated res = 2 \<and> TotalRealizedPnl res = 14/10"
    by (simp add: history_spec_snapshots c carol_def history_store_def old_snapshot_def)
  with r show ?thesis by blast
qed

text \<open>The trade of dave is one the trades table accepts.\<close>

lemma null_outcome_sell_stored:
  "InsertTrade no_faults (dave_store\<lparr>tbl_trades := []\<rparr>) null_outcome_sell = (None, dave_store)"
  by (simp add: InsertTrade_def no_faults_def dave_store_def null_outcome_sell_def dave_def
      user_exists_def)

lemma dave_backfill:
  "BackfillUser no_faults dave_store ''dave'' =
     (Inr \<lparr>res_Username = ''dave'', TradesProcessed = 1, SnapshotsCreated = 0,
            TotalRealizedPnl = 0, OldestTradeDate = None, NewestTradeDate = None\<rparr>, dave_store)"
  by (simp add: BackfillUser_def GetUser_def GetUserTradesChronological_def no_faults_def
      dave_store_def dave_def null_outcome_sell_def DeleteUserPnlSnapshots_def
      BulkInsertPnlSnapshots_def backfill_snapshots_def createSnapshots_def backfill_pass_def
      backfill_step_def backfill_complete_def backfill_init_def Let_def)

text \<open>
  Claim C5, as stated, fails: the history of dave is not empty and has a SELL on the day
  starting at 86400, yet the backfill succeeds with no snapshot at all, because the ledger
  skips the record (its outcome is missing).
\<close>

theorem sell_day_without_snapshot:
  "\<not> (\<forall>f st username user res st'.
         find (\<lambda>u. Username u = username) (tbl_users st) = Some user \<longrightarrow>
         sort_key Timestamp (filter (\<lambda>t. UserID t = ID user) (tbl_trades st)) \<noteq> [] \<longrightarrow>
         BackfillUser f st username = (Inr res, st') \<longrightarrow>
         set (map snap_Timestamp (filter (\<lambda>s. snap_UserID s = ID user) (tbl_pnl_snapshots st'))) =
           set (sell_record_days
                  (sort_key Timestamp (filter (\<lambda>t. UserID t = ID user) (tbl_trades st)))))"
proof
  assume h: "\<forall>f st username user res st'.
         find (\<lambda>u. Username u = username) (tbl_users st) = Some user \<longrightarrow>
         sort_key Timestamp (filter (\<lambda>t. UserID t = ID user) (tbl_trades st)) \<noteq> [] \<longrightarrow>
         BackfillUser f st username = (Inr res, st') \<longrightarrow>
         set (map snap_Timestamp (filter (\<lambda>s. snap_UserID s = ID user) (tbl_pnl_snapshots st'))) =
           set (sell_record_days
                  (sort_key Timestamp (filter (\<lambda>t. UserID t = ID user) (tbl_trades st))))"
  have u: "find (\<lambda>u. Username u = ''dave'') (tbl_users dave_store) = Some dave"
    by (simp add: dave_store_def dave_def)
  have t: "sort_key Timestamp (filter (\<lambda>t. UserID t = ID dave) (tbl_trades dave_store)) =
             [null_outcome_sell]"
    by (simp add: dave_store_def dave_def null_outcome_sell_def)
  from h [rule_format, OF u _ dave_backfill] t
  have "set (map snap_Timestamp (filter (\<lambda>s. snap_UserID s = ID dave) (tbl_pnl_snapshots dave_store))) =
          set (sell_record_days [null_outcome_sell])"
    by simp
  then show False
    by (simp add: dave_store_def sell_record_days_def sell_record_def null_outcome_sell_def
        trade_day_def truncate_day_def)
qed

section \<open>Failure during the replacement of the snapshot history\<close>

lemma history_backfill_snapshots:
  "backfill_snapshots 3 history_trades = [day_snapshot 3 86400 (2/10), day_snapshot 3 259200 (14/10)]"
  by (simp add: backfill_snapshots_spec history_spec_snapshots)

lemma history_commit_fails:
  "BackfillUser commit_fails history_store ''carol'' =
     (Inl (ErrWrap ''failed to insert snapshots'' (ErrWrap ''failed to commit transaction'' (ErrDb OpCommit))),
      history_store\<lparr>tbl_pnl_snapshots := [old_snapshot 1]\<rparr>)"
proof -
  have t: "sort_key Timestamp (filter (\<lambda>t. UserID t = 3) (tbl_trades history_store)) = history_trades"
    by (simp add: history_store_def history_trades_def mk_trade_def)
  have n: "history_trades \<noteq> []" by (simp add: history_trades_def)
  have u: "find (\<lambda>u. Username u = ''carol'') (tbl_users history_store) = Some carol"
    by (simp add: history_store_def alice_def carol_def)
  have d: "filter (\<lambda>s. snap_UserID s \<noteq> 3) (tbl_pnl_snapshots history_store) = [old_snapshot 1]"
    by (simp add: history_store_def old_snapshot_def)
  have ue: "user_exists history_store 3"
    by (simp add: user_exists_def history_store_def alice_def carol_def)
  show ?thesis
    by (simp add: BackfillUser_def GetUser_def GetUserTradesChronological_def u t n d
        DeleteUserPnlSnapshots_def BulkInsertPnlSnapshots_def commit_fails_def
        history_backfill_snapshots carol_def Let_def ue day_snapshot_def)
qed

text \<open>What a failed \<^verbatim>\<open>BackfillUser\<close> leaves behind, by the step that failed.\<close>

lemma backfill_failure_by_step:
  assumes run: "BackfillUser f st username = (Inl e, st')"
  shows "(failed_in_insert e \<longrightarrow>
            (\<exists>user trs e'. GetUser f st username = Inr user \<and>
               GetUserTradesChronological f st (ID user) = Inr trs \<and> trs \<noteq> [] \<and>
               \<not> f (OpDeleteUserPnlSnapshots (ID user)) \<and>
               fst (BulkInsertPnlSnapshots f
                      (st\<lparr>tbl_pnl_snapshots :=
                            filter (\<lambda>s. snap_UserID s \<noteq> ID user) (tbl_pnl_snapshots st)\<rparr>)
                      (backfill_snapshots (ID user) trs)) = Some e' \<and>
               e = ErrWrap ''failed to insert snapshots'' e' \<and>
               st' = st\<lparr>tbl_pnl_snapshots :=
                         filter (\<lambda>s. snap_UserID s \<noteq> ID user) (tbl_pnl_snapshots st)\<rparr>)) \<and>
         (\<not> failed_in_insert e \<longrightarrow> st' = st)"
proof (cases "GetUser f st username")
  case (Inl a)
  with run show ?thesis by (auto simp: BackfillUser_def failed_in_insert_def)
next
  case (Inr user)
  show ?thesis
  proof (cases "GetUserTradesChronological f st (ID user)")
    case (Inl a)
    with run Inr show ?thesis by (auto simp: BackfillUser_def failed_in_insert_def)
  next
    case trs: (Inr trs)
    show ?thesis
    proof (cases "trs = []")
      case True
      with run Inr trs show ?thesis by (simp add: BackfillUser_def)
    next
      case False
      show ?thesis
      proof (cases "f (OpDeleteUserPnlSnapshots (ID user))")
        case True
        with run Inr trs False show ?thesis
          by (auto simp: BackfillUser_def DeleteUserPnlSnapshots_def failed_in_insert_def)
      next
        case nodel: False
        let ?st1 = "st\<lparr>tbl_pnl_snapshots :=
                filter (\<lambda>s. snap_UserID s \<noteq> ID user) (tbl_pnl_snapshots st)\<rparr>"
        obtain r st2 where b: "BulkInsertPnlSnapshots f ?st1 (backfill_snapshots (ID user) trs) = (r, st2)"
          by (cases "BulkInsertPnlSnapshots f ?st1 (backfill_snapshots (ID user) trs)") auto
        with run Inr trs False nodel obtain e' where
          r: "r = Some e'" and st': "st' = st2" and e: "e = ErrWrap ''failed to insert snapshots'' e'"
          by (auto simp: BackfillUser_def DeleteUserPnlSnapshots_def Let_def split: option.splits)
        from b r have "st2 = ?st1" using BulkInsert_failed by blast
        with Inr trs False nodel b r st' e show ?thesis
          by (simp add: failed_in_insert_def)
      qed
    qed
  qed
qed

text \<open>
  Claim C6, as the code has it. The bulk insert is one transaction: when it fails, the
  database is as it was before the insert began. The deletion of the account's old snapshots
  is a separate statement, committed on its own before the insert. So a failed
  \<^verbatim>\<open>BackfillUser\<close> leaves the database either unchanged, or with all snapshots of the
  account deleted and none inserted; the snapshots of other accounts and all other tables
  are unchanged in both cases. Which of the two depends on the step that failed: a failure
  of the bulk insert (after a successful deletion) leaves the account without snapshots,
  every other failure (reading the account or its trades, or the deletion itself) leaves
  the database unchanged. In particular a failing deletion returns with the database
  unchanged, and a failing bulk insert returns with the deletion kept.
\<close>

theorem backfill_failure_states:
  "(BulkInsertPnlSnapshots f st snaps = (Some e, st1) \<longrightarrow> st1 = st) \<and>
   (BackfillUser f st username = (Inl e, st') \<longrightarrow>
      (st' = st \<or>
       (\<exists>user. GetUser f st username = Inr user \<and>
          st' = st\<lparr>tbl_pnl_snapshots :=
                   filter (\<lambda>s. snap_UserID s \<noteq> ID user) (tbl_pnl_snapshots st)\<rparr>)) \<and>
      (failed_in_insert e \<longrightarrow>
         (\<exists>user trs e'. GetUser f st username = Inr user \<and>
            GetUserTradesChronological f st (ID user) = Inr trs \<and> trs \<noteq> [] \<and>
            \<not> f (OpDeleteUserPnlSnapshots (ID user)) \<and>
            fst (BulkInsertPnlSnapshots f
                   (st\<lparr>tbl_pnl_snapshots :=
                         filter (\<lambda>s. snap_UserID s \<noteq> ID user) (tbl_pnl_snapshots st)\<rparr>)
                   (backfill_snapshots (ID user) trs)) = Some e' \<and>
            e = ErrWrap ''failed to insert snapshots'' e' \<and>
            st' = st\<lparr>tbl_pnl_snapshots :=
                      filter (\<lambda>s. snap_UserID s \<noteq> ID user) (tbl_pnl_snapshots st)\<rparr>)) \<and>
      (\<not> failed_in_insert e \<longrightarrow> st' = st)) \<and>
   (GetUser f st username = Inr u \<and> GetUserTradesChronological f st (ID u) = Inr ts \<and>
    ts \<noteq> [] \<and> f (OpDeleteUserPnlSnapshots (ID u)) \<longrightarrow>
      BackfillUser f st username =
        (Inl (ErrWrap ''failed to delete existing snapshots''
                (ErrWrap ''failed to delete pnl snapshots'' (ErrDb (OpDeleteUserPnlSnapshots (ID u))))),
         st)) \<and>
   (GetUser f st username = Inr u \<and> GetUserTradesChronological f st (ID u) = Inr ts \<and>
    ts \<noteq> [] \<and> \<not> f (OpDeleteUserPnlSnapshots (ID u)) \<and>
    fst (BulkInsertPnlSnapshots f
           (st\<lparr>tbl_pnl_snapshots := filter (\<lambda>s. snap_UserID s \<noteq> ID u) (tbl_pnl_snapshots st)\<rparr>)
           (backfill_snapshots (ID u) ts)) = Some e2 \<longrightarrow>
      BackfillUser f st username =
        (Inl (ErrWrap ''failed to insert snapshots'' e2),
         st\<lparr>tbl_pnl_snapshots := filter (\<lambda>s. snap_UserID s \<noteq> ID u) (tbl_pnl_snapshots st)\<rparr>))"
proof (intro conjI impI)
  assume "BulkInsertPnlSnapshots f st snaps = (Some e, st1)"
  then show "st1 = st" by (rule BulkInsert_failed)
next
  assume run: "BackfillUser f st username = (Inl e, st')"
  from backfill_failure_by_step [OF run]
  show "st' = st \<or>
       (\<exists>user. GetUser f st username = Inr user \<and>
          st' = st\<lparr>tbl_pnl_snapshots :=
                   filter (\<lambda>s. snap_UserID s \<noteq> ID user) (tbl_pnl_snapshots st)\<rparr>)"
    by (cases "failed_in_insert e") auto
next
  assume run: "BackfillUser f st username = (Inl e, st')" and fi: "failed_in_insert e"
  from backfill_failure_by_step [OF run] fi
  show "\<exists>user trs e'. GetUser f st username = Inr user \<and>
            GetUserTradesChronological f st (ID user) = Inr trs \<and> trs \<noteq> [] \<and>
            \<not> f (OpDeleteUserPnlSnapshots (ID user)) \<and>
            fst (BulkInsertPnlSnapshots f
                   (st\<lparr>tbl_pnl_snapshots :=
                         filter (\<lambda>s. snap_UserID s \<noteq> ID user) (tbl_pnl_snapshots st)\<rparr>)
                   (backfill_snapshots (ID user) trs)) = Some e' \<and>
            e = ErrWrap ''failed to insert snapshots'' e' \<and>
            st' = st\<lparr>tbl_pnl_snapshots :=
                      filter (\<lambda>s. snap_UserID s \<noteq> ID user) (tbl_pnl_snapshots st)\<rparr>"
    by blast
next
  assume run: "BackfillUser f st username = (Inl e, st')" and fi: "\<not> failed_in_insert e"
  from backfill_failure_by_step [OF run] fi show "st' = st" by blast
next
  assume "GetUser f st username = Inr u \<and> GetUserTradesChronological f st (ID u) = Inr ts \<and>
    ts \<noteq> [] \<and> f (OpDeleteUserPnlSnapshots (ID u))"
  then show "BackfillUser f st username =
        (Inl (ErrWrap ''failed to delete existing snapshots''
                (ErrWrap ''failed to delete pnl snapshots'' (ErrDb (OpDeleteUserPnlSnapshots (ID u))))),
         st)"
    by (simp add: BackfillUser_def DeleteUserPnlSnapshots_def)
next
  let ?st1 = "st\<lparr>tbl_pnl_snapshots := filter (\<lambda>s. snap_UserID s \<noteq> ID u) (tbl_pnl_snapshots st)\<rparr>"
  assume a: "GetUser f st username = Inr u \<and> GetUserTradesChronological f st (ID u) = Inr ts \<and>
    ts \<noteq> [] \<and> \<not> f (OpDeleteUserPnlSnapshots (ID u)) \<and>
    fst (BulkInsertPnlSnapshots f ?st1 (backfill_snapshots (ID u) ts)) = Some e2"
  obtain st2 where b: "BulkInsertPnlSnapshots f ?st1 (backfill_snapshots (ID u) ts) = (Some e2, st2)"
    using a by (cases "BulkInsertPnlSnapshots f ?st1 (backfill_snapshots (ID u) ts)") auto
  from BulkInsert_failed [OF b] have "st2 = ?st1" .
  with a b show "BackfillUser f st username = (Inl (ErrWrap ''failed to insert snapshots'' e2), ?st1)"
    by (simp add: BackfillUser_def DeleteUserPnlSnapshots_def Let_def)
qed

theorem backfill_failure_states_witness:
  "fst (BackfillUser commit_fails history_store ''carol'') =
     Inl (ErrWrap ''failed to insert snapshots'' (ErrWrap ''failed to commit transaction'' (ErrDb OpCommit))) \<and>
   GetUser commit_fails history_store ''carol'' = Inr carol \<and>
   snd (BackfillUser commit_fails history_store ''carol'') =
     history_store\<lparr>tbl_pnl_snapshots :=
        filter (\<lambda>s. snap_UserID s \<noteq> ID carol) (tbl_pnl_snapshots history_store)\<rparr> \<and>
   snd (BackfillUser commit_fails history_store ''carol'') \<noteq> history_store \<and>
   BackfillUser delete_fails history_store ''carol'' =
     (Inl (ErrWrap ''failed to delete existing snapshots''
             (ErrWrap ''failed to delete pnl snapshots'' (ErrDb (OpDeleteUserPnlSnapshots 3)))),
      history_store)"
proof -
  have g: "GetUser commit_fails history_store ''carol'' = Inr carol"
    by (simp add: GetUser_def commit_fails_def history_store_def alice_def carol_def)
  have ne: "history_store\<lparr>tbl_pnl_snapshots := [old_snapshot 1]\<rparr> \<noteq> history_store"
  proof
    assume "history_store\<lparr>tbl_pnl_snapshots := [old_snapshot 1]\<rparr> = history_store"
    then have "tbl_pnl_snapshots (history_store\<lparr>tbl_pnl_snapshots := [old_snapshot 1]\<rparr>) = tbl_pnl_snapshots history_store"
      by simp
    then show False by (simp add: history_store_def)
  qed
  have fi: "failed_in_insert
      (ErrWrap ''failed to insert snapshots'' (ErrWrap ''failed to commit transaction'' (ErrDb OpCommit)))"
    by (simp add: failed_in_insert_def)
  from backfill_failure_states [where f = commit_fails and st = history_store
      and username = "''carol''" and st' = "history_store\<lparr>tbl_pnl_snapshots := [old_snapshot 1]\<rparr>"
      and e = "ErrWrap ''failed to insert snapshots'' (ErrWrap ''failed to commit transaction'' (ErrDb OpCommit))"]
    history_commit_fails fi
  obtain user where "GetUser commit_fails history_store ''carol'' = Inr user"
    and "history_store\<lparr>tbl_pnl_snapshots := [old_snapshot 1]\<rparr> =
          history_store\<lparr>tbl_pnl_snapshots :=
             filter (\<lambda>s. snap_UserID s \<noteq> ID user) (tbl_pnl_snapshots history_store)\<rparr>"
    by blast
  with g have "history_store\<lparr>tbl_pnl_snapshots := [old_snapshot 1]\<rparr> =
          history_store\<lparr>tbl_pnl_snapshots :=
             filter (\<lambda>s. snap_UserID s \<noteq> ID carol) (tbl_pnl_snapshots history_store)\<rparr>"
    by simp
  with g ne have first: "fst (BackfillUser commit_fails history_store ''carol'') =
     Inl (ErrWrap ''failed to insert snapshots'' (ErrWrap ''failed to commit transaction'' (ErrDb OpCommit))) \<and>
   GetUser commit_fails history_store ''carol'' = Inr carol \<and>
   snd (BackfillUser commit_fails history_store ''carol'') =
     history_store\<lparr>tbl_pnl_snapshots :=
        filter (\<lambda>s. snap_UserID s \<noteq> ID carol) (tbl_pnl_snapshots history_store)\<rparr> \<and>
   snd (BackfillUser commit_fails history_store ''carol'') \<noteq> history_store"
    by (simp add: history_commit_fails)
  have g2: "GetUser delete_fails history_store ''carol'' = Inr carol"
    by (simp add: GetUser_def delete_fails_def history_store_def alice_def carol_def)
  have t2: "GetUserTradesChronological delete_fails history_store (ID carol) = Inr history_trades"
    by (simp add: GetUserTradesChronological_def delete_fails_def history_store_def
        history_trades_def carol_def mk_trade_def)
  have n2: "history_trades \<noteq> []" by (simp add: history_trades_def)
  have d2: "delete_fails (OpDeleteUserPnlSnapshots (ID carol))"
    by (simp add: delete_fails_def carol_def)
  from backfill_failure_states [where f = delete_fails and st = history_store
      and username = "''carol''" and u = carol and ts = history_trades] g2 t2 n2 d2
  have "BackfillUser delete_fails history_store ''carol'' =
     (Inl (ErrWrap ''failed to delete existing snapshots''
             (ErrWrap ''failed to delete pnl snapshots'' (ErrDb (OpDeleteUserPnlSnapshots (ID carol))))),
      history_store)"
    by blast
  moreover have "ID carol = 3" by (simp add: carol_def)
  ultimately have "BackfillUser delete_fails history_store ''carol'' =
     (Inl (ErrWrap ''failed to delete existing snapshots''
             (ErrWrap ''failed to delete pnl snapshots'' (ErrDb (OpDeleteUserPnlSnapshots 3)))),
      history_store)"
    by simp
  with first show ?thesis by blast
qed

text \<open>
  Claim C6, as stated, fails: when the commit of the bulk insert fails, the old snapshots of
  the account are gone, although the backfill reports an error.
\<close>

theorem backfill_replace_not_atomic:
  "\<not> (\<forall>f st username e st'.
         BackfillUser f st username = (Inl e, st') \<longrightarrow>
         tbl_pnl_snapshots st' = tbl_pnl_snapshots st)"
proof
  assume "\<forall>f st username e st'.
         BackfillUser f st username = (Inl e, st') \<longrightarrow>
         tbl_pnl_snapshots st' = tbl_pnl_snapshots st"
  from this [rule_format, OF history_commit_fails]
  show False by (simp add: history_store_def)
qed

section \<open>Failure isolation in the sync cycle\<close>

lemma events_append [simp]: "cycle_events (xs @ ys) = cycle_events xs @ cycle_events ys"
  by (simp add: cycle_events_def)

lemma events_Nil [simp]: "cycle_events [] = []"
  by (simp add: cycle_events_def)

lemma events_other [simp]:
  "m \<noteq> ''syncing user'' \<Longrightarrow> m \<noteq> ''failed to sync user'' \<Longrightarrow> m \<noteq> ''user sync completed'' \<Longrightarrow>
     cycle_events (Log lv m fs er # lg) = cycle_events lg"
  by (simp add: cycle_events_def)

lemma events_entered [simp]:
  "cycle_events (Log lv ''syncing user'' [u] er # lg) = (''syncing user'', u) # cycle_events lg"
  by (simp add: cycle_events_def)

lemma events_completed [simp]:
  "cycle_events (Log lv ''user sync completed'' [u] er # lg) =
     (''user sync completed'', u) # cycle_events lg"
  by (simp add: cycle_events_def)

lemma events_failed [simp]:
  "cycle_events (Log lv ''failed to sync user'' [u] er # lg) =
     (''failed to sync user'', u) # cycle_events lg"
  by (simp add: cycle_events_def)

lemma logs_emit [simp]: "logs (emit e s) = logs s @ [e]"
  by (simp add: emit_def)

lemma events_store_position [simp]:
  "cycle_events (logs (store_position ev uid a s pos)) = cycle_events (logs s)"
  by (simp add: store_position_def Let_def split: prod.splits option.splits)

lemma events_store_trade [simp]:
  "cycle_events (logs (store_trade ev uid a s tr)) = cycle_events (logs s)"
  by (simp add: store_trade_def Let_def)

lemma events_foldl_position [simp]:
  "cycle_events (logs (foldl (store_position ev uid a) s ps)) = cycle_events (logs s)"
  by (induction ps arbitrary: s) simp_all

lemma events_foldl_trade [simp]:
  "cycle_events (logs (foldl (store_trade ev uid a) s ts)) = cycle_events (logs s)"
  by (induction ts arbitrary: s) simp_all

lemma events_syncAddress [simp]:
  "cycle_events (logs (snd (syncAddress ev s uid a))) = cycle_events (logs s)"
  by (simp add: syncAddress_def Let_def split: sum.splits)

lemma events_address_step [simp]:
  "cycle_events (logs (snd (sync_address_step ev uid u acc a))) = cycle_events (logs (snd acc))"
proof -
  obtain tp tt s where acc: "acc = ((tp, tt), s)" by (cases acc) auto
  obtain np nt er s' where r: "syncAddress ev s uid a = ((np, nt, er), s')"
    by (cases "syncAddress ev s uid a") auto
  have "cycle_events (logs s') = cycle_events (logs s)"
    using events_syncAddress [of ev s uid a] r by simp
  then show ?thesis
    by (cases er) (simp_all add: sync_address_step_def acc r)
qed

lemma events_foldl_address [simp]:
  "cycle_events (logs (snd (foldl (sync_address_step ev uid u) acc as))) = cycle_events (logs (snd acc))"
  by (induction as arbitrary: acc) simp_all

lemma events_takePnlSnapshot [simp]:
  "cycle_events (logs (snd (takePnlSnapshot ev s uid))) = cycle_events (logs s)"
  by (simp add: takePnlSnapshot_def time_Now_def Let_def split: sum.splits prod.splits option.splits)

lemma events_sync_profile [simp]:
  "cycle_events (logs (snd (sync_profile ev s user u as))) = cycle_events (logs s)"
  by (simp add: sync_profile_def split: list.splits sum.splits option.splits prod.splits)

lemma events_sync_official [simp]:
  "cycle_events (logs (sync_official_pnl ev s user u pu as)) = cycle_events (logs s)"
  by (simp add: sync_official_pnl_def split: list.splits sum.splits option.splits prod.splits)

text \<open>\<^verbatim>\<open>syncUser\<close> logs its entry, and its completion exactly when it returns no error.\<close>

lemma events_syncUser:
  "cycle_events (logs (snd (syncUser ev s u as))) =
     cycle_events (logs s) @ (''syncing user'', u) #
       (if fst (syncUser ev s u as) = None then [(''user sync completed'', u)] else [])"
proof -
  let ?s0 = "emit (Log Info ''syncing user'' [u] None) s"
  have s0: "cycle_events (logs ?s0) = cycle_events (logs s) @ [(''syncing user'', u)]" by simp
  show ?thesis
  proof (cases "GetUser (db_faults ev) (db ?s0) u")
    case (Inl e)
    then show ?thesis using s0 by (simp add: syncUser_def Let_def)
  next
    case (Inr user)
    obtain pu s1 where p: "sync_profile ev ?s0 user u as = (pu, s1)"
      by (cases "sync_profile ev ?s0 user u as") auto
    have s1: "cycle_events (logs s1) = cycle_events (logs s) @ [(''syncing user'', u)]"
      using events_sync_profile [of ev ?s0 user u as] p s0 by simp
    let ?s2 = "sync_official_pnl ev s1 user u pu as"
    have s2: "cycle_events (logs ?s2) = cycle_events (logs s) @ [(''syncing user'', u)]"
      using s1 by simp
    obtain er st where d: "DeleteUserPositions (db_faults ev) (db ?s2) (ID user) = (er, st)"
      by (cases "DeleteUserPositions (db_faults ev) (db ?s2) (ID user)") auto
    show ?thesis
    proof (cases er)
      case (Some e)
      then show ?thesis using Inr p d s2 by (simp add: syncUser_def Let_def)
    next
      case None
      obtain tot s4 where f: "foldl (sync_address_step ev (ID user) u) ((0, 0), ?s2\<lparr>db := st\<rparr>) as = (tot, s4)"
        by (cases "foldl (sync_address_step ev (ID user) u) ((0, 0), ?s2\<lparr>db := st\<rparr>) as") auto
      have s4: "cycle_events (logs s4) = cycle_events (logs s) @ [(''syncing user'', u)]"
        using events_foldl_address [of ev "ID user" u "((0, 0), ?s2\<lparr>db := st\<rparr>)" as] f s2 by simp
      obtain er5 s5' where t: "takePnlSnapshot ev s4 (ID user) = (er5, s5')"
        by (cases "takePnlSnapshot ev s4 (ID user)") auto
      have s5': "cycle_events (logs s5') = cycle_events (logs s) @ [(''syncing user'', u)]"
        using events_takePnlSnapshot [of ev s4 "ID user"] t s4 by simp
      show ?thesis
        using Inr p d None f t s5'
        by (simp add: syncUser_def Let_def time_Now_def split: option.splits prod.splits)
    qed
  qed
qed

text \<open>One iteration of the loop of \<^verbatim>\<open>syncAll\<close> logs the entry and one outcome.\<close>

lemma events_user_step:
  "cycle_events (logs (sync_user_step ev s ua)) =
     cycle_events (logs s) @
       [(''syncing user'', fst ua),
        (if fst (syncUser ev s (fst ua) (snd ua)) = None then ''user sync completed''
         else ''failed to sync user'', fst ua)]"
  using events_syncUser [of ev s "fst ua" "snd ua"]
  by (cases "syncUser ev s (fst ua) (snd ua)") (auto simp: sync_user_step_def split: option.splits)

lemma attempts_user_step:
  "sync_attempts (logs (sync_user_step ev s ua)) = sync_attempts (logs s) @ [fst ua]"
  by (simp add: sync_attempts_def events_user_step)

lemma outcomes_user_step:
  "sync_outcomes (logs (sync_user_step ev s ua)) = sync_outcomes (logs s) @ [fst ua]"
  by (simp add: sync_outcomes_def events_user_step)

lemma attempts_foldl_user:
  "sync_attempts (logs (foldl (sync_user_step ev) s accounts)) = sync_attempts (logs s) @ map fst accounts"
  by (induction accounts arbitrary: s) (simp_all add: attempts_user_step)

lemma outcomes_foldl_user:
  "sync_outcomes (logs (foldl (sync_user_step ev) s accounts)) = sync_outcomes (logs s) @ map fst accounts"
  by (induction accounts arbitrary: s) (simp_all add: outcomes_user_step)

text \<open>
  Claim C8. \<^verbatim>\<open>syncAll\<close> never returns an error. In one cycle \<^verbatim>\<open>syncUser\<close> is entered
  exactly once for every configured account, in the order of the iteration, and each of
  these syncs runs to its end, where it is logged as completed or as failed: the failure of
  one account is logged and the loop goes on with the remaining accounts.
\<close>

theorem sync_all_attempts_every_account:
  "fst (syncAll ev s accounts) = None \<and>
   sync_attempts (logs (snd (syncAll ev s accounts))) = sync_attempts (logs s) @ map fst accounts \<and>
   sync_outcomes (logs (snd (syncAll ev s accounts))) = sync_outcomes (logs s) @ map fst accounts"
proof -
  let ?s0 = "emit (Log Info ''syncing all users'' [] None) s"
  let ?s1 = "foldl (sync_user_step ev) ?s0 accounts"
  let ?s2 = "emit (Log Info ''sync completed for all users'' [] None) ?s1"
  have r: "syncAll ev s accounts = (None, ?s2)"
    by (simp add: syncAll_def Let_def)
  have a0: "sync_attempts (logs ?s0) = sync_attempts (logs s)"
    and o0: "sync_outcomes (logs ?s0) = sync_outcomes (logs s)"
    by (simp_all add: sync_attempts_def sync_outcomes_def)
  have a2: "sync_attempts (logs ?s2) = sync_attempts (logs ?s1)"
    and o2: "sync_outcomes (logs ?s2) = sync_outcomes (logs ?s1)"
    by (simp_all add: sync_attempts_def sync_outcomes_def)
  show ?thesis
    unfolding r by (simp only: fst_conv snd_conv a2 o2 attempts_foldl_user outcomes_foldl_user a0 o0)
qed

lemma sync_bob_offline:
  "syncUser offline_env \<lparr>db = example_store, logs = lg, clock_reads = 0\<rparr> ''bob'' [''0xb''] =
   (None, \<lparr>db = example_store\<lparr>
              tbl_users := [alice, bob\<lparr>LastSynced := Some 5001\<rparr>],
              tbl_positions := [mk_position 1 ''c1'' (Some 7), mk_position 1 ''c2'' None],
              tbl_pnl_snapshots := [old_snapshot 1, old_snapshot 2,
                 \<lparr>snap_UserID = 2, snap_Timestamp = 5000, snap_TotalPnl = Some (32/10),
                  snap_RealizedPnl = Some (32/10), snap_UnrealizedPnl = Some 0\<rparr>]\<rparr>,
            logs = lg @ [Log Info ''syncing user'' [''bob''] None,
                    Log Warn ''failed to fetch user profile'' [''bob''] (Some (ErrUpstream ''profile'')),
                    Log Error ''failed to sync address'' [''bob'', ''0xb'']
                      (Some (ErrWrap ''failed to fetch positions'' (ErrUpstream ''positions''))),
                    Log Info ''user sync completed'' [''bob''] None],
            clock_reads = 2\<rparr>)"
  by (simp add: syncUser_def offline_env_def example_store_def alice_def bob_def no_faults_def
      emit_def GetUser_def sync_profile_def sync_official_pnl_def DeleteUserPositions_def
      mk_position_def sync_address_step_def syncAddress_def takePnlSnapshot_def GetUsers_def
      GetUserStats_def GetUserAddresses_def position_stats_def CalculateRealizedPnlFromTrades_def
      GetUserTradesChronological_def example_trades_def mk_trade_def ledger_result_def
      live_pass_def live_step_def live_complete_def live_init_def count_leg_def
      time_Now_def InsertPnlSnapshot_def UpdateUserLastSynced_def old_snapshot_def user_exists_def Let_def)

lemma sync_ghost_offline:
  "syncUser offline_env \<lparr>db = example_store, logs = lg, clock_reads = n\<rparr> ''ghost'' [''0xg''] =
     (Some (ErrWrap ''failed to get user'' (ErrUserNotFound ''ghost'')),
      \<lparr>db = example_store, logs = lg @ [Log Info ''syncing user'' [''ghost''] None], clock_reads = n\<rparr>)"
  by (simp add: syncUser_def offline_env_def example_store_def alice_def bob_def no_faults_def
      emit_def GetUser_def Let_def)

lemma sync_all_offline:
  "map LastSynced (tbl_users (db (snd (syncAll offline_env example_state example_accounts)))) =
     [None, Some 5001] \<and>
   sync_failures (logs (snd (syncAll offline_env example_state example_accounts))) = [''ghost'']"
  by (simp add: syncAll_def example_state_def example_accounts_def sync_user_step_def emit_def
      sync_ghost_offline sync_bob_offline sync_failures_def alice_def bob_def Let_def)

text \<open>
  With the upstream unreachable and ghost missing from the users table, the sync of ghost
  fails and is logged, and bob is still synced to the end.
\<close>

theorem sync_all_attempts_every_account_witness:
  "fst (syncAll offline_env example_state example_accounts) = None \<and>
   sync_attempts (logs (snd (syncAll offline_env example_state example_accounts))) = [''ghost'', ''bob''] \<and>
   sync_outcomes (logs (snd (syncAll offline_env example_state example_accounts))) = [''ghost'', ''bob''] \<and>
   sync_failures (logs (snd (syncAll offline_env example_state example_accounts))) = [''ghost''] \<and>
   map LastSynced (tbl_users (db (snd (syncAll offline_env example_state example_accounts)))) =
     [None, Some 5001]"
  using sync_all_attempts_every_account [of offline_env example_state example_accounts] sync_all_offline
  by (simp add: example_state_def example_accounts_def sync_attempts_def sync_outcomes_def)


section \<open>A sync with the upstream unreachable\<close>

lemma users_touched_refl [simp]: "users_touched st st"
  by (simp add: users_touched_def)

lemma users_touched_trans: "users_touched a b \<Longrightarrow> users_touched b c \<Longrightarrow> users_touched a c"
  by (simp add: users_touched_def)

lemma map_if_field:
  "(\<And>u. g (h u) = g u) \<Longrightarrow> map g (map (\<lambda>u. if P u then h u else u) us) = map g us"
  by (induction us) simp_all

lemma touched_profile_image: "users_touched st (snd (UpdateUserProfileImage f st uid img))"
  by (simp add: UpdateUserProfileImage_def users_touched_def map_if_field)

lemma touched_official_pnl: "users_touched st (snd (UpdateUserOfficialPnl f st uid p v))"
  by (simp add: UpdateUserOfficialPnl_def users_touched_def map_if_field)

lemma touched_last_synced: "users_touched st (snd (UpdateUserLastSynced f st uid t))"
  by (simp add: UpdateUserLastSynced_def users_touched_def map_if_field)

lemma db_emit [simp]: "db (emit e s) = db s"
  by (simp add: emit_def)

lemma clock_emit [simp]: "clock_reads (emit e s) = clock_reads s"
  by (simp add: emit_def)

lemma touched_sync_profile: "users_touched (db s) (db (snd (sync_profile ev s user u as)))"
proof (cases as)
  case Nil
  then show ?thesis by (simp add: sync_profile_def)
next
  case (Cons a0 rest)
  show ?thesis
  proof (cases "GetUserProfile ev a0")
    case (Inl e)
    with Cons show ?thesis by (simp add: sync_profile_def)
  next
    case (Inr po)
    show ?thesis
    proof (cases po)
      case None
      with Cons Inr show ?thesis by (simp add: sync_profile_def)
    next
      case (Some profile)
      obtain er st where r: "UpdateUserProfileImage (db_faults ev) (db s) (ID user) (prof_ProfileImage profile) = (er, st)"
        by fastforce
      have "users_touched (db s) st"
        using touched_profile_image [of "db s" "db_faults ev" "ID user" "prof_ProfileImage profile"] r
        by simp
      with Cons Inr Some r show ?thesis
        by (cases er) (simp_all add: sync_profile_def)
    qed
  qed
qed

lemma touched_sync_official: "users_touched (db s) (db (sync_official_pnl ev s user u pu as))"
proof (cases as)
  case Nil
  then show ?thesis by (simp add: sync_official_pnl_def)
next
  case (Cons a0 rest)
  show ?thesis
  proof (cases "pu = []")
    case True
    with Cons show ?thesis by (simp add: sync_official_pnl_def)
  next
    case False
    show ?thesis
    proof (cases "GetPortfolioStats ev pu a0")
      case (Inl e)
      with Cons False show ?thesis by (simp add: sync_official_pnl_def)
    next
      case (Inr po)
      show ?thesis
      proof (cases po)
        case None
        with Cons False Inr show ?thesis by (simp add: sync_official_pnl_def)
      next
        case (Some ps)
        obtain er st where r: "UpdateUserOfficialPnl (db_faults ev) (db s) (ID user) (ps_TotalPnl ps) (ps_TotalVolume ps) = (er, st)"
          by fastforce
        have "users_touched (db s) st"
          using touched_official_pnl [of "db s" "db_faults ev" "ID user" "ps_TotalPnl ps" "ps_TotalVolume ps"] r
          by simp
        with Cons False Inr Some r show ?thesis
          by (cases er) (simp_all add: sync_official_pnl_def)
      qed
    qed
  qed
qed

lemma address_step_all_fail:
  assumes "\<exists>e. GetPositions ev a = Inl e"
  shows "db (snd (sync_address_step ev uid u acc a)) = db (snd acc) \<and>
         clock_reads (snd (sync_address_step ev uid u acc a)) = clock_reads (snd acc)"
proof -
  obtain tp tt s where acc: "acc = ((tp, tt), s)" by (cases acc) auto
  from assms obtain e where "GetPositions ev a = Inl e" by blast
  then show ?thesis
    by (simp add: sync_address_step_def syncAddress_def acc)
qed

lemma address_loop_all_fail:
  assumes "\<forall>a \<in> set as. \<exists>e. GetPositions ev a = Inl e"
  shows "db (snd (foldl (sync_address_step ev uid u) acc as)) = db (snd acc) \<and>
         clock_reads (snd (foldl (sync_address_step ev uid u) acc as)) = clock_reads (snd acc)"
  using assms
proof (induction as arbitrary: acc)
  case Nil
  show ?case by simp
next
  case (Cons a as)
  from Cons.prems have a: "\<exists>e. GetPositions ev a = Inl e" and rest: "\<forall>a \<in> set as. \<exists>e. GetPositions ev a = Inl e"
    by simp_all
  from Cons.IH [OF rest, of "sync_address_step ev uid u acc a"] address_step_all_fail [OF a, of uid u acc]
  show ?case by simp
qed

lemma stats_shape:
  assumes "GetUserStats f st n = Inr stats"
  shows "\<exists>u. find (\<lambda>u. Username u = n) (tbl_users st) = Some u \<and>
             stats_UnrealizedPnl stats = unrealized_total st (ID u) \<and>
             stats_TotalPnl stats = stats_RealizedPnl stats + stats_UnrealizedPnl stats"
  using assms
  by (auto simp: GetUserStats_def GetUser_def GetUserAddresses_def position_stats_def
      CalculateRealizedPnlFromTrades_def unrealized_total_def Let_def
      split: sum.splits option.splits prod.splits if_splits)

lemma find_by_username_unique:
  assumes d: "distinct (map Username us)"
    and r: "r \<in> set us"
    and f: "find (\<lambda>u. Username u = Username r) us = Some u"
  shows "u = r"
proof -
  from find_SomeD [OF f] have "u \<in> set us" "Username u = Username r"
    by simp_all
  with d r show ?thesis by (auto simp: distinct_map inj_on_def)
qed

lemma snapshot_of_emptied_account:
  assumes d: "distinct (map Username (tbl_users (db s)))"
    and e: "filter (\<lambda>p. pos_UserID p = uid) (tbl_positions (db s)) = []"
  shows "(\<exists>er. takePnlSnapshot ev s uid = (Some er, s)) \<or>
         (\<exists>snap. takePnlSnapshot ev s uid =
                   (None, s\<lparr>db := (db s)\<lparr>tbl_pnl_snapshots := tbl_pnl_snapshots (db s) @ [snap]\<rparr>,
                             clock_reads := Suc (clock_reads s)\<rparr>) \<and>
                 snap_UserID snap = uid \<and> snap_UnrealizedPnl snap = Some 0 \<and>
                 snap_TotalPnl snap = snap_RealizedPnl snap) \<or>
         (\<exists>er. takePnlSnapshot ev s uid = (Some er, s\<lparr>clock_reads := Suc (clock_reads s)\<rparr>))"
proof (cases "GetUsers (db_faults ev) (db s)")
  case (Inl a)
  then show ?thesis by (simp add: takePnlSnapshot_def)
next
  case (Inr us)
  then have us: "us = sort_key Username (tbl_users (db s))"
    by (auto simp: GetUsers_def split: if_splits)
  show ?thesis
  proof (cases "find (\<lambda>u. ID u = uid) us")
    case None
    with Inr show ?thesis by (simp add: takePnlSnapshot_def)
  next
    case (Some r)
    from find_SomeD [OF Some] have r: "r \<in> set (tbl_users (db s))" "ID r = uid"
      using us by simp_all
    show ?thesis
    proof (cases "Username r = []")
      case True
      with Inr Some show ?thesis by (simp add: takePnlSnapshot_def)
    next
      case False
      show ?thesis
      proof (cases "GetUserStats (db_faults ev) (db s) (Username r)")
        case (Inl a)
        with Inr Some False show ?thesis by (simp add: takePnlSnapshot_def)
      next
        case stats: (Inr stats)
        from stats_shape [OF stats] obtain u where
          u: "find (\<lambda>u. Username u = Username r) (tbl_users (db s)) = Some u"
          and un: "stats_UnrealizedPnl stats = unrealized_total (db s) (ID u)"
          and tot: "stats_TotalPnl stats = stats_RealizedPnl stats + stats_UnrealizedPnl stats"
          by blast
        from find_by_username_unique [OF d r(1) u] r(2) have "ID u = uid" by simp
        with un e have z: "stats_UnrealizedPnl stats = 0"
          by (simp add: unrealized_total_def)
        with tot have t: "stats_TotalPnl stats = stats_RealizedPnl stats" by simp
        show ?thesis
        proof (cases "db_faults ev (OpInsertPnlSnapshot uid)")
          case True
          with Inr Some False stats show ?thesis
            by (simp add: takePnlSnapshot_def time_Now_def InsertPnlSnapshot_def Let_def)
        next
          case nofault: False
          let ?snap = "\<lparr>snap_UserID = uid, snap_Timestamp = now ev (clock_reads s),
                        snap_TotalPnl = Some (stats_RealizedPnl stats),
                        snap_RealizedPnl = Some (stats_RealizedPnl stats),
                        snap_UnrealizedPnl = Some 0\<rparr>"
          from r have ue: "user_exists (db s) uid"
            by (auto simp: user_exists_def list_ex_iff)
          from nofault ue Inr Some False stats z t
          have "takePnlSnapshot ev s uid =
                  (None, s\<lparr>db := (db s)\<lparr>tbl_pnl_snapshots := tbl_pnl_snapshots (db s) @ [?snap]\<rparr>,
                            clock_reads := Suc (clock_reads s)\<rparr>)"
            by (simp add: takePnlSnapshot_def time_Now_def InsertPnlSnapshot_def Let_def)
          then show ?thesis
            by (intro disjI2 disjI1 exI [of _ ?snap]) simp
        qed
      qed
    qed
  qed
qed


lemma touched_usernames:
  assumes "users_touched st st'"
  shows "map Username (tbl_users st') = map Username (tbl_users st)"
proof -
  from assms have "map snd (map (\<lambda>u. (ID u, Username u)) (tbl_users st')) =
                   map snd (map (\<lambda>u. (ID u, Username u)) (tbl_users st))"
    by (simp add: users_touched_def)
  then show ?thesis by (simp add: comp_def)
qed

lemma touched_ids:
  assumes "users_touched st st'"
  shows "map ID (tbl_users st') = map ID (tbl_users st)"
proof -
  from assms have "map fst (map (\<lambda>u. (ID u, Username u)) (tbl_users st')) =
                   map fst (map (\<lambda>u. (ID u, Username u)) (tbl_users st))"
    by (simp add: users_touched_def)
  then show ?thesis by (simp add: comp_def)
qed

lemma stats_no_faults:
  assumes "\<forall>op. \<not> f op" and "n \<in> set (map Username (tbl_users st))"
  shows "\<exists>stats. GetUserStats f st n = Inr stats"
proof -
  from assms(2) obtain u where "find (\<lambda>u. Username u = n) (tbl_users st) = Some u"
    using find_exists [of _ "tbl_users st" "\<lambda>u. Username u = n"] by auto
  with assms(1) show ?thesis
    by (auto simp: GetUserStats_def GetUser_def GetUserAddresses_def position_stats_def
        CalculateRealizedPnlFromTrades_def GetUserTradesChronological_def Let_def
        split: sum.splits option.splits prod.splits)
qed

lemma snapshot_no_faults:
  assumes nf: "\<forall>op. \<not> db_faults ev op"
    and row: "(uid, n) \<in> set (map (\<lambda>u. (ID u, Username u)) (tbl_users (db s)))"
    and d: "distinct (map ID (tbl_users (db s)))"
    and n: "n \<noteq> []"
  shows "fst (takePnlSnapshot ev s uid) = None"
proof -
  let ?us = "sort_key Username (tbl_users (db s))"
  from row obtain u0 where u0: "u0 \<in> set (tbl_users (db s))" "ID u0 = uid" "Username u0 = n"
    by auto
  then obtain r where r: "find (\<lambda>u. ID u = uid) ?us = Some r"
    using find_exists [of u0 ?us "\<lambda>u. ID u = uid"] by auto
  from find_SomeD [OF r] have rin: "r \<in> set (tbl_users (db s))" "ID r = uid" by simp_all
  from d u0 rin have "r = u0" by (auto simp: distinct_map inj_on_def)
  with u0 n have rn: "Username r = n" "Username r \<noteq> []" by simp_all
  from rin rn have "Username r \<in> set (map Username (tbl_users (db s)))" by auto
  from stats_no_faults [OF nf this] obtain stats where
    "GetUserStats (db_faults ev) (db s) (Username r) = Inr stats" by blast
  moreover from rin have "user_exists (db s) uid"
    by (auto simp: user_exists_def list_ex_iff)
  ultimately show ?thesis using nf r rn
    by (simp add: takePnlSnapshot_def GetUsers_def time_Now_def InsertPnlSnapshot_def Let_def)
qed

subsection \<open>What the address loop does to the position cache\<close>

lemma filter_map_replace:
  "(\<And>q. q \<in> set xs \<Longrightarrow> R q \<Longrightarrow> \<not> P q \<and> \<not> P r) \<Longrightarrow>
     filter P (map (\<lambda>q. if R q then r else q) xs) = filter P xs"
  by (induction xs) auto

lemma users_UpsertPosition [simp]: "tbl_users (snd (UpsertPosition f st pos)) = tbl_users st"
  by (simp add: UpsertPosition_def Let_def)

lemma users_InsertTrade [simp]: "tbl_users (snd (InsertTrade f st tr)) = tbl_users st"
  by (simp add: InsertTrade_def Let_def)

lemma positions_InsertTrade [simp]: "tbl_positions (snd (InsertTrade f st tr)) = tbl_positions st"
  by (simp add: InsertTrade_def Let_def)

lemma others_UpsertPosition:
  assumes "pos_UserID pos = uid"
  shows "filter (\<lambda>p. pos_UserID p \<noteq> uid) (tbl_positions (snd (UpsertPosition f st pos))) =
         filter (\<lambda>p. pos_UserID p \<noteq> uid) (tbl_positions st)"
proof -
  have "filter (\<lambda>p. pos_UserID p \<noteq> uid)
          (map (\<lambda>q. if same_position q pos then pos else q) (tbl_positions st)) =
        filter (\<lambda>p. pos_UserID p \<noteq> uid) (tbl_positions st)"
    using assms by (intro filter_map_replace) (simp add: same_position_def)
  then show ?thesis using assms by (simp add: UpsertPosition_def Let_def)
qed

lemma origin_UpsertPosition:
  "p \<in> set (tbl_positions (snd (UpsertPosition f st pos))) \<Longrightarrow>
     p \<in> set (tbl_positions st) \<or> p = pos"
  by (auto simp: UpsertPosition_def Let_def split: if_splits)

lemma keep_UpsertPosition:
  assumes "\<exists>q \<in> set (tbl_positions st). same_position q k"
  shows "\<exists>q \<in> set (tbl_positions (snd (UpsertPosition f st pos))). same_position q k"
proof -
  from assms obtain q where q: "q \<in> set (tbl_positions st)" "same_position q k" by blast
  let ?q = "if same_position q pos then pos else q"
  have "same_position ?q k" using q(2) by (auto simp: same_position_def)
  moreover have "?q \<in> set (map (\<lambda>q. if same_position q pos then pos else q) (tbl_positions st))"
    using q(1) by (auto intro!: image_eqI [where x = q])
  ultimately have "\<exists>q \<in> set (map (\<lambda>q. if same_position q pos then pos else q) (tbl_positions st)).
      same_position q k" by blast
  with q show ?thesis
    by (auto simp: UpsertPosition_def Let_def simp del: set_map)
qed

lemma stored_UpsertPosition:
  assumes "\<not> f (OpUpsertPosition (pos_UserID pos) (pos_Address pos) (pos_ConditionID pos) (pos_Asset pos))"
    and "user_exists st (pos_UserID pos)"
  shows "pos \<in> set (tbl_positions (snd (UpsertPosition f st pos)))"
  using assms by (auto simp: UpsertPosition_def Let_def image_iff)

lemma db_store_position:
  "db (store_position ev uid a s pr) =
     snd (UpsertPosition (db_faults ev) (db s) (fetched_position uid a pr))"
  by (simp add: store_position_def fetched_position_def Let_def split: prod.splits option.splits)

lemma users_store_trade [simp]: "tbl_users (db (store_trade ev uid a s tr)) = tbl_users (db s)"
  by (simp add: store_trade_def Let_def)

lemma positions_store_trade [simp]:
  "tbl_positions (db (store_trade ev uid a s tr)) = tbl_positions (db s)"
  by (simp add: store_trade_def Let_def)

lemma frame_foldl_trade:
  "tbl_users (db (foldl (store_trade ev uid a) s ts)) = tbl_users (db s) \<and>
   tbl_positions (db (foldl (store_trade ev uid a) s ts)) = tbl_positions (db s)"
  by (induction ts arbitrary: s) simp_all

lemma users_foldl_position:
  "tbl_users (db (foldl (store_position ev uid a) s ps)) = tbl_users (db s)"
  by (induction ps arbitrary: s) (simp_all add: db_store_position)

lemma others_foldl_position:
  "filter (\<lambda>p. pos_UserID p \<noteq> uid) (tbl_positions (db (foldl (store_position ev uid a) s ps))) =
   filter (\<lambda>p. pos_UserID p \<noteq> uid) (tbl_positions (db s))"
proof (induction ps arbitrary: s)
  case Nil
  show ?case by simp
next
  case (Cons x ps)
  have "pos_UserID (fetched_position uid a x) = uid" by (simp add: fetched_position_def)
  from others_UpsertPosition [OF this, of "db_faults ev" "db s"] Cons.IH [of "store_position ev uid a s x"]
  show ?case by (simp add: db_store_position)
qed

lemma origin_foldl_position:
  "p \<in> set (tbl_positions (db (foldl (store_position ev uid a) s ps))) \<Longrightarrow>
     p \<in> set (tbl_positions (db s)) \<or> (\<exists>pr \<in> set ps. p = fetched_position uid a pr)"
proof (induction ps arbitrary: s)
  case Nil
  then show ?case by simp
next
  case (Cons x ps)
  from Cons.IH [of "store_position ev uid a s x"] Cons.prems
  have "p \<in> set (tbl_positions (db (store_position ev uid a s x))) \<or>
        (\<exists>pr \<in> set ps. p = fetched_position uid a pr)" by simp
  then show ?case
    using origin_UpsertPosition [of p "db_faults ev" "db s" "fetched_position uid a x"]
    by (auto simp: db_store_position)
qed

lemma keep_foldl_position:
  "\<exists>q \<in> set (tbl_positions (db s)). same_position q k \<Longrightarrow>
     \<exists>q \<in> set (tbl_positions (db (foldl (store_position ev uid a) s ps))). same_position q k"
proof (induction ps arbitrary: s)
  case Nil
  then show ?case by simp
next
  case (Cons x ps)
  from keep_UpsertPosition [OF Cons.prems, of "db_faults ev" "fetched_position uid a x"]
  have "\<exists>q \<in> set (tbl_positions (db (store_position ev uid a s x))). same_position q k"
    by (simp add: db_store_position)
  from Cons.IH [OF this] show ?case by simp
qed

lemma stored_foldl_position:
  assumes "pr \<in> set ps"
    and "\<not> db_faults ev (OpUpsertPosition uid a (pr_ConditionID pr) (pr_Asset pr))"
    and "user_exists (db s) uid"
  shows "\<exists>q \<in> set (tbl_positions (db (foldl (store_position ev uid a) s ps))).
           same_position q (fetched_position uid a pr)"
  using assms
proof (induction ps arbitrary: s)
  case Nil
  then show ?case by simp
next
  case (Cons x ps)
  have ue: "user_exists (db (store_position ev uid a s x)) uid"
    using Cons.prems(3) by (simp add: db_store_position user_exists_def)
  show ?case
  proof (cases "pr = x")
    case True
    have "fetched_position uid a x \<in>
            set (tbl_positions (snd (UpsertPosition (db_faults ev) (db s) (fetched_position uid a x))))"
      using Cons.prems(2,3) True
      by (intro stored_UpsertPosition) (simp_all add: fetched_position_def)
    then have "\<exists>q \<in> set (tbl_positions (db (store_position ev uid a s x))).
                 same_position q (fetched_position uid a pr)"
      using True by (auto simp: db_store_position same_position_def)
    from keep_foldl_position [OF this] show ?thesis by simp
  next
    case False
    with Cons.prems(1) have "pr \<in> set ps" by simp
    from Cons.IH [OF this Cons.prems(2) ue] show ?thesis by simp
  qed
qed

lemma users_syncAddress: "tbl_users (db (snd (syncAddress ev s uid a))) = tbl_users (db s)"
  by (simp add: syncAddress_def Let_def users_foldl_position frame_foldl_trade split: sum.splits)

lemma positions_syncAddress:
  "tbl_positions (db (snd (syncAddress ev s uid a))) =
     (case GetPositions ev a of
        Inl e \<Rightarrow> tbl_positions (db s)
      | Inr poss \<Rightarrow> tbl_positions (db (foldl (store_position ev uid a) s poss)))"
  by (simp add: syncAddress_def Let_def frame_foldl_trade split: sum.splits)

lemma db_address_step:
  "db (snd (sync_address_step ev uid u acc a)) = db (snd (syncAddress ev (snd acc) uid a))"
proof -
  obtain tp tt s where acc: "acc = ((tp, tt), s)" by (cases acc) auto
  obtain np nt er s' where r: "syncAddress ev s uid a = ((np, nt, er), s')"
    by (cases "syncAddress ev s uid a") auto
  show ?thesis by (cases er) (simp_all add: sync_address_step_def acc r)
qed

lemma users_address_loop:
  "tbl_users (db (snd (foldl (sync_address_step ev uid u) acc as))) = tbl_users (db (snd acc))"
  by (induction as arbitrary: acc) (simp_all add: db_address_step users_syncAddress)

lemma others_address_loop:
  "filter (\<lambda>p. pos_UserID p \<noteq> uid)
     (tbl_positions (db (snd (foldl (sync_address_step ev uid u) acc as)))) =
   filter (\<lambda>p. pos_UserID p \<noteq> uid) (tbl_positions (db (snd acc)))"
  by (induction as arbitrary: acc)
    (simp_all add: db_address_step positions_syncAddress others_foldl_position split: sum.splits)

lemma origin_address_loop:
  "p \<in> set (tbl_positions (db (snd (foldl (sync_address_step ev uid u) acc as)))) \<Longrightarrow>
     p \<in> set (tbl_positions (db (snd acc))) \<or>
     (\<exists>a \<in> set as. \<exists>poss. GetPositions ev a = Inr poss \<and>
        (\<exists>pr \<in> set poss. p = fetched_position uid a pr))"
proof (induction as arbitrary: acc)
  case Nil
  then show ?case by simp
next
  case (Cons x as)
  from Cons.IH [of "sync_address_step ev uid u acc x"] Cons.prems
  consider "p \<in> set (tbl_positions (db (snd (sync_address_step ev uid u acc x))))"
    | "\<exists>a \<in> set as. \<exists>poss. GetPositions ev a = Inr poss \<and>
        (\<exists>pr \<in> set poss. p = fetched_position uid a pr)"
    by auto
  then show ?case
  proof cases
    case 1
    show ?thesis
    proof (cases "GetPositions ev x")
      case (Inl e)
      with 1 show ?thesis by (simp add: db_address_step positions_syncAddress)
    next
      case (Inr poss)
      with 1 have "p \<in> set (tbl_positions (db (foldl (store_position ev uid x) (snd acc) poss)))"
        by (simp add: db_address_step positions_syncAddress)
      from origin_foldl_position [OF this] Inr show ?thesis by auto
    qed
  next
    case 2
    then show ?thesis by auto
  qed
qed

lemma keep_address_loop:
  "\<exists>q \<in> set (tbl_positions (db (snd acc))). same_position q k \<Longrightarrow>
     \<exists>q \<in> set (tbl_positions (db (snd (foldl (sync_address_step ev uid u) acc as)))).
        same_position q k"
proof (induction as arbitrary: acc)
  case Nil
  then show ?case by simp
next
  case (Cons x as)
  have "\<exists>q \<in> set (tbl_positions (db (snd (sync_address_step ev uid u acc x)))). same_position q k"
  proof (cases "GetPositions ev x")
    case (Inl e)
    with Cons.prems show ?thesis by (simp add: db_address_step positions_syncAddress)
  next
    case (Inr poss)
    from keep_foldl_position [OF Cons.prems, of ev uid x poss] Inr show ?thesis
      by (simp add: db_address_step positions_syncAddress)
  qed
  from Cons.IH [OF this] show ?case by simp
qed

lemma stored_address_loop:
  assumes "a \<in> set as" and "GetPositions ev a = Inr poss" and "pr \<in> set poss"
    and "\<not> db_faults ev (OpUpsertPosition uid a (pr_ConditionID pr) (pr_Asset pr))"
    and "user_exists (db (snd acc)) uid"
  shows "\<exists>q \<in> set (tbl_positions (db (snd (foldl (sync_address_step ev uid u) acc as)))).
           same_position q (fetched_position uid a pr)"
  using assms
proof (induction as arbitrary: acc)
  case Nil
  then show ?case by simp
next
  case (Cons x as)
  have ue: "user_exists (db (snd (sync_address_step ev uid u acc x))) uid"
    using Cons.prems(5) by (simp add: db_address_step users_syncAddress user_exists_def)
  show ?case
  proof (cases "a \<in> set as")
    case True
    from Cons.IH [OF True Cons.prems(2,3,4) ue] show ?thesis by simp
  next
    case False
    with Cons.prems(1) have x: "x = a" by simp
    from stored_foldl_position [OF Cons.prems(3,4,5)] Cons.prems(2) x
    have "\<exists>q \<in> set (tbl_positions (db (snd (sync_address_step ev uid u acc x)))).
            same_position q (fetched_position uid a pr)"
      by (simp add: db_address_step positions_syncAddress)
    from keep_address_loop [OF this] show ?thesis by simp
  qed
qed

lemma positions_takePnlSnapshot [simp]:
  "tbl_positions (db (snd (takePnlSnapshot ev s uid))) = tbl_positions (db s)"
  by (simp add: takePnlSnapshot_def time_Now_def InsertPnlSnapshot_def Let_def
      split: sum.splits prod.splits option.splits)


text \<open>
  Claim C10. \<^verbatim>\<open>syncUser\<close> deletes the stored positions of the account before it fetches
  any position: when the deletion fails, the sync returns that error and no fetched
  position has been stored (positions, trades and snapshots are the ones before the call);
  when it succeeds, the positions of the account at the end are exactly rows upserted from
  the fetches of this cycle, every fetched position whose upsert does not fail is stored
  at the end, and the positions of other accounts are untouched. So when the fetch fails
  for every address, the sync ends with none of the account's positions stored (nothing
  is restored), and the snapshot it appends, if any, belongs to the account and has
  unrealized PnL 0, so total equals realized PnL. When no database statement fails (and
  user ids are distinct and the username is not empty), the sync returns no error and the
  snapshot is appended.
\<close>

theorem sync_unreachable_upstream_empties_positions:
  assumes d: "distinct (map Username (tbl_users (db s)))"
    and user: "find (\<lambda>u. Username u = username) (tbl_users (db s)) = Some user"
    and nf1: "\<not> db_faults ev (OpGetUser username)"
  shows "(db_faults ev (OpDeleteUserPositions (ID user)) \<longrightarrow>
            fst (syncUser ev s username addrs) =
              Some (ErrWrap ''failed to delete existing positions''
                     (ErrWrap ''failed to delete positions'' (ErrDb (OpDeleteUserPositions (ID user))))) \<and>
            tbl_positions (db (snd (syncUser ev s username addrs))) = tbl_positions (db s) \<and>
            tbl_trades (db (snd (syncUser ev s username addrs))) = tbl_trades (db s) \<and>
            tbl_pnl_snapshots (db (snd (syncUser ev s username addrs))) = tbl_pnl_snapshots (db s)) \<and>
         (\<not> db_faults ev (OpDeleteUserPositions (ID user)) \<longrightarrow>
            filter (\<lambda>p. pos_UserID p \<noteq> ID user) (tbl_positions (db (snd (syncUser ev s username addrs)))) =
              filter (\<lambda>p. pos_UserID p \<noteq> ID user) (tbl_positions (db s)) \<and>
            (\<forall>p \<in> set (tbl_positions (db (snd (syncUser ev s username addrs)))).
               pos_UserID p = ID user \<longrightarrow>
                 (\<exists>a \<in> set addrs. \<exists>poss. GetPositions ev a = Inr poss \<and>
                    (\<exists>pr \<in> set poss. p = fetched_position (ID user) a pr))) \<and>
            (\<forall>a \<in> set addrs. \<forall>poss. GetPositions ev a = Inr poss \<longrightarrow>
               (\<forall>pr \<in> set poss.
                  \<not> db_faults ev (OpUpsertPosition (ID user) a (pr_ConditionID pr) (pr_Asset pr)) \<longrightarrow>
                    (\<exists>q \<in> set (tbl_positions (db (snd (syncUser ev s username addrs)))).
                       same_position q (fetched_position (ID user) a pr))))) \<and>
         (\<not> db_faults ev (OpDeleteUserPositions (ID user)) \<and>
          (\<forall>a \<in> set addrs. \<exists>e. GetPositions ev a = Inl e) \<longrightarrow>
            tbl_positions (db (snd (syncUser ev s username addrs))) =
              filter (\<lambda>p. pos_UserID p \<noteq> ID user) (tbl_positions (db s)) \<and>
            (tbl_pnl_snapshots (db (snd (syncUser ev s username addrs))) = tbl_pnl_snapshots (db s) \<or>
             (\<exists>snap. tbl_pnl_snapshots (db (snd (syncUser ev s username addrs))) =
                       tbl_pnl_snapshots (db s) @ [snap] \<and>
                     snap_UserID snap = ID user \<and> snap_UnrealizedPnl snap = Some 0 \<and>
                     snap_TotalPnl snap = snap_RealizedPnl snap)) \<and>
            ((\<forall>op. \<not> db_faults ev op) \<and> distinct (map ID (tbl_users (db s))) \<and> username \<noteq> [] \<longrightarrow>
               fst (syncUser ev s username addrs) = None \<and>
               tbl_pnl_snapshots (db (snd (syncUser ev s username addrs))) \<noteq> tbl_pnl_snapshots (db s)))"
proof -
  let ?uid = "ID user"
  let ?s0 = "emit (Log Info ''syncing user'' [username] None) s"
  from user nf1 have g: "GetUser (db_faults ev) (db ?s0) username = Inr user"
    by (simp add: GetUser_def)
  obtain pu s1 where p: "sync_profile ev ?s0 user username addrs = (pu, s1)" by fastforce
  have t1: "users_touched (db s) (db s1)"
    using touched_sync_profile [of ?s0 ev user username addrs] p by simp
  let ?s2 = "sync_official_pnl ev s1 user username pu addrs"
  have t2: "users_touched (db s) (db ?s2)"
    using users_touched_trans [OF t1 touched_sync_official [of s1 ev user username pu addrs]] .
  have F: "fst (syncUser ev s username addrs) =
              Some (ErrWrap ''failed to delete existing positions''
                     (ErrWrap ''failed to delete positions'' (ErrDb (OpDeleteUserPositions ?uid)))) \<and>
           tbl_positions (db (snd (syncUser ev s username addrs))) = tbl_positions (db s) \<and>
           tbl_trades (db (snd (syncUser ev s username addrs))) = tbl_trades (db s) \<and>
           tbl_pnl_snapshots (db (snd (syncUser ev s username addrs))) = tbl_pnl_snapshots (db s)"
    if flt: "db_faults ev (OpDeleteUserPositions ?uid)"
  proof -
    from flt have "syncUser ev s username addrs =
        (Some (ErrWrap ''failed to delete existing positions''
                (ErrWrap ''failed to delete positions'' (ErrDb (OpDeleteUserPositions ?uid)))),
         ?s2\<lparr>db := db ?s2\<rparr>)"
      using g p by (simp add: syncUser_def Let_def DeleteUserPositions_def)
    with t2 show ?thesis by (simp add: users_touched_def)
  qed
  let ?st = "(db ?s2)\<lparr>tbl_positions := filter (\<lambda>p. pos_UserID p \<noteq> ?uid) (tbl_positions (db ?s2))\<rparr>"
  obtain tot s4 where f: "foldl (sync_address_step ev ?uid username) ((0, 0), ?s2\<lparr>db := ?st\<rparr>) addrs = (tot, s4)"
    by fastforce
  obtain er5 s5' where t: "takePnlSnapshot ev s4 ?uid = (er5, s5')" by fastforce
  let ?s5 = "case (er5, s5') of (Some e, s') \<Rightarrow> emit (Log Error ''failed to take pnl snapshot'' [username] (Some e)) s'
                | (None, s') \<Rightarrow> s'"
  have db5: "db ?s5 = db s5'" by (cases er5) simp_all
  obtain er6 st6 where up: "UpdateUserLastSynced (db_faults ev) (db s5') ?uid (now ev (clock_reads ?s5)) = (er6, st6)"
    by fastforce
  have t6: "users_touched (db s5') st6"
    using touched_last_synced [of "db s5'" "db_faults ev" ?uid "now ev (clock_reads ?s5)"] up by simp
  have pos5: "tbl_positions (db s5') = tbl_positions (db s4)"
    using positions_takePnlSnapshot [of ev s4 ?uid] t by simp
  have G: "filter (\<lambda>p. pos_UserID p \<noteq> ?uid) (tbl_positions (db (snd (syncUser ev s username addrs)))) =
              filter (\<lambda>p. pos_UserID p \<noteq> ?uid) (tbl_positions (db s)) \<and>
            (\<forall>p \<in> set (tbl_positions (db (snd (syncUser ev s username addrs)))).
               pos_UserID p = ?uid \<longrightarrow>
                 (\<exists>a \<in> set addrs. \<exists>poss. GetPositions ev a = Inr poss \<and>
                    (\<exists>pr \<in> set poss. p = fetched_position ?uid a pr))) \<and>
            (\<forall>a \<in> set addrs. \<forall>poss. GetPositions ev a = Inr poss \<longrightarrow>
               (\<forall>pr \<in> set poss.
                  \<not> db_faults ev (OpUpsertPosition ?uid a (pr_ConditionID pr) (pr_Asset pr)) \<longrightarrow>
                    (\<exists>q \<in> set (tbl_positions (db (snd (syncUser ev s username addrs)))).
                       same_position q (fetched_position ?uid a pr))))"
    if nf2: "\<not> db_faults ev (OpDeleteUserPositions ?uid)"
  proof -
    from nf2 have del: "DeleteUserPositions (db_faults ev) (db ?s2) ?uid = (None, ?st)"
      by (simp add: DeleteUserPositions_def)
    have final: "db (snd (syncUser ev s username addrs)) = st6"
      using g p del f t up db5
      by (cases er5; cases er6) (simp_all add: syncUser_def Let_def time_Now_def)
    have fin: "tbl_positions (db (snd (syncUser ev s username addrs))) = tbl_positions (db s4)"
      using final t6 pos5 by (simp add: users_touched_def)
    have start: "tbl_positions ?st = filter (\<lambda>p. pos_UserID p \<noteq> ?uid) (tbl_positions (db s))"
      using t2 by (simp add: users_touched_def)
    have ue: "user_exists (db (snd ((0::nat, 0::nat), ?s2\<lparr>db := ?st\<rparr>))) ?uid"
      using find_user_exists [OF user] touched_ids [OF t2]
      by (simp add: user_exists_iff)
    have o: "filter (\<lambda>p. pos_UserID p \<noteq> ?uid) (tbl_positions (db s4)) =
             filter (\<lambda>p. pos_UserID p \<noteq> ?uid) (tbl_positions (db s))"
      using others_address_loop [of ?uid ev username "((0, 0), ?s2\<lparr>db := ?st\<rparr>)" addrs] f start
      by simp
    have or: "\<exists>a \<in> set addrs. \<exists>poss. GetPositions ev a = Inr poss \<and>
                    (\<exists>pr \<in> set poss. p = fetched_position ?uid a pr)"
      if "p \<in> set (tbl_positions (db s4))" and "pos_UserID p = ?uid" for p
    proof -
      from that(1) f
      have "p \<in> set (tbl_positions (db (snd (foldl (sync_address_step ev ?uid username)
                  ((0, 0), ?s2\<lparr>db := ?st\<rparr>) addrs))))" by simp
      from origin_address_loop [OF this] that(2) start show ?thesis by auto
    qed
    have sto: "\<exists>q \<in> set (tbl_positions (db s4)). same_position q (fetched_position ?uid a pr)"
      if "a \<in> set addrs" and "GetPositions ev a = Inr poss" and "pr \<in> set poss"
        and "\<not> db_faults ev (OpUpsertPosition ?uid a (pr_ConditionID pr) (pr_Asset pr))"
      for a poss pr
      using stored_address_loop [OF that ue, of username] f by simp
    from o or sto show ?thesis unfolding fin by blast
  qed
  have H: "tbl_positions (db (snd (syncUser ev s username addrs))) =
              filter (\<lambda>p. pos_UserID p \<noteq> ID user) (tbl_positions (db s)) \<and>
            (tbl_pnl_snapshots (db (snd (syncUser ev s username addrs))) = tbl_pnl_snapshots (db s) \<or>
             (\<exists>snap. tbl_pnl_snapshots (db (snd (syncUser ev s username addrs))) =
                       tbl_pnl_snapshots (db s) @ [snap] \<and>
                     snap_UserID snap = ID user \<and> snap_UnrealizedPnl snap = Some 0 \<and>
                     snap_TotalPnl snap = snap_RealizedPnl snap)) \<and>
            ((\<forall>op. \<not> db_faults ev op) \<and> distinct (map ID (tbl_users (db s))) \<and> username \<noteq> [] \<longrightarrow>
               fst (syncUser ev s username addrs) = None \<and>
               tbl_pnl_snapshots (db (snd (syncUser ev s username addrs))) \<noteq> tbl_pnl_snapshots (db s))"
    if nf2: "\<not> db_faults ev (OpDeleteUserPositions ?uid)"
      and fail: "\<forall>a \<in> set addrs. \<exists>e. GetPositions ev a = Inl e"
  proof -
    from nf2 have del: "DeleteUserPositions (db_faults ev) (db ?s2) ?uid = (None, ?st)"
      by (simp add: DeleteUserPositions_def)
    from address_loop_all_fail [OF fail, of ?uid username "((0, 0), ?s2\<lparr>db := ?st\<rparr>)"] f
    have s4: "db s4 = ?st" by simp
    from t2 have pos4: "tbl_positions (db s4) = filter (\<lambda>p. pos_UserID p \<noteq> ?uid) (tbl_positions (db s))"
      and snaps4: "tbl_pnl_snapshots (db s4) = tbl_pnl_snapshots (db s)"
      and rows4: "map (\<lambda>u. (ID u, Username u)) (tbl_users (db s4)) = map (\<lambda>u. (ID u, Username u)) (tbl_users (db s))"
      by (simp_all add: s4 users_touched_def)
    have t4: "users_touched (db s) ((db s4)\<lparr>tbl_positions := tbl_positions (db s)\<rparr>)"
      using t2 by (simp add: s4 users_touched_def)
    have names4: "map Username (tbl_users (db s4)) = map Username (tbl_users (db s))"
      using touched_usernames [OF t4] by simp
    have ids4: "map ID (tbl_users (db s4)) = map ID (tbl_users (db s))"
      using touched_ids [OF t4] by simp
    have d4: "distinct (map Username (tbl_users (db s4)))" using d names4 by simp
    have e4: "filter (\<lambda>p. pos_UserID p = ?uid) (tbl_positions (db s4)) = []"
      by (simp add: pos4 filter_empty_conv)
    have final: "db (snd (syncUser ev s username addrs)) = st6"
      using g p del f t up db5
      by (cases er5; cases er6) (simp_all add: syncUser_def Let_def time_Now_def)
    from snapshot_of_emptied_account [OF d4 e4, of ev] t
    have tri: "(db s5' = db s4) \<or>
          (\<exists>snap. db s5' = (db s4)\<lparr>tbl_pnl_snapshots := tbl_pnl_snapshots (db s4) @ [snap]\<rparr> \<and>
                   snap_UserID snap = ?uid \<and> snap_UnrealizedPnl snap = Some 0 \<and>
                   snap_TotalPnl snap = snap_RealizedPnl snap)"
      by auto
    have A: "tbl_positions (db (snd (syncUser ev s username addrs))) =
             filter (\<lambda>p. pos_UserID p \<noteq> ID user) (tbl_positions (db s))"
      using final t6 pos5 pos4 by (simp add: users_touched_def)
    have B: "tbl_pnl_snapshots (db (snd (syncUser ev s username addrs))) = tbl_pnl_snapshots (db s) \<or>
            (\<exists>snap. tbl_pnl_snapshots (db (snd (syncUser ev s username addrs))) =
                      tbl_pnl_snapshots (db s) @ [snap] \<and>
                    snap_UserID snap = ID user \<and> snap_UnrealizedPnl snap = Some 0 \<and>
                    snap_TotalPnl snap = snap_RealizedPnl snap)"
      using tri final t6 snaps4 by (auto simp: users_touched_def)
    have C: "fst (syncUser ev s username addrs) = None \<and>
             tbl_pnl_snapshots (db (snd (syncUser ev s username addrs))) \<noteq> tbl_pnl_snapshots (db s)"
      if nf: "\<forall>op. \<not> db_faults ev op" and di: "distinct (map ID (tbl_users (db s)))" and ne: "username \<noteq> []"
    proof -
      from find_SomeD [OF user] have "(?uid, username) \<in> set (map (\<lambda>u. (ID u, Username u)) (tbl_users (db s)))"
        by force
      then have row: "(?uid, username) \<in> set (map (\<lambda>u. (ID u, Username u)) (tbl_users (db s4)))"
        by (simp only: rows4)
      from di ids4 have "distinct (map ID (tbl_users (db s4)))" by simp
      from snapshot_no_faults [OF nf row this ne] t have er5: "er5 = None" by simp
      with snapshot_of_emptied_account [OF d4 e4, of ev] t
      obtain snap where "db s5' = (db s4)\<lparr>tbl_pnl_snapshots := tbl_pnl_snapshots (db s4) @ [snap]\<rparr>"
        by auto
      with final t6 snaps4 have "tbl_pnl_snapshots (db (snd (syncUser ev s username addrs))) = tbl_pnl_snapshots (db s) @ [snap]"
        by (simp add: users_touched_def)
      moreover from nf up have "er6 = None" by (simp add: UpdateUserLastSynced_def)
      with g p del f t up er5 have "fst (syncUser ev s username addrs) = None"
        by (simp add: syncUser_def Let_def time_Now_def)
      ultimately show ?thesis by simp
    qed
    from A B C show ?thesis by blast
  qed
  from F G H show ?thesis by blast
qed

text \<open>
  The account bob of the examples: with the upstream unreachable its cached position is
  gone and the snapshot has unrealized PnL 0; with an upstream that returns one position
  this position is the one stored for bob; and when the deletion fails the cache is the
  one before the call.
\<close>

theorem sync_unreachable_upstream_empties_positions_witness:
  "tbl_positions (db (snd (syncUser offline_env example_state ''bob'' [''0xb'']))) =
     [mk_position 1 ''c1'' (Some 7), mk_position 1 ''c2'' None] \<and>
   unrealized_total example_store 2 = 3 \<and>
   tbl_pnl_snapshots (db (snd (syncUser offline_env example_state ''bob'' [''0xb'']))) =
     [old_snapshot 1, old_snapshot 2,
      \<lparr>snap_UserID = 2, snap_Timestamp = 5000, snap_TotalPnl = Some (32/10),
       snap_RealizedPnl = Some (32/10), snap_UnrealizedPnl = Some 0\<rparr>] \<and>
   (\<exists>q. q \<in> set (tbl_positions (db (snd (syncUser online_env example_state ''bob'' [''0xb''])))) \<and>
        same_position q (fetched_position 2 ''0xb'' fresh_position)) \<and>
   filter (\<lambda>p. pos_UserID p \<noteq> 2)
     (tbl_positions (db (snd (syncUser online_env example_state ''bob'' [''0xb''])))) =
     [mk_position 1 ''c1'' (Some 7), mk_position 1 ''c2'' None] \<and>
   tbl_positions (db (snd (syncUser delete_fails_env example_state ''bob'' [''0xb'']))) =
     tbl_positions example_store"
proof -
  have d: "distinct (map Username (tbl_users (db example_state)))"
    by (simp add: example_state_def example_store_def alice_def bob_def)
  have u: "find (\<lambda>u. Username u = ''bob'') (tbl_users (db example_state)) = Some bob"
    by (simp add: example_state_def example_store_def alice_def bob_def)
  have n1: "\<not> db_faults offline_env (OpGetUser ''bob'')"
    and n2: "\<not> db_faults offline_env (OpDeleteUserPositions (ID bob))"
    by (simp_all add: offline_env_def no_faults_def)
  have f: "\<forall>a \<in> set [''0xb'']. \<exists>e. GetPositions offline_env a = Inl e"
    by (simp add: offline_env_def)
  from sync_unreachable_upstream_empties_positions [OF d u n1, of "[''0xb'']"] n2 f
  have "tbl_positions (db (snd (syncUser offline_env example_state ''bob'' [''0xb'']))) =
          filter (\<lambda>p. pos_UserID p \<noteq> ID bob) (tbl_positions (db example_state))"
    by blast
  then have p: "tbl_positions (db (snd (syncUser offline_env example_state ''bob'' [''0xb'']))) =
     [mk_position 1 ''c1'' (Some 7), mk_position 1 ''c2'' None]"
    by (simp add: example_state_def example_store_def bob_def mk_position_def)
  have un: "unrealized_total example_store 2 = 3"
    by (simp add: unrealized_total_def example_store_def mk_position_def)
  have sn: "tbl_pnl_snapshots (db (snd (syncUser offline_env example_state ''bob'' [''0xb'']))) =
     [old_snapshot 1, old_snapshot 2,
      \<lparr>snap_UserID = 2, snap_Timestamp = 5000, snap_TotalPnl = Some (32/10),
       snap_RealizedPnl = Some (32/10), snap_UnrealizedPnl = Some 0\<rparr>]"
    by (simp add: example_state_def sync_bob_offline)
  have id: "ID bob = 2" by (simp add: bob_def)
  have o1: "\<not> db_faults online_env (OpGetUser ''bob'')"
    and o2: "\<not> db_faults online_env (OpDeleteUserPositions (ID bob))"
    and o3: "\<not> db_faults online_env (OpUpsertPosition (ID bob) ''0xb''
                 (pr_ConditionID fresh_position) (pr_Asset fresh_position))"
    and o4: "GetPositions online_env ''0xb'' = Inr [fresh_position]"
    by (simp_all add: online_env_def offline_env_def no_faults_def)
  note on = sync_unreachable_upstream_empties_positions [OF d u o1, of "[''0xb'']"]
  from on o2 o3 o4
  have "\<exists>q \<in> set (tbl_positions (db (snd (syncUser online_env example_state ''bob'' [''0xb''])))).
          same_position q (fetched_position (ID bob) ''0xb'' fresh_position)"
    by (meson list.set_intros(1))
  then have st: "\<exists>q. q \<in> set (tbl_positions (db (snd (syncUser online_env example_state ''bob'' [''0xb''])))) \<and>
        same_position q (fetched_position 2 ''0xb'' fresh_position)"
    unfolding id by blast
  from on o2
  have "filter (\<lambda>p. pos_UserID p \<noteq> ID bob)
          (tbl_positions (db (snd (syncUser online_env example_state ''bob'' [''0xb''])))) =
        filter (\<lambda>p. pos_UserID p \<noteq> ID bob) (tbl_positions (db example_state))"
    by blast
  then have ot: "filter (\<lambda>p. pos_UserID p \<noteq> 2)
     (tbl_positions (db (snd (syncUser online_env example_state ''bob'' [''0xb''])))) =
     [mk_position 1 ''c1'' (Some 7), mk_position 1 ''c2'' None]"
    by (simp add: example_state_def example_store_def bob_def mk_position_def)
  have x1: "\<not> db_faults delete_fails_env (OpGetUser ''bob'')"
    and x2: "db_faults delete_fails_env (OpDeleteUserPositions (ID bob))"
    by (simp_all add: delete_fails_env_def online_env_def offline_env_def bob_def)
  from sync_unreachable_upstream_empties_positions [OF d u x1, of "[''0xb'']"] x2
  have "tbl_positions (db (snd (syncUser delete_fails_env example_state ''bob'' [''0xb'']))) =
          tbl_positions (db example_state)"
    by blast
  then have df: "tbl_positions (db (snd (syncUser delete_fails_env example_state ''bob'' [''0xb'']))) =
     tbl_positions example_store"
    by (simp add: example_state_def)
  from p un sn st ot df show ?thesis by blast
qed

section \<open>The two ledger passes compared\<close>

lemma count_leg_fst: "fst (count_leg pnl acc) = fst acc + pnl"
  by (cases acc) (simp add: count_leg_def)

lemma loops_agree:
  "fst (live_loop P (map as_fifoLot lots) S a) = map as_fifoLot (fst (fifo_loop P lots S r)) \<and>
   fst (snd (live_loop P (map as_fifoLot lots) S a)) = fst (snd (fifo_loop P lots S r)) \<and>
   fst (snd (snd (live_loop P (map as_fifoLot lots) S a))) - fst a = snd (snd (fifo_loop P lots S r)) - r"
proof (induction lots arbitrary: S a r)
  case Nil
  show ?case by simp
next
  case (Cons l lots)
  show ?case
  proof (cases "S > 0")
    case False
    then show ?thesis by simp
  next
    case True
    show ?thesis
    proof (cases "lot_size l \<le> S")
      case False
      with True show ?thesis
        by (simp add: as_fifoLot_def count_leg_fst algebra_simps)
    next
      case le: True
      from Cons.IH [of "S - lot_size l"
          "count_leg (lot_size l * P - lot_size l * lot_price l) a"
          "r + (P - lot_price l) * lot_size l"]
      show ?thesis using True le
        by (simp add: as_fifoLot_def count_leg_fst algebra_simps)
    qed
  qed
qed

lemma fifo_loop_acc:
  "snd (snd (fifo_loop P lots S r)) = r + snd (snd (fifo_loop P lots S 0)) \<and>
   fst (fifo_loop P lots S r) = fst (fifo_loop P lots S 0) \<and>
   fst (snd (fifo_loop P lots S r)) = fst (snd (fifo_loop P lots S 0))"
proof (induction lots arbitrary: S r)
  case Nil
  show ?case by simp
next
  case (Cons l lots)
  from Cons.IH [of "S - lot_size l" "r + (P - lot_price l) * lot_size l"]
       Cons.IH [of "S - lot_size l" "(P - lot_price l) * lot_size l"]
  show ?case by simp
qed


lemma lots_at_upd [simp]: "lots_at (m(k \<mapsto> ls)) k' = (if k' = k then ls else lots_at m k')"
  by (simp add: lots_at_def)

lemma sell_fifo:
  "fst (calculateRealizedPnlFIFO cb key P S) =
     snd (snd (fifo_loop P (lots_at cb key) S 0)) + zero_cost_accrual (lots_at cb key) P S \<and>
   (\<forall>k. lots_at (snd (calculateRealizedPnlFIFO cb key P S)) k =
          (if k = key then fst (fifo_loop P (lots_at cb key) S 0) else lots_at cb k))"
proof (cases "cb key")
  case None
  then show ?thesis
    by (simp add: calculateRealizedPnlFIFO_def lots_at_def zero_cost_accrual_def)
next
  case (Some lots)
  show ?thesis
  proof (cases "lots = []")
    case True
    with Some show ?thesis
      by (simp add: calculateRealizedPnlFIFO_def lots_at_def zero_cost_accrual_def)
  next
    case False
    obtain lots' rem r where l: "fifo_loop P lots S 0 = (lots', rem, r)"
      by (cases "fifo_loop P lots S 0") auto
    from Some have la: "lots_at cb key = lots" by (simp add: lots_at_def)
    from Some False l show ?thesis
      by (simp add: calculateRealizedPnlFIFO_def la zero_cost_accrual_def)
  qed
qed

lemma sell_live:
  assumes "live_loop P lots S (r, w, l) = (lots', rem, (r', w', l'))"
  shows "fst (live_loop P lots S (r, w, l)) = lots' \<and>
         fst (snd (snd (live_loop P lots S (r, w, l)))) = r'"
  using assms by simp

lemma step_related:
  assumes q: "same_queues s s'" and ts: "Timestamp t \<noteq> None"
  shows "same_queues (backfill_step s t) (live_step s' t) \<and>
         cumulativeRealizedPnl (backfill_step s t) + realizedPnl s' + u =
           cumulativeRealizedPnl s + realizedPnl (live_step s' t) + snd (untracked_step (s, u) t)"
proof (cases "live_complete t")
  case False
  then have "\<not> backfill_complete t" by (simp add: live_complete_def backfill_complete_def)
  with False q show ?thesis
    by (simp add: backfill_step_def live_step_def untracked_step_def is_sell_def)
next
  case True
  with ts have bc: "backfill_complete t" by (simp add: live_complete_def backfill_complete_def)
  from True obtain c oc sd p z where
    f: "ConditionID t = Some c" "Outcome t = Some oc" "Side t = Some sd" "Price t = Some p" "Size t = Some z"
    by (auto simp: live_complete_def)
  let ?key = "PositionKey c oc"
  from q have qk: "\<And>k. lots_at (inventory s') k = map as_fifoLot (lots_at (costBasis s) k)"
    by (simp add: same_queues_def)
  show ?thesis
  proof (cases "sd = ''BUY''")
    case buy: True
    have b: "costBasis (backfill_step s t) =
               (costBasis s)(?key \<mapsto> lots_at (costBasis s) ?key @ [\<lparr>lot_price = p, lot_size = z\<rparr>])"
      using bc f buy by (simp add: backfill_step_def Let_def lots_at_def)
    have l: "inventory (live_step s' t) =
               (inventory s')(?key \<mapsto> lots_at (inventory s') ?key @ [\<lparr>Shares = z, PricePerShare = p\<rparr>])"
      using True f buy by (simp add: live_step_def Let_def lots_at_def)
    have "same_queues (backfill_step s t) (live_step s' t)"
      using qk by (simp add: same_queues_def b l as_fifoLot_def)
    moreover have "cumulativeRealizedPnl (backfill_step s t) = cumulativeRealizedPnl s"
      "realizedPnl (live_step s' t) = realizedPnl s'" "snd (untracked_step (s, u) t) = u"
      using bc True f buy
      by (simp_all add: backfill_step_def live_step_def Let_def untracked_step_def is_sell_def)
    ultimately show ?thesis by simp
  next
    case nobuy: False
    show ?thesis
    proof (cases "sd = ''SELL''")
      case False
      with nobuy bc True f q show ?thesis
        by (simp add: backfill_step_def live_step_def Let_def untracked_step_def is_sell_def
            same_queues_def)
    next
      case sell: True
      let ?lots = "lots_at (costBasis s) ?key"
      obtain pnl cb where c: "calculateRealizedPnlFIFO (costBasis s) ?key p z = (pnl, cb)"
        by (cases "calculateRealizedPnlFIFO (costBasis s) ?key p z") auto
      from sell_fifo [of "costBasis s" ?key p z] c
      have pnl: "pnl = snd (snd (fifo_loop p ?lots z 0)) + zero_cost_accrual ?lots p z"
        and cbk: "\<And>k. lots_at cb k = (if k = ?key then fst (fifo_loop p ?lots z 0) else lots_at (costBasis s) k)"
        by simp_all
      obtain lots' rem r' w' l' where
        ll: "live_loop p (lots_at (inventory s') ?key) z (realizedPnl s', wins s', losses s') = (lots', rem, (r', w', l'))"
        by (cases "live_loop p (lots_at (inventory s') ?key) z (realizedPnl s', wins s', losses s')") auto
      from loops_agree [of p ?lots z "(realizedPnl s', wins s', losses s')" 0] ll qk [of ?key]
      have lots': "lots' = map as_fifoLot (fst (fifo_loop p ?lots z 0))"
        and r': "r' - realizedPnl s' = snd (snd (fifo_loop p ?lots z 0))"
        by simp_all
      have bs: "costBasis (backfill_step s t) = cb"
        "cumulativeRealizedPnl (backfill_step s t) = cumulativeRealizedPnl s + pnl"
        using bc f sell c by (simp_all add: backfill_step_def Let_def)
      have ls: "inventory (live_step s' t) = (inventory s')(?key \<mapsto> lots')"
        "realizedPnl (live_step s' t) = r'"
        using True f sell ll by (simp_all add: live_step_def Let_def lots_at_def)
      have un: "snd (untracked_step (s, u) t) = u + zero_cost_accrual ?lots p z"
        using bc f sell by (simp add: untracked_step_def is_sell_def)
      have "same_queues (backfill_step s t) (live_step s' t)"
        using qk by (simp add: same_queues_def bs ls cbk lots')
      moreover have "cumulativeRealizedPnl (backfill_step s t) + realizedPnl s' + u =
           cumulativeRealizedPnl s + realizedPnl (live_step s' t) + snd (untracked_step (s, u) t)"
        using r' by (simp add: bs ls un pnl)
      ultimately show ?thesis by simp
    qed
  qed
qed

lemma untracked_fold_fst: "fst (foldl untracked_step su trs) = foldl backfill_step (fst su) trs"
  by (induction trs arbitrary: su) (simp_all add: untracked_step_def)

text \<open>
  Claim C2. For every trade sequence whose trades all carry a timestamp, the two passes keep
  the same lot queues, and the cumulative realized PnL of the backfill pass is the realized
  PnL of the live-stats pass plus the zero-cost-basis accruals of the backfill pass. The two
  are therefore equal only where these accruals add up to 0: the claimed equality fails as
  soon as a SELL outruns the lots of its key.
\<close>

theorem passes_differ_by_zero_cost_accruals:
  assumes "\<forall>t \<in> set trs. Timestamp t \<noteq> None"
  shows "same_queues (backfill_pass trs) (live_pass trs) \<and>
         cumulativeRealizedPnl (backfill_pass trs) = realizedPnl (live_pass trs) + untracked_total trs"
  using assms
proof (induction trs rule: rev_induct)
  case Nil
  show ?case
    by (simp add: backfill_pass_def live_pass_def untracked_total_def same_queues_def
        backfill_init_def live_init_def lots_at_def)
next
  case (snoc t trs)
  then have IH: "same_queues (backfill_pass trs) (live_pass trs)"
    "cumulativeRealizedPnl (backfill_pass trs) = realizedPnl (live_pass trs) + untracked_total trs"
    and ts: "Timestamp t \<noteq> None"
    by simp_all
  have u: "untracked_total (trs @ [t]) = snd (untracked_step (backfill_pass trs, untracked_total trs) t)"
    using untracked_fold_fst [of "(backfill_init, 0)" trs]
    by (simp add: untracked_total_def backfill_pass_def untracked_step_def)
  from step_related [OF IH(1) ts, of "untracked_total trs"] IH(2) u
  show ?case by (simp add: backfill_pass_def live_pass_def)
qed


text \<open>A single SELL of 10 at 0.50 with no BUY before it: 5.00 in the backfill pass, 0 in the
  live-stats pass.\<close>

theorem passes_differ_by_zero_cost_accruals_witness:
  "cumulativeRealizedPnl (backfill_pass untracked_sell) = 5 \<and>
   realizedPnl (live_pass untracked_sell) = 0 \<and> untracked_total untracked_sell = 5 \<and>
   cumulativeRealizedPnl (backfill_pass untracked_sell) \<noteq> realizedPnl (live_pass untracked_sell)"
proof -
  have t: "\<forall>t \<in> set untracked_sell. Timestamp t \<noteq> None"
    by (simp add: untracked_sell_def mk_trade_def)
  have l: "realizedPnl (live_pass untracked_sell) = 0"
    by (simp add: untracked_sell_def mk_trade_def live_pass_def live_step_def live_complete_def
        live_init_def Let_def)
  have u: "untracked_total untracked_sell = 5"
    by (simp add: untracked_sell_def mk_trade_def untracked_total_def untracked_step_def
        is_sell_def backfill_complete_def backfill_init_def lots_at_def zero_cost_accrual_def)
  from passes_differ_by_zero_cost_accruals [OF t] l u
  have "cumulativeRealizedPnl (backfill_pass untracked_sell) = 5" by simp
  with l u show ?thesis by simp
qed

text \<open>
  Claim C1. One SELL of size \<open>S\<close> at price \<open>P\<close> against the queue of its key: the backfill
  pass realizes the matched legs \<open>(P - lotPrice) \<times> matchedSize\<close> of the FIFO loop plus the
  zero-cost-basis accrual (\<open>P \<times> S\<close> for an empty queue, \<open>P \<times> remainder\<close> when the loop
  empties the queue with a positive remainder); the live-stats pass adds the matched legs
  only and accrues nothing for the remainder, which is where it departs from the claim.
\<close>

theorem sell_accrual_of_both_passes:
  "fst (calculateRealizedPnlFIFO cb key P S) =
     snd (snd (fifo_loop P (lots_at cb key) S 0)) + zero_cost_accrual (lots_at cb key) P S \<and>
   fst (snd (snd (live_loop P (map as_fifoLot (lots_at cb key)) S (r, w, l)))) =
     r + snd (snd (fifo_loop P (lots_at cb key) S 0))"
proof
  show "fst (calculateRealizedPnlFIFO cb key P S) =
     snd (snd (fifo_loop P (lots_at cb key) S 0)) + zero_cost_accrual (lots_at cb key) P S"
    using sell_fifo [of cb key P S] by simp
  from loops_agree [of P "lots_at cb key" S "(r, w, l)" 0]
  show "fst (snd (snd (live_loop P (map as_fifoLot (lots_at cb key)) S (r, w, l)))) =
     r + snd (snd (fifo_loop P (lots_at cb key) S 0))"
    by simp
qed

text \<open>BUY 4 at 0.40, SELL 10 at 0.50: the backfill pass realizes 0.40 + 0.50 \<open>\<times>\<close> 6 = 3.40,
  the live-stats pass 0.40.\<close>

theorem sell_accrual_of_both_passes_witness:
  "fst (calculateRealizedPnlFIFO [PositionKey ''c'' ''Yes'' \<mapsto> [\<lparr>lot_price = 4/10, lot_size = 4\<rparr>]]
          (PositionKey ''c'' ''Yes'') (5/10) 10) = 4/10 + (5/10) * 6 \<and>
   fst (snd (snd (live_loop (5/10) [\<lparr>Shares = 4, PricePerShare = 4/10\<rparr>] 10 (0, 0, 0)))) = 4/10 \<and>
   cumulativeRealizedPnl (backfill_pass oversold_trades) = 34/10 \<and>
   realizedPnl (live_pass oversold_trades) = 4/10"
proof -
  let ?k = "PositionKey ''c'' ''Yes''"
  let ?cb = "[?k \<mapsto> [\<lparr>lot_price = 4/10, lot_size = 4\<rparr>]]"
  have q: "lots_at ?cb ?k = [\<lparr>lot_price = 4/10, lot_size = 4\<rparr>]"
    by simp
  have m: "snd (snd (fifo_loop (5/10) [\<lparr>lot_price = 4/10, lot_size = 4\<rparr>] 10 0)) = 4/10"
    by simp
  have z: "zero_cost_accrual [\<lparr>lot_price = 4/10, lot_size = 4\<rparr>] (5/10) 10 = (5/10) * 6"
    by (simp add: zero_cost_accrual_def)
  have c: "map as_fifoLot [\<lparr>lot_price = 4/10, lot_size = 4\<rparr>] = [\<lparr>Shares = 4, PricePerShare = 4/10\<rparr>]"
    by (simp add: as_fifoLot_def)
  from sell_accrual_of_both_passes [of ?cb ?k "5/10" 10 0 0 0]
  have "fst (calculateRealizedPnlFIFO ?cb ?k (5/10) 10) = 4/10 + (5/10) * 6 \<and>
        fst (snd (snd (live_loop (5/10) [\<lparr>Shares = 4, PricePerShare = 4/10\<rparr>] 10 (0, 0, 0)))) = 4/10"
    unfolding q m z c by simp
  moreover have "cumulativeRealizedPnl (backfill_pass oversold_trades) = 34/10"
    by (simp add: oversold_trades_def mk_trade_def backfill_pass_def backfill_step_def
        backfill_complete_def backfill_init_def calculateRealizedPnlFIFO_def truncate_day_def Let_def)
  moreover have "realizedPnl (live_pass oversold_trades) = 4/10"
    by (simp add: oversold_trades_def mk_trade_def live_pass_def live_step_def live_complete_def
        live_init_def count_leg_def Let_def)
  ultimately show ?thesis by simp
qed

section \<open>Incomplete trade records\<close>

lemma backfill_step_skip: "\<not> backfill_complete t \<Longrightarrow> backfill_step s t = s"
  by (simp add: backfill_step_def)

lemma live_step_skip: "\<not> live_complete t \<Longrightarrow> live_step s t = s"
  by (simp add: live_step_def)

lemma live_step_Timestamp: "live_step s (t\<lparr>Timestamp := v\<rparr>) = live_step s t"
  by (simp add: live_step_def live_complete_def Let_def)

text \<open>With its timestamp set, a trade passes the guard of one pass exactly when it passes
  the guard of the other.\<close>

lemma guards_coincide: "Timestamp t \<noteq> None \<Longrightarrow> live_complete t \<longleftrightarrow> backfill_complete t"
  by (simp add: live_complete_def backfill_complete_def)

subsection \<open>Every stored trade has its timestamp\<close>

text \<open>
  \<^verbatim>\<open>InsertTrade\<close> is the only statement that adds a row to the trades table, and it keeps
  the \<^verbatim>\<open>NOT NULL\<close> constraint; no other operation of a sync cycle or of a backfill
  changes the table.
\<close>

lemma InsertTrade_not_null:
  "trades_not_null st \<Longrightarrow> trades_not_null (snd (InsertTrade f st tr))"
  by (auto simp: InsertTrade_def trades_not_null_def trade_not_null_def Let_def)

lemma InsertTrade_rejects_null:
  "\<not> trade_not_null tr \<Longrightarrow> \<not> f (OpInsertTrade (UserID tr) (Address tr)) \<Longrightarrow>
     InsertTrade f st tr = (Some (ErrWrap ''failed to insert trade'' ErrConstraint), st)"
  by (auto simp: InsertTrade_def trade_not_null_def Let_def)

lemma trades_UpsertPosition [simp]: "tbl_trades (snd (UpsertPosition f st pos)) = tbl_trades st"
  by (simp add: UpsertPosition_def Let_def)

lemma trades_store_position [simp]:
  "tbl_trades (db (store_position ev uid a s pos)) = tbl_trades (db s)"
proof -
  obtain er st where r: "UpsertPosition (db_faults ev) (db s)
      \<lparr>pos_UserID = uid, pos_Address = a,
         pos_ConditionID = pr_ConditionID pos, pos_Asset = pr_Asset pos,
         pos_Outcome = (if pr_Outcome pos \<noteq> [] then Some (pr_Outcome pos) else None),
         pos_Size = pr_Size pos, pos_AvgPrice = pr_AvgPrice pos,
         pos_CurrentPrice = pr_CurrentPrice pos,
         pos_InitialValue = pr_InitialValue pos,
         pos_CurrentValue = pr_CurrentValue pos,
         pos_UnrealizedPnl = pr_UnrealizedPnl pos,
         pos_UnrealizedPnlPercent = pr_UnrealizedPnlPercent pos,
         pos_RealizedPnl = pr_RealizedPnl pos\<rparr> = (er, st)" (is "UpsertPosition _ _ ?p = _")
    by (cases "UpsertPosition (db_faults ev) (db s) ?p") auto
  have "tbl_trades st = tbl_trades (db s)"
    using trades_UpsertPosition [of "db_faults ev" "db s" ?p] r by simp
  then show ?thesis
    using r by (cases er) (simp_all add: store_position_def Let_def)
qed

lemma not_null_foldl_position:
  "trades_not_null (db s) \<Longrightarrow> trades_not_null (db (foldl (store_position ev uid a) s ps))"
  by (induction ps arbitrary: s) (simp_all add: trades_not_null_def)

lemma not_null_store_trade:
  "trades_not_null (db s) \<Longrightarrow> trades_not_null (db (store_trade ev uid a s tr))"
  by (simp add: store_trade_def Let_def InsertTrade_not_null)

lemma not_null_foldl_trade:
  "trades_not_null (db s) \<Longrightarrow> trades_not_null (db (foldl (store_trade ev uid a) s ts))"
  by (induction ts arbitrary: s) (simp_all add: not_null_store_trade)

lemma not_null_syncAddress:
  "trades_not_null (db s) \<Longrightarrow> trades_not_null (db (snd (syncAddress ev s uid a)))"
  by (simp add: syncAddress_def Let_def not_null_foldl_position not_null_foldl_trade
      split: sum.splits)

lemma not_null_address_step:
  "trades_not_null (db (snd acc)) \<Longrightarrow>
     trades_not_null (db (snd (sync_address_step ev uid u acc a)))"
proof -
  assume n: "trades_not_null (db (snd acc))"
  obtain tp tt s where acc: "acc = ((tp, tt), s)" by (cases acc) auto
  obtain np nt er s' where r: "syncAddress ev s uid a = ((np, nt, er), s')"
    by (cases "syncAddress ev s uid a") auto
  have "trades_not_null (db s')"
    using not_null_syncAddress [of s ev uid a] n r acc by simp
  then show ?thesis
    by (cases er) (simp_all add: sync_address_step_def acc r)
qed

lemma not_null_foldl_address:
  "trades_not_null (db (snd acc)) \<Longrightarrow>
     trades_not_null (db (snd (foldl (sync_address_step ev uid u) acc as)))"
  by (induction as arbitrary: acc) (simp_all add: not_null_address_step)

lemma trades_takePnlSnapshot [simp]:
  "tbl_trades (db (snd (takePnlSnapshot ev s uid))) = tbl_trades (db s)"
  by (simp add: takePnlSnapshot_def time_Now_def InsertPnlSnapshot_def Let_def
      split: sum.splits prod.splits option.splits)

lemma trades_sync_profile [simp]:
  "tbl_trades (db (snd (sync_profile ev s user u as))) = tbl_trades (db s)"
  using touched_sync_profile [of s ev user u as] by (simp add: users_touched_def)

lemma trades_sync_official [simp]:
  "tbl_trades (db (sync_official_pnl ev s user u pu as)) = tbl_trades (db s)"
  using touched_sync_official [of s ev user u pu as] by (simp add: users_touched_def)

lemma not_null_syncUser:
  assumes n: "trades_not_null (db s)"
  shows "trades_not_null (db (snd (syncUser ev s u as)))"
proof -
  let ?s0 = "emit (Log Info ''syncing user'' [u] None) s"
  show ?thesis
  proof (cases "GetUser (db_faults ev) (db ?s0) u")
    case (Inl e)
    then show ?thesis using n by (simp add: syncUser_def Let_def)
  next
    case (Inr user)
    obtain pu s1 where p: "sync_profile ev ?s0 user u as = (pu, s1)"
      by (cases "sync_profile ev ?s0 user u as") auto
    have s1: "tbl_trades (db s1) = tbl_trades (db s)"
      using trades_sync_profile [of ev ?s0 user u as] p by simp
    let ?s2 = "sync_official_pnl ev s1 user u pu as"
    have s2: "tbl_trades (db ?s2) = tbl_trades (db s)" using s1 by simp
    obtain er st where d: "DeleteUserPositions (db_faults ev) (db ?s2) (ID user) = (er, st)"
      by (cases "DeleteUserPositions (db_faults ev) (db ?s2) (ID user)") auto
    then have st: "tbl_trades st = tbl_trades (db s)"
      using s2 by (auto simp: DeleteUserPositions_def split: if_splits)
    show ?thesis
    proof (cases er)
      case (Some e)
      then show ?thesis using Inr p d st n by (simp add: syncUser_def Let_def trades_not_null_def)
    next
      case None
      obtain tot s4 where f: "foldl (sync_address_step ev (ID user) u) ((0, 0), ?s2\<lparr>db := st\<rparr>) as = (tot, s4)"
        by (cases "foldl (sync_address_step ev (ID user) u) ((0, 0), ?s2\<lparr>db := st\<rparr>) as") auto
      have "trades_not_null (db (snd ((0::nat, 0::nat), ?s2\<lparr>db := st\<rparr>)))"
        using n st by (simp add: trades_not_null_def)
      from not_null_foldl_address [OF this, of ev "ID user" u as] f
      have s4: "trades_not_null (db s4)" by simp
      obtain er5 s5' where t: "takePnlSnapshot ev s4 (ID user) = (er5, s5')"
        by (cases "takePnlSnapshot ev s4 (ID user)") auto
      have s5': "trades_not_null (db s5')"
        using trades_takePnlSnapshot [of ev s4 "ID user"] t s4 by (simp add: trades_not_null_def)
      let ?s5 = "case er5 of Some e \<Rightarrow> emit (Log Error ''failed to take pnl snapshot'' [u] (Some e)) s5'
                | None \<Rightarrow> s5'"
      have db5: "db ?s5 = db s5'" by (cases er5) simp_all
      obtain er6 st6 where up: "UpdateUserLastSynced (db_faults ev) (db s5') (ID user) (now ev (clock_reads ?s5)) = (er6, st6)"
        by (cases "UpdateUserLastSynced (db_faults ev) (db s5') (ID user) (now ev (clock_reads ?s5))") auto
      have "users_touched (db s5') st6"
        using touched_last_synced [of "db s5'" "db_faults ev" "ID user" "now ev (clock_reads ?s5)"] up
        by simp
      with s5' have s6: "trades_not_null st6" by (simp add: users_touched_def trades_not_null_def)
      have "db (snd (syncUser ev s u as)) = st6"
        using Inr p d None f t up db5
        by (cases er5; cases er6) (simp_all add: syncUser_def Let_def time_Now_def)
      with s6 show ?thesis by simp
    qed
  qed
qed

lemma not_null_user_step:
  "trades_not_null (db s) \<Longrightarrow> trades_not_null (db (sync_user_step ev s ua))"
  using not_null_syncUser [of s ev "fst ua" "snd ua"]
  by (cases "syncUser ev s (fst ua) (snd ua)") (auto simp: sync_user_step_def split: option.splits)

lemma not_null_foldl_user:
  "trades_not_null (db s) \<Longrightarrow> trades_not_null (db (foldl (sync_user_step ev) s accounts))"
  by (induction accounts arbitrary: s) (simp_all add: not_null_user_step)

lemma not_null_syncAll:
  "trades_not_null (db s) \<Longrightarrow> trades_not_null (db (snd (syncAll ev s accounts)))"
  using not_null_foldl_user [of "emit (Log Info ''syncing all users'' [] None) s" ev accounts]
  by (simp add: syncAll_def Let_def)

lemma trades_BulkInsert [simp]:
  "tbl_trades (snd (BulkInsertPnlSnapshots f st snaps)) = tbl_trades st"
proof (cases "BulkInsertPnlSnapshots f st snaps")
  case (Pair er st')
  then show ?thesis
    using BulkInsert_ok [of f st snaps st'] BulkInsert_failed [of f st snaps _ st']
    by (cases er) auto
qed

lemma trades_BackfillUser: "tbl_trades (snd (BackfillUser f st username)) = tbl_trades st"
proof (cases "GetUser f st username")
  case (Inl a)
  then show ?thesis by (simp add: BackfillUser_def)
next
  case (Inr user)
  show ?thesis
  proof (cases "GetUserTradesChronological f st (ID user)")
    case (Inl a)
    with Inr show ?thesis by (simp add: BackfillUser_def)
  next
    case trs: (Inr trs)
    let ?st1 = "st\<lparr>tbl_pnl_snapshots :=
            filter (\<lambda>s. snap_UserID s \<noteq> ID user) (tbl_pnl_snapshots st)\<rparr>"
    obtain r st2 where b: "BulkInsertPnlSnapshots f ?st1 (backfill_snapshots (ID user) trs) = (r, st2)"
      by (cases "BulkInsertPnlSnapshots f ?st1 (backfill_snapshots (ID user) trs)") auto
    have "tbl_trades st2 = tbl_trades st"
      using trades_BulkInsert [of f ?st1 "backfill_snapshots (ID user) trs"] b by simp
    with Inr trs b show ?thesis
      by (cases r) (simp_all add: BackfillUser_def DeleteUserPnlSnapshots_def Let_def)
  qed
qed

lemma chronological_from_table:
  "GetUserTradesChronological f st userID = Inr trs \<Longrightarrow> set trs \<subseteq> set (tbl_trades st)"
  by (auto simp: GetUserTradesChronological_def split: if_splits)

lemma ledger_over_read_trades:
  "GetUserTradesChronological f st userID = Inr trs \<Longrightarrow>
     CalculateRealizedPnlFromTrades f st userID = Inr (ledger_result trs)"
  by (simp add: CalculateRealizedPnlFromTrades_def)

lemma BackfillUser_no_faults:
  assumes user: "find (\<lambda>u. Username u = username) (tbl_users st) = Some user"
    and nf: "\<forall>op. \<not> f op"
  shows "\<exists>res st'. BackfillUser f st username = (Inr res, st')"
proof -
  let ?trs = "sort_key Timestamp (filter (\<lambda>t. UserID t = ID user) (tbl_trades st))"
  let ?st1 = "st\<lparr>tbl_pnl_snapshots := filter (\<lambda>s. snap_UserID s \<noteq> ID user) (tbl_pnl_snapshots st)\<rparr>"
  have "list_all (\<lambda>sn. user_exists ?st1 (snap_UserID sn)) (backfill_snapshots (ID user) ?trs)"
    using backfill_snapshots_user [of "ID user" ?trs] find_user_exists [OF user]
    by (auto simp: list_all_iff)
  note b = BulkInsert_no_faults [OF nf this]
  have g: "GetUser f st username = Inr user"
    using user nf by (simp add: GetUser_def)
  have t: "GetUserTradesChronological f st (ID user) = Inr ?trs"
    using nf by (simp add: GetUserTradesChronological_def)
  have d: "DeleteUserPnlSnapshots f st (ID user) = (None, ?st1)"
    using nf by (simp add: DeleteUserPnlSnapshots_def)
  show ?thesis
    by (cases "?trs = []") (simp_all add: BackfillUser_def g t d b Let_def)
qed

text \<open>
  Claim C7. Both passes read the trades of \<^verbatim>\<open>GetUserTradesChronological\<close>, that is, rows
  of the trades table, and every row of that table has its timestamp (the column is
  \<^verbatim>\<open>NOT NULL\<close>; the constraint is kept by \<^verbatim>\<open>InsertTrade\<close>, by every sync cycle and by
  every backfill). For every sequence read from such a table, a trade that misses one of
  the required fields is skipped by the backfill pass and by the live-stats pass: the state
  of each pass (realized PnL, win and loss counters, lot inventory, daily PnL) is the one
  the sequence without that trade gives, and \<^verbatim>\<open>CalculateRealizedPnlFromTrades\<close> returns
  the result of the sequence without it. The record never makes a pass fail: whatever the
  records are, the live-stats pass returns a result for the trades it has read, and with
  no failing statement \<^verbatim>\<open>BackfillUser\<close> returns a result. The backfill pass skips such a
  trade in any sequence whatsoever; the guard of the live-stats pass tests the five fields
  other than the timestamp, which it never reads.
\<close>

theorem incomplete_trades_skipped:
  "(trades_not_null st \<and> GetUserTradesChronological f st userID = Inr (xs @ t # ys) \<and>
    \<not> backfill_complete t \<longrightarrow>
      Timestamp t \<noteq> None \<and>
      backfill_pass (xs @ t # ys) = backfill_pass (xs @ ys) \<and>
      live_pass (xs @ t # ys) = live_pass (xs @ ys) \<and>
      CalculateRealizedPnlFromTrades f st userID = Inr (ledger_result (xs @ ys))) \<and>
   (\<not> backfill_complete t \<longrightarrow> backfill_pass (xs @ t # ys) = backfill_pass (xs @ ys)) \<and>
   (\<not> live_complete t \<longrightarrow> live_pass (xs @ t # ys) = live_pass (xs @ ys)) \<and>
   (Timestamp t \<noteq> None \<and> \<not> backfill_complete t \<longrightarrow>
      live_pass (xs @ t # ys) = live_pass (xs @ ys)) \<and>
   live_pass (xs @ t\<lparr>Timestamp := v\<rparr> # ys) = live_pass (xs @ t # ys) \<and>
   (GetUserTradesChronological f st userID = Inr trs \<longrightarrow>
      CalculateRealizedPnlFromTrades f st userID = Inr (ledger_result trs)) \<and>
   ((\<forall>op. \<not> f op) \<and> find (\<lambda>u. Username u = username) (tbl_users st) = Some user \<longrightarrow>
      (\<exists>res st'. BackfillUser f st username = (Inr res, st'))) \<and>
   (trades_not_null st \<longrightarrow>
      trades_not_null (snd (InsertTrade f st tr)) \<and>
      trades_not_null (snd (BackfillUser f st username))) \<and>
   (trades_not_null (db s) \<longrightarrow> trades_not_null (db (snd (syncAll ev s accounts))))"
proof (intro conjI impI)
  assume a: "trades_not_null st \<and> GetUserTradesChronological f st userID = Inr (xs @ t # ys) \<and>
    \<not> backfill_complete t"
  then have "t \<in> set (tbl_trades st)"
    using chronological_from_table [of f st userID "xs @ t # ys"] by auto
  with a have ts: "Timestamp t \<noteq> None"
    by (auto simp: trades_not_null_def list_all_iff trade_not_null_def)
  then show "Timestamp t \<noteq> None" .
  from a show "backfill_pass (xs @ t # ys) = backfill_pass (xs @ ys)"
    by (simp add: backfill_pass_def backfill_step_skip)
  from a ts have nl: "\<not> live_complete t" by (simp add: guards_coincide)
  then show l: "live_pass (xs @ t # ys) = live_pass (xs @ ys)"
    by (simp add: live_pass_def live_step_skip)
  from a have "CalculateRealizedPnlFromTrades f st userID = Inr (ledger_result (xs @ t # ys))"
    by (simp add: ledger_over_read_trades)
  with l show "CalculateRealizedPnlFromTrades f st userID = Inr (ledger_result (xs @ ys))"
    by (simp add: ledger_result_def)
next
  assume "\<not> backfill_complete t"
  then show "backfill_pass (xs @ t # ys) = backfill_pass (xs @ ys)"
    by (simp add: backfill_pass_def backfill_step_skip)
next
  assume "\<not> live_complete t"
  then show "live_pass (xs @ t # ys) = live_pass (xs @ ys)"
    by (simp add: live_pass_def live_step_skip)
next
  assume "Timestamp t \<noteq> None \<and> \<not> backfill_complete t"
  then have "\<not> live_complete t" by (simp add: guards_coincide)
  then show "live_pass (xs @ t # ys) = live_pass (xs @ ys)"
    by (simp add: live_pass_def live_step_skip)
next
  show "live_pass (xs @ t\<lparr>Timestamp := v\<rparr> # ys) = live_pass (xs @ t # ys)"
    by (simp add: live_pass_def live_step_Timestamp)
next
  assume "GetUserTradesChronological f st userID = Inr trs"
  then show "CalculateRealizedPnlFromTrades f st userID = Inr (ledger_result trs)"
    by (rule ledger_over_read_trades)
next
  assume "(\<forall>op. \<not> f op) \<and> find (\<lambda>u. Username u = username) (tbl_users st) = Some user"
  then show "\<exists>res st'. BackfillUser f st username = (Inr res, st')"
    using BackfillUser_no_faults [of username st user f] by blast
next
  assume n: "trades_not_null st"
  then show "trades_not_null (snd (InsertTrade f st tr))" by (rule InsertTrade_not_null)
  from n show "trades_not_null (snd (BackfillUser f st username))"
    by (simp add: trades_not_null_def trades_BackfillUser)
next
  assume "trades_not_null (db s)"
  then show "trades_not_null (db (snd (syncAll ev s accounts)))" by (rule not_null_syncAll)
qed

text \<open>
  The trades of bob with a SELL without outcome stored among them: both passes give the
  result of the three complete trades.
\<close>

theorem incomplete_trades_skipped_witness:
  "trades_not_null mixed_store \<and>
   GetUserTradesChronological no_faults mixed_store 2 = Inr mixed_trades \<and>
   CalculateRealizedPnlFromTrades no_faults mixed_store 2 = Inr (32/10, 2, 2) \<and>
   cumulativeRealizedPnl (backfill_pass mixed_trades) = 32/10 \<and>
   realizedPnl (live_pass mixed_trades) = 32/10"
proof -
  let ?xs = "map (\<lambda>t. t\<lparr>UserID := 2\<rparr>) (take 2 example_trades)"
  let ?ys = "map (\<lambda>t. t\<lparr>UserID := 2\<rparr>) (drop 2 example_trades)"
  let ?t = "no_outcome_sell\<lparr>UserID := 2\<rparr>"
  have m: "mixed_trades = ?xs @ ?t # ?ys" by (simp add: mixed_trades_def)
  have n: "trades_not_null mixed_store"
    by (simp add: trades_not_null_def trade_not_null_def mixed_store_def mixed_trades_def
        example_trades_def mk_trade_def no_outcome_sell_def)
  have g: "GetUserTradesChronological no_faults mixed_store 2 = Inr (?xs @ ?t # ?ys)"
    by (simp add: GetUserTradesChronological_def no_faults_def mixed_store_def mixed_trades_def
        example_trades_def mk_trade_def no_outcome_sell_def)
  have c: "\<not> backfill_complete ?t"
    by (simp add: backfill_complete_def no_outcome_sell_def)
  have r: "ledger_result (?xs @ ?ys) = (32/10, 2, 2)"
    by (simp add: ledger_result_def live_pass_def example_trades_def mk_trade_def live_step_def
        live_complete_def live_init_def count_leg_def Let_def)
  have b: "cumulativeRealizedPnl (backfill_pass (?xs @ ?ys)) = 32/10"
    by (simp add: backfill_pass_def example_trades_def mk_trade_def backfill_step_def
        backfill_complete_def backfill_init_def calculateRealizedPnlFIFO_def truncate_day_def Let_def)
  from incomplete_trades_skipped [where st = mixed_store and f = no_faults and userID = 2
      and xs = ?xs and t = ?t and ys = ?ys] n g c
  have "backfill_pass (?xs @ ?t # ?ys) = backfill_pass (?xs @ ?ys) \<and>
        live_pass (?xs @ ?t # ?ys) = live_pass (?xs @ ?ys) \<and>
        CalculateRealizedPnlFromTrades no_faults mixed_store 2 = Inr (ledger_result (?xs @ ?ys))"
    by blast
  with n g r b show ?thesis
    unfolding m by (simp add: ledger_result_def Let_def)
qed

end
